(* ===== verification/Restipy_Prelude.thy ===== *)
theory Restipy_Prelude
  imports Main
begin

text \<open>
  Shared vocabulary of the RestiPy development: the collections of facts the
  component theories add to, the three-way control flow of a Python block
  that may fall through, return early or raise, dictionary access with a
  default, and the ASCII fragment of the string methods the sources call
  (\<^verbatim>\<open>str.upper\<close>, \<^verbatim>\<open>str.lower\<close>, \<^verbatim>\<open>str.startswith\<close>, \<^verbatim>\<open>str.splitlines\<close>).
  Strings are byte strings (\<^typ>\<open>string\<close>); the case conversions act on the
  26 ASCII letters and leave every other byte alone, which is what Python
  does on ASCII text.
\<close>

section \<open>Fact collections\<close>

named_theorems restipy_defs "unfoldings of the operations of the model"
named_theorems restipy_branch "one equation per branch of an operation"
named_theorems restipy_inv "preservation of the well-formedness invariants"

section \<open>Control flow of a block\<close>

text \<open>
  A loop body or a \<^verbatim>\<open>try\<close> body of the dispatcher ends in one of three ways:
  it falls through to the next statement with a value (\<open>Next\<close>), it executes
  \<^verbatim>\<open>return out\<close> (\<open>Return\<close>), or it raises (\<open>Raise\<close>).
\<close>

datatype ('e, 'r, 'a) flow = Next 'a | Return 'r | Raise 'e

definition is_Next :: "('e, 'r, 'a) flow \<Rightarrow> bool" where
  "is_Next f = (case f of Next _ \<Rightarrow> True | _ \<Rightarrow> False)"

lemma is_Next_simps [simp]:
  "is_Next (Next a)" "\<not> is_Next (Return r)" "\<not> is_Next (Raise e)"
  by (simp_all add: is_Next_def)

lemma is_Next_iff: "is_Next f \<longleftrightarrow> (\<exists>a. f = Next a)"
  by (cases f) simp_all

section \<open>Dictionaries\<close>

text \<open>\<^verbatim>\<open>d.get(k, default)\<close> and \<^verbatim>\<open>d.get(k) or default\<close> for a dictionary \<open>d\<close>.\<close>

definition get_or :: "('k \<rightharpoonup> 'v) \<Rightarrow> 'k \<Rightarrow> 'v \<Rightarrow> 'v" where
  "get_or d k dflt = (case d k of None \<Rightarrow> dflt | Some v \<Rightarrow> v)"

lemma get_or_None [simp]: "d k = None \<Longrightarrow> get_or d k dflt = dflt"
  by (simp add: get_or_def)

lemma get_or_Some [simp]: "d k = Some v \<Longrightarrow> get_or d k dflt = v"
  by (simp add: get_or_def)

lemma get_or_empty [simp]: "get_or Map.empty k dflt = dflt"
  by (simp add: get_or_def)

lemma get_or_upd [simp]:
  "get_or (d(k' \<mapsto> v)) k dflt = (if k = k' then v else get_or d k dflt)"
  by (simp add: get_or_def)

lemma get_or_in_ran: "k \<in> dom d \<Longrightarrow> get_or d k dflt \<in> ran d"
  by (auto simp: get_or_def ran_def split: option.splits)

section \<open>Strings\<close>

definition ascii_lowercase :: string where
  "ascii_lowercase = ''abcdefghijklmnopqrstuvwxyz''"

definition ascii_uppercase :: string where
  "ascii_uppercase = ''ABCDEFGHIJKLMNOPQRSTUVWXYZ''"

text \<open>Replace a byte of \<open>src\<close> by the byte of \<open>dst\<close> at the same position.\<close>

definition translate :: "string \<Rightarrow> string \<Rightarrow> char \<Rightarrow> char" where
  "translate src dst c = (case map_of (zip src dst) c of Some u \<Rightarrow> u | None \<Rightarrow> c)"

definition upper :: "string \<Rightarrow> string" where
  "upper s = map (translate ascii_lowercase ascii_uppercase) s"

definition lower :: "string \<Rightarrow> string" where
  "lower s = map (translate ascii_uppercase ascii_lowercase) s"

definition startswith :: "string \<Rightarrow> string \<Rightarrow> bool" where
  "startswith s pre = (take (length pre) s = pre)"

lemmas string_eval =
  upper_def lower_def translate_def ascii_lowercase_def ascii_uppercase_def
  startswith_def

lemma translate_fixed: "c \<notin> set src \<Longrightarrow> translate src dst c = c"
  by (auto simp: translate_def split: option.splits dest: map_of_SomeD set_zip_leftD)

lemma translate_range:
  assumes "length src = length dst" and "c \<in> set src"
  shows "translate src dst c \<in> set dst"
proof -
  from assms obtain u where u: "map_of (zip src dst) c = Some u"
    by (metis map_of_zip_is_None not_Some_eq)
  then have "u \<in> set dst"
    by (auto dest!: map_of_SomeD set_zip_rightD)
  with u show ?thesis by (simp add: translate_def)
qed

lemma translate_idem:
  assumes "length src = length dst" and "set dst \<inter> set src = {}"
  shows "translate src dst (translate src dst c) = translate src dst c"
proof (cases "c \<in> set src")
  case True
  with assms have "translate src dst c \<notin> set src"
    using translate_range by blast
  then show ?thesis by (rule translate_fixed)
next
  case False
  then show ?thesis by (simp add: translate_fixed)
qed

lemma case_tables:
  "length ascii_lowercase = length ascii_uppercase"
  "set ascii_uppercase \<inter> set ascii_lowercase = {}"
  "set ascii_lowercase \<inter> set ascii_uppercase = {}"
  by (simp_all add: ascii_lowercase_def ascii_uppercase_def)

lemma upper_idem [simp]: "upper (upper s) = upper s"
  by (simp add: upper_def translate_idem case_tables)

lemma lower_idem [simp]: "lower (lower s) = lower s"
  by (simp add: lower_def translate_idem case_tables)

lemma length_upper [simp]: "length (upper s) = length s"
  by (simp add: upper_def)

lemma length_lower [simp]: "length (lower s) = length s"
  by (simp add: lower_def)

lemma upper_Nil [simp]: "upper [] = []"
  by (simp add: upper_def)

lemma upper_append: "upper (s @ t) = upper s @ upper t"
  by (simp add: upper_def)

lemma upper_no_lowercase: "set (upper s) \<inter> set ascii_lowercase = {}"
proof -
  have "translate ascii_lowercase ascii_uppercase c \<notin> set ascii_lowercase" for c
  proof (cases "c \<in> set ascii_lowercase")
    case True
    then show ?thesis
      using translate_range [OF case_tables(1)] case_tables(2) by blast
  next
    case False
    then show ?thesis by (simp add: translate_fixed)
  qed
  then show ?thesis by (auto simp: upper_def)
qed

lemma upper_fixed: "set s \<inter> set ascii_lowercase = {} \<Longrightarrow> upper s = s"
  by (induction s) (auto simp: upper_def translate_fixed)

lemma upper_HEAD [simp]: "upper ''HEAD'' = ''HEAD''"
  by (simp add: string_eval)

lemma upper_GET [simp]: "upper ''GET'' = ''GET''"
  by (simp add: string_eval)

lemma startswith_append [simp]: "startswith (pre @ s) pre"
  by (simp add: startswith_def)

lemma startswith_iff: "startswith s pre \<longleftrightarrow> (\<exists>t. s = pre @ t)"
  by (metis append_eq_conv_conj startswith_def)

section \<open>Lines of a text\<close>

text \<open>
  \<^verbatim>\<open>str.splitlines()\<close> on ASCII text: a line ends at a line feed, a carriage
  return, a carriage return followed by a line feed, or one of the
  separators 0x0B, 0x0C, 0x1C, 0x1D, 0x1E; the line ends are dropped and
  the empty text has no line.
\<close>

definition linebreak :: "char \<Rightarrow> bool" where
  "linebreak c = (c \<in> set [CHR 0x0A, CHR 0x0B, CHR 0x0C, CHR 0x0D, CHR 0x1C, CHR 0x1D, CHR 0x1E])"

fun drop_break :: "string \<Rightarrow> string" where
  "drop_break [] = []"
| "drop_break (c # cs) =
     (if c = CHR 0x0D
      then (case cs of [] \<Rightarrow> [] | d # ds \<Rightarrow> if d = CHR 0x0A then ds else cs)
      else cs)"

lemma length_drop_break: "length (drop_break s) \<le> length s - (if s = [] then 0 else 1)"
  by (cases s) (auto split: list.splits)

function splitlines :: "string \<Rightarrow> string list" where
  "splitlines s =
     (if s = [] then []
      else takeWhile (\<lambda>c. \<not> linebreak c) s
           # splitlines (drop_break (dropWhile (\<lambda>c. \<not> linebreak c) s)))"
  by pat_completeness auto
termination
proof (relation "measure length")
  show "wf (measure length)" by simp
next
  fix s :: string
  assume "s \<noteq> []"
  have "length (drop_break (dropWhile (\<lambda>c. \<not> linebreak c) s)) < length s"
  proof (cases "dropWhile (\<lambda>c. \<not> linebreak c) s = []")
    case True
    show ?thesis unfolding True using \<open>s \<noteq> []\<close> by simp
  next
    case False
    then have "length (drop_break (dropWhile (\<lambda>c. \<not> linebreak c) s))
        < length (dropWhile (\<lambda>c. \<not> linebreak c) s)"
      using length_drop_break [of "dropWhile (\<lambda>c. \<not> linebreak c) s"]
      by (cases "dropWhile (\<lambda>c. \<not> linebreak c) s") auto
    also have "\<dots> \<le> length s" by (rule length_dropWhile_le)
    finally show ?thesis .
  qed
  then show "(drop_break (dropWhile (\<lambda>c. \<not> linebreak c) s), s) \<in> measure length"
    by simp
qed

declare splitlines.simps [simp del]

lemma splitlines_Nil [simp]: "splitlines [] = []"
  by (simp add: splitlines.simps)

lemma splitlines_Cons:
  "splitlines (c # cs) =
     takeWhile (\<lambda>c. \<not> linebreak c) (c # cs)
       # splitlines (drop_break (dropWhile (\<lambda>c. \<not> linebreak c) (c # cs)))"
  by (subst splitlines.simps) simp

lemma splitlines_nonempty: "s \<noteq> [] \<Longrightarrow> splitlines s \<noteq> []"
  by (cases s) (simp_all add: splitlines_Cons)

lemma splitlines_no_break:
  assumes "s \<noteq> []" and "\<forall>c \<in> set s. \<not> linebreak c"
  shows "splitlines s = [s]"
proof -
  let ?P = "\<lambda>c. \<not> linebreak c"
  from assms(2) have tw: "takeWhile ?P s = s" by simp
  from assms(2) have dw: "dropWhile ?P s = []" by simp
  have "splitlines s = takeWhile ?P s # splitlines (drop_break (dropWhile ?P s))"
    using assms(1) by (subst splitlines.simps) simp
  also have "\<dots> = [s]" unfolding tw dw by simp
  finally show ?thesis .
qed

section \<open>First match in a list\<close>

lemma find_append:
  "find P (xs @ ys) = (case find P xs of None \<Rightarrow> find P ys | Some x \<Rightarrow> Some x)"
  by (induction xs) simp_all

lemma find_first:
  "\<forall>x \<in> set xs. \<not> P x \<Longrightarrow> P y \<Longrightarrow> find P (xs @ y # ys) = Some y"
  by (induction xs) simp_all

lemma find_Some_split:
  assumes "find P xs = Some y"
  shows "\<exists>pre post. xs = pre @ y # post \<and> (\<forall>x \<in> set pre. \<not> P x) \<and> P y"
  using assms
proof (induction xs)
  case Nil
  then show ?case by simp
next
  case (Cons x xs)
  show ?case
  proof (cases "P x")
    case True
    with Cons.prems have "x # xs = [] @ y # xs" and "P y" by simp_all
    then show ?thesis by (metis empty_iff list.set(1))
  next
    case False
    with Cons obtain pre post
      where "xs = pre @ y # post" and "\<forall>x \<in> set pre. \<not> P x" and "P y"
      by auto
    with False have "x # xs = (x # pre) @ y # post \<and> (\<forall>z \<in> set (x # pre). \<not> P z) \<and> P y"
      by simp
    then show ?thesis by blast
  qed
qed

end
