(* ===== verification/Restipy_Http.thy ===== *)
theory Restipy_Http
  imports Restipy_Prelude "HOL-Library.AList"
begin

text \<open>
  The collaborators of the dispatcher whose code is outside \<^verbatim>\<open>src/\<close>, modelled
  from the specification and from the test of the response class:
  JSON-like values, the exception taxonomy (transport errors, application
  errors, every other exception), the response object with its status table,
  and what a hook may hand back to the dispatcher.
  The dispatcher only ever asks of a returned value whether it is a response
  (\<^verbatim>\<open>isinstance(out, Response)\<close>), so every other value is one constructor.
\<close>

section \<open>Values\<close>

datatype jvalue =
    JNull
  | JBool bool
  | JInt int
  | JStr string
  | JList "jvalue list"
  | JDict "(string \<times> jvalue) list"

type_synonym header_dict = "(string \<times> string) list"

section \<open>Exceptions\<close>

text \<open>
  A transport error (\<^verbatim>\<open>HTTPException\<close>) carries a message, an HTTP status, a
  stable code string and optional headers.
\<close>

record http_exception =
  message :: string
  status_code :: int
  code :: string
  e_headers :: header_dict

text \<open>
  The three classes the dispatcher tells apart by its \<^verbatim>\<open>except\<close> clauses. An
  application error carries its message and the error it was raised
  \<^verbatim>\<open>from\<close>, if any; any other exception carries its class name and message.
\<close>

datatype exn =
    HTTPException http_exception
  | RestiPyException string "exn option"
  | Exception string string

fun exn_str :: "exn \<Rightarrow> string" where
  "exn_str (HTTPException e) = message e"
| "exn_str (RestiPyException msg cause) = msg"
| "exn_str (Exception cls msg) = msg"

fun is_HTTPException :: "exn \<Rightarrow> bool" where
  "is_HTTPException (HTTPException e) = True"
| "is_HTTPException _ = False"

fun is_RestiPyException :: "exn \<Rightarrow> bool" where
  "is_RestiPyException (RestiPyException msg cause) = True"
| "is_RestiPyException _ = False"

text \<open>The body a transport error turns into: its code and its message.\<close>

definition exc_get_response :: "http_exception \<Rightarrow> jvalue" where
  "exc_get_response e = JDict [(''code'', JStr (code e)), (''error'', JStr (message e))]"

section \<open>Responses\<close>

record response =
  body :: jvalue
  status :: int
  headers :: header_dict

text \<open>The recognised status codes with their status lines.\<close>

definition HTTP_STATUS_LINES :: "(int \<times> string) list" where
  "HTTP_STATUS_LINES =
   [(100, ''100 Continue''), (101, ''101 Switching Protocols''), (102, ''102 Processing''),
    (200, ''200 OK''), (201, ''201 Created''), (202, ''202 Accepted''),
    (203, ''203 Non-Authoritative Information''), (204, ''204 No Content''),
    (205, ''205 Reset Content''), (206, ''206 Partial Content''),
    (207, ''207 Multi-Status''), (208, ''208 Already Reported''), (226, ''226 IM Used''),
    (300, ''300 Multiple Choices''), (301, ''301 Moved Permanently''), (302, ''302 Found''),
    (303, ''303 See Other''), (304, ''304 Not Modified''), (305, ''305 Use Proxy''),
    (307, ''307 Temporary Redirect''), (308, ''308 Permanent Redirect''),
    (400, ''400 Bad Request''), (401, ''401 Unauthorized''), (402, ''402 Payment Required''),
    (403, ''403 Forbidden''), (404, ''404 Not Found''), (405, ''405 Method Not Allowed''),
    (406, ''406 Not Acceptable''), (407, ''407 Proxy Authentication Required''),
    (408, ''408 Request Timeout''), (409, ''409 Conflict''), (410, ''410 Gone''),
    (411, ''411 Length Required''), (412, ''412 Precondition Failed''),
    (413, ''413 Request Entity Too Large''), (414, ''414 Request-URI Too Long''),
    (415, ''415 Unsupported Media Type''), (416, ''416 Requested Range Not Satisfiable''),
    (417, ''417 Expectation Failed''), (421, ''421 Misdirected Request''),
    (422, ''422 Unprocessable Entity''), (423, ''423 Locked''),
    (424, ''424 Failed Dependency''), (426, ''426 Upgrade Required''),
    (428, ''428 Precondition Required''), (429, ''429 Too Many Requests''),
    (431, ''431 Request Header Fields Too Large''),
    (451, ''451 Unavailable For Legal Reasons''),
    (500, ''500 Internal Server Error''), (501, ''501 Not Implemented''),
    (502, ''502 Bad Gateway''), (503, ''503 Service Unavailable''),
    (504, ''504 Gateway Timeout''), (505, ''505 HTTP Version Not Supported''),
    (506, ''506 Variant Also Negotiates''), (507, ''507 Insufficient Storage''),
    (508, ''508 Loop Detected''), (510, ''510 Not Extended''),
    (511, ''511 Network Authentication Required'')]"

definition valid_status :: "int \<Rightarrow> bool" where
  "valid_status c = (map_of HTTP_STATUS_LINES c \<noteq> None)"

definition invalid_status_error :: exn where
  "invalid_status_error = Exception ''Exception'' ''Invalid status code.''"

text \<open>The setter of the status: an unrecognised code is rejected.\<close>

definition set_status :: "response \<Rightarrow> int \<Rightarrow> exn + response" where
  "set_status r c =
     (if valid_status c then Inr (r\<lparr>status := c\<rparr>) else Inl invalid_status_error)"

definition default_headers :: header_dict where
  "default_headers = [(''content-type'', ''application/json; charset=utf-8'')]"

text \<open>
  \<^verbatim>\<open>dict.update\<close> on an insertion-ordered dictionary: a key that is present
  keeps its place and takes the new value, a new key goes to the end.
\<close>

definition dict_update :: "('k \<times> 'v) list \<Rightarrow> ('k \<times> 'v) list \<Rightarrow> ('k \<times> 'v) list" where
  "dict_update d new = fold (\<lambda>(k, v). AList.update k v) new d"

text \<open>
  The constructor \<^verbatim>\<open>Response(body, status_code=c, headers=h)\<close>: the default
  headers updated with \<open>h\<close>, and the status set through the setter.
\<close>

definition Response :: "jvalue \<Rightarrow> int \<Rightarrow> header_dict \<Rightarrow> exn + response" where
  "Response b c h =
     set_status \<lparr>body = b, status = 200, headers = dict_update default_headers h\<rparr> c"

definition status_line :: "response \<Rightarrow> string" where
  "status_line r = get_or (map_of HTTP_STATUS_LINES) (status r) []"

section \<open>What a hook returns\<close>

datatype retval = Resp response | NonResp

section \<open>Facts\<close>

lemmas http_defs [restipy_defs] =
  Response_def set_status_def exc_get_response_def default_headers_def
  dict_update_def invalid_status_error_def

lemma valid_status_iff: "valid_status c \<longleftrightarrow> c \<in> fst ` set HTTP_STATUS_LINES"
  by (simp add: valid_status_def map_of_eq_None_iff)

lemma valid_status_common [simp]:
  "valid_status 200" "valid_status 400" "valid_status 404" "valid_status 413"
  "valid_status 500"
  by (simp_all add: valid_status_def HTTP_STATUS_LINES_def)

lemma invalid_status_examples [simp]: "\<not> valid_status 9090" "\<not> valid_status 0"
  by (simp_all add: valid_status_def HTTP_STATUS_LINES_def)

lemma set_status_valid [restipy_branch]:
  "valid_status c \<Longrightarrow> set_status r c = Inr (r\<lparr>status := c\<rparr>)"
  by (simp add: set_status_def)

lemma set_status_invalid [restipy_branch]:
  "\<not> valid_status c \<Longrightarrow> set_status r c = Inl invalid_status_error"
  by (simp add: set_status_def)

lemma Response_valid [restipy_branch]:
  "valid_status c \<Longrightarrow>
   Response b c h = Inr \<lparr>body = b, status = c, headers = dict_update default_headers h\<rparr>"
  by (simp add: Response_def set_status_def)

lemma Response_invalid [restipy_branch]:
  "\<not> valid_status c \<Longrightarrow> Response b c h = Inl invalid_status_error"
  by (simp add: Response_def set_status_def)

lemma Response_Inr_iff:
  "Response b c h = Inr r \<longleftrightarrow>
   valid_status c \<and> r = \<lparr>body = b, status = c, headers = dict_update default_headers h\<rparr>"
  by (auto simp: Response_def set_status_def)

lemma Response_status_valid: "Response b c h = Inr r \<Longrightarrow> valid_status (status r)"
  by (auto simp: Response_Inr_iff)

lemma dict_update_Nil [simp]: "dict_update d [] = d"
  by (simp add: dict_update_def)

lemma map_of_dict_update: "map_of (dict_update d new) = map_of d ++ map_of (rev new)"
proof (induction new arbitrary: d)
  case Nil
  then show ?case by simp
next
  case (Cons kv new)
  obtain k v where kv: "kv = (k, v)" by (cases kv)
  have "map_of (dict_update d (kv # new)) = map_of (dict_update (AList.update k v d) new)"
    by (simp add: dict_update_def kv)
  also have "\<dots> = map_of (AList.update k v d) ++ map_of (rev new)"
    by (rule Cons.IH)
  also have "\<dots> = map_of d ++ map_of (rev (kv # new))"
    by (auto simp: kv update_conv' fun_eq_iff map_add_def split: option.splits)
  finally show ?case .
qed

lemma default_content_type:
  assumes "''content-type'' \<notin> fst ` set h"
  shows "map_of (dict_update default_headers h) ''content-type'' =
     Some ''application/json; charset=utf-8''"
proof -
  from assms have "map_of (rev h) ''content-type'' = None"
    by (simp add: map_of_eq_None_iff)
  then show ?thesis
    by (simp add: map_of_dict_update map_add_def default_headers_def)
qed

end
