(* ===== verification/Restipy_Request.thy ===== *)
theory Restipy_Request
  imports Restipy_Http
begin

text \<open>
  The request object of \<^verbatim>\<open>src/restipy/core/request.py\<close>: the gateway
  environment it wraps, its slots, its constructor and the accessors that
  read the environment, \<^verbatim>\<open>url\<close>, \<^verbatim>\<open>href\<close> and the cached \<^verbatim>\<open>header\<close> included.
  The environment is a Python dictionary with values
  of several kinds; the model keeps the string-valued variables in one map
  and gives the three entries of another kind a field each, \<open>None\<close> when
  the key is absent. The back-reference \<^verbatim>\<open>env['restipy.app']\<close> stands for the
  application's configuration, the only part of the application a request
  reads.
\<close>

section \<open>Settings and environment\<close>

text \<open>The settings module: an attribute is \<open>None\<close> when the module lacks it.\<close>

record settings =
  DEBUG :: "bool option"
  MAX_BODY_SIZE :: "int option"
  VIEWS :: "string list"
  MIDDLEWARES :: "string list"

text \<open>
  \<open>wsgi_input\<close> holds the bytes not yet read from the input stream,
  \<open>wsgi_errors\<close> the chunks written to the diagnostic stream so far, and
  \<open>restipy_app\<close> the \<^verbatim>\<open>config\<close> attribute of the application (\<open>None\<close> inside
  when the application was never bootstrapped).
\<close>

record environ =
  vars :: "string \<rightharpoonup> string"
  wsgi_input :: "string option"
  wsgi_errors :: "string list option"
  restipy_app :: "settings option option"

section \<open>The request and its slots\<close>

record uploaded_file =
  filename :: string
  file_content_type :: string
  filepath :: string

type_synonym params = "string \<rightharpoonup> string option"

record request =
  env :: environ
  ctx :: "string \<rightharpoonup> jvalue"
  p_params :: params
  p_headers :: "(string \<rightharpoonup> string) option"
  p_files :: "(string \<times> uploaded_file) list"
  p_form :: jvalue

text \<open>\<^verbatim>\<open>Request.__init__(environ, params={})\<close>.\<close>

definition Request :: "environ \<Rightarrow> params \<Rightarrow> request" where
  "Request environ ps =
     \<lparr>env = environ, ctx = Map.empty, p_params = ps, p_headers = None,
      p_files = [], p_form = JDict []\<rparr>"

section \<open>Accessors\<close>

text \<open>\<open>repr\<close> of a string without quotes or escapes, as \<^verbatim>\<open>str(KeyError(k))\<close> shows it.\<close>

definition quoted :: "string \<Rightarrow> string" where
  "quoted s = [CHR 0x27] @ s @ [CHR 0x27]"

definition KeyError :: "string \<Rightarrow> exn" where
  "KeyError k = Exception ''KeyError'' (quoted k)"

definition app :: "request \<Rightarrow> exn + settings option" where
  "app req = (case restipy_app (env req) of
                None \<Rightarrow> Inl (KeyError ''restipy.app'')
              | Some a \<Rightarrow> Inr a)"

definition params :: "request \<Rightarrow> params" where
  "params req = p_params req"

definition set_params :: "request \<Rightarrow> params \<Rightarrow> request" where
  "set_params req ps = req\<lparr>p_params := ps\<rparr>"

definition request_method :: "request \<Rightarrow> string" where
  "request_method req = upper (get_or (vars (env req)) ''REQUEST_METHOD'' ''GET'')"

definition path :: "request \<Rightarrow> string" where
  "path req = get_or (vars (env req)) ''PATH_INFO'' ''/''"

definition host :: "request \<Rightarrow> string option" where
  "host req = vars (env req) ''HTTP_HOST''"

definition protocol :: "request \<Rightarrow> string" where
  "protocol req = upper (get_or (vars (env req)) ''wsgi.url_scheme'' ''http'')"

definition secure :: "request \<Rightarrow> bool" where
  "secure req = (protocol req = ''HTTPS'')"

definition accept :: "request \<Rightarrow> string option" where
  "accept req =
     (case vars (env req) ''HTTP_ACCEPT'' of
        None \<Rightarrow> None
      | Some a \<Rightarrow> if a \<noteq> [] then Some (lower a) else Some a)"

definition content_type :: "request \<Rightarrow> string" where
  "content_type req = get_or (vars (env req)) ''CONTENT_TYPE'' []"

text \<open>
  \<^verbatim>\<open>f'{self.protocol}://{self.host}'.lower()\<close>: an absent host is formatted as
  the text \<^verbatim>\<open>None\<close>.
\<close>

definition origin :: "request \<Rightarrow> string" where
  "origin req =
     lower (protocol req @ ''://'' @ (case host req of None \<Rightarrow> ''None'' | Some h \<Rightarrow> h))"

text \<open>\<^verbatim>\<open>__repr__\<close>.\<close>

definition repr :: "request \<Rightarrow> string" where
  "repr req = ''<Request '' @ request_method req @ '' '' @ path req @ ''>''"

section \<open>Addresses\<close>

text \<open>\<^verbatim>\<open>s.rstrip(c)\<close> for one character.\<close>

definition rstrip_char :: "char \<Rightarrow> string \<Rightarrow> string" where
  "rstrip_char c s = rev (dropWhile (\<lambda>x. x = c) (rev s))"

text \<open>
  \<^verbatim>\<open>urljoin(self.origin, self.path).rstrip('/')\<close>, with \<^verbatim>\<open>urllib.parse.urljoin\<close>
  as a parameter, and \<^verbatim>\<open>f'{self.url}?{self.env.get("QUERY_STRING", "")}'\<close>.
\<close>

definition url :: "(string \<Rightarrow> string \<Rightarrow> string) \<Rightarrow> request \<Rightarrow> string" where
  "url urljoin req = rstrip_char CHR ''/'' (urljoin (origin req) (path req))"

definition href :: "(string \<Rightarrow> string \<Rightarrow> string) \<Rightarrow> request \<Rightarrow> string" where
  "href urljoin req = url urljoin req @ ''?'' @ get_or (vars (env req)) ''QUERY_STRING'' []"

section \<open>Headers\<close>

text \<open>
  The property \<^verbatim>\<open>header\<close>: on the first access the dictionary is built from
  the entries of the environment whose key starts with \<^verbatim>\<open>HTTP_\<close> and stored;
  later accesses return what was stored. \<open>items\<close> is what
  \<^verbatim>\<open>self.env.items()\<close> yields, in order, and \<open>env_to_h\<close> the helper of
  \<^verbatim>\<open>restipy.utils.helpers\<close> that renames a key. In a dictionary
  comprehension a later entry overrides an earlier one with the same name.
\<close>

definition build_headers :: "(string \<Rightarrow> string) \<Rightarrow> (string \<times> string) list \<Rightarrow> string \<rightharpoonup> string" where
  "build_headers env_to_h items =
     map_of (rev (map (\<lambda>(k, v). (drop 5 (env_to_h k), v))
                   (filter (\<lambda>(k, v). startswith k ''HTTP_'') items)))"

definition header ::
  "(string \<Rightarrow> string) \<Rightarrow> (string \<times> string) list \<Rightarrow> request
     \<Rightarrow> (string \<rightharpoonup> string) \<times> request" where
  "header env_to_h items req =
     (case p_headers req of
        Some h \<Rightarrow> (h, req)
      | None \<Rightarrow> (build_headers env_to_h items,
                 req\<lparr>p_headers := Some (build_headers env_to_h items)\<rparr>))"

section \<open>Facts\<close>

lemmas request_defs [restipy_defs] =
  Request_def app_def params_def set_params_def request_method_def path_def
  host_def protocol_def secure_def accept_def content_type_def origin_def
  KeyError_def quoted_def repr_def rstrip_char_def url_def href_def build_headers_def header_def

lemma params_set_params [simp]: "params (set_params req ps) = ps"
  by (simp add: params_def set_params_def)

lemma set_params_frame [simp]:
  "env (set_params req ps) = env req" "ctx (set_params req ps) = ctx req"
  "p_headers (set_params req ps) = p_headers req"
  "p_files (set_params req ps) = p_files req" "p_form (set_params req ps) = p_form req"
  by (simp_all add: set_params_def)

lemma set_params_twice [simp]: "set_params (set_params req ps) qs = set_params req qs"
  by (simp add: set_params_def)

lemma env_reads_set_params [simp]:
  "request_method (set_params req ps) = request_method req"
  "path (set_params req ps) = path req"
  "content_type (set_params req ps) = content_type req"
  by (simp_all add: request_method_def path_def content_type_def)

lemma Request_fields [simp]:
  "env (Request e ps) = e" "ctx (Request e ps) = Map.empty"
  "params (Request e ps) = ps" "p_headers (Request e ps) = None"
  "p_files (Request e ps) = []" "p_form (Request e ps) = JDict []"
  by (simp_all add: Request_def params_def)

lemma request_method_upper [simp]: "upper (request_method req) = request_method req"
  by (simp add: request_method_def)

lemma request_method_default:
  "vars (env req) ''REQUEST_METHOD'' = None \<Longrightarrow> request_method req = ''GET''"
  by (simp add: request_method_def)

lemma path_default: "vars (env req) ''PATH_INFO'' = None \<Longrightarrow> path req = ''/''"
  by (simp add: path_def)

lemma protocol_upper [simp]: "upper (protocol req) = protocol req"
  by (simp add: protocol_def)

lemma origin_lower [simp]: "lower (origin req) = origin req"
  by (simp add: origin_def)

lemma app_Inr_iff: "app req = Inr a \<longleftrightarrow> restipy_app (env req) = Some a"
  by (simp add: app_def split: option.splits)

lemma rstrip_char_idem [simp]: "rstrip_char c (rstrip_char c s) = rstrip_char c s"
  by (simp add: rstrip_char_def)

lemma rstrip_char_last: "rstrip_char c s \<noteq> [] \<Longrightarrow> last (rstrip_char c s) \<noteq> c"
proof -
  assume ne: "rstrip_char c s \<noteq> []"
  then have "dropWhile (\<lambda>x. x = c) (rev s) \<noteq> []"
    by (simp add: rstrip_char_def)
  then have "hd (dropWhile (\<lambda>x. x = c) (rev s)) \<noteq> c"
    using hd_dropWhile [of "\<lambda>x. x = c" "rev s"] by simp
  with ne show ?thesis
    by (simp add: rstrip_char_def last_rev)
qed

lemma rstrip_char_fixed: "s \<noteq> [] \<Longrightarrow> last s \<noteq> c \<Longrightarrow> rstrip_char c s = s"
  by (cases "rev s") (auto simp: rstrip_char_def last_rev rev_eq_Cons_iff)

text \<open>The address never ends in a slash, and the reference always holds a question mark.\<close>

lemma url_no_trailing_slash: "url urljoin req \<noteq> [] \<Longrightarrow> last (url urljoin req) \<noteq> CHR ''/''"
  unfolding url_def by (rule rstrip_char_last)

lemma href_no_query:
  "vars (env req) ''QUERY_STRING'' = None \<Longrightarrow> href urljoin req = url urljoin req @ ''?''"
  by (simp add: href_def)

text \<open>The headers are computed once: what the first access stored is what every later access returns.\<close>

lemma header_first [restipy_branch]:
  "p_headers req = None \<Longrightarrow>
     header env_to_h items req =
       (build_headers env_to_h items, req\<lparr>p_headers := Some (build_headers env_to_h items)\<rparr>)"
  by (simp add: header_def)

lemma header_cached:
  "header f items' (snd (header env_to_h items req)) =
     (fst (header env_to_h items req), snd (header env_to_h items req))"
  by (simp add: header_def split: option.splits)

lemma build_headers_last_wins:
  "build_headers env_to_h (items @ [(k, v)]) =
     (if startswith k ''HTTP_'' then (build_headers env_to_h items)(drop 5 (env_to_h k) \<mapsto> v)
      else build_headers env_to_h items)"
  by (auto simp: build_headers_def)

lemma build_headers_skips:
  "\<forall>(k, v) \<in> set items. \<not> startswith k ''HTTP_'' \<Longrightarrow> build_headers env_to_h items = Map.empty"
proof -
  assume "\<forall>(k, v) \<in> set items. \<not> startswith k ''HTTP_''"
  then have "filter (\<lambda>(k, v). startswith k ''HTTP_'') items = []"
    by (auto simp: filter_empty_conv)
  then show ?thesis by (simp add: build_headers_def)
qed

section \<open>The normal form of the method\<close>

text \<open>
  \<open>request_method\<close> contains no lower-case ASCII letter, has the length of
  the value in the environment, is unchanged when that value has no
  lower-case letter, and is \<^verbatim>\<open>GET\<close> when the environment has no
  \<^verbatim>\<open>REQUEST_METHOD\<close>. The route table is keyed by upper-cased method names,
  so lookup by \<open>request_method\<close> does not depend on the case the client
  used.
\<close>

lemma request_method_normalised:
  "set (request_method req) \<inter> set ascii_lowercase = {}
   \<and> length (request_method req) = length (get_or (vars (env req)) ''REQUEST_METHOD'' ''GET'')
   \<and> (vars (env req) ''REQUEST_METHOD'' = None \<longrightarrow> request_method req = ''GET'')
   \<and> (\<forall>m. vars (env req) ''REQUEST_METHOD'' = Some m \<and> set m \<inter> set ascii_lowercase = {}
          \<longrightarrow> request_method req = m)"
  by (simp add: request_method_def upper_no_lowercase upper_fixed)

end
