(* ===== verification/Restipy_App.thy ===== *)
theory Restipy_App
  imports Restipy_Request
begin

text \<open>
  The data model of the application object of
  \<^verbatim>\<open>src/restipy/core/application.py\<close>: hooks, views, middleware and the
  registries \<^verbatim>\<open>RestiPy.__init__\<close> creates.

  A hook is Python code the application calls with the request. It may
  change the request (its context, its environment), and it either returns a
  value or raises; the model gives it the request and takes back the outcome
  and the request as the hook left it. A hook that also receives the
  response may change the response too, and what it returns is discarded.

  A route is either a pattern string or a compiled pattern. A compiled
  pattern is modelled by what \<^verbatim>\<open>pattern.match(path)\<close> yields: \<open>None\<close>, or the
  dictionary of the named groups.
\<close>

section \<open>Hooks\<close>

type_synonym hook = "request \<Rightarrow> (exn + retval) \<times> request"
type_synonym after_hook = "request \<Rightarrow> response \<Rightarrow> exn option \<times> request \<times> response"
type_synonym exc_hook = "request \<Rightarrow> exn \<Rightarrow> (exn + retval) \<times> request"

section \<open>Views and middleware\<close>

type_synonym pattern = "string \<Rightarrow> params option"

datatype route = RouteStr string | RoutePattern pattern

record view =
  route :: route
  methods :: "string list"
  before_handler :: hook
  handler :: hook
  after_handler :: after_hook
  on_exception :: exc_hook

record middleware =
  before_route :: hook
  m_before_handler :: hook
  m_after_handler :: after_hook

section \<open>The application\<close>

text \<open>
  \<^verbatim>\<open>__init__\<close> only annotates \<^verbatim>\<open>self.config\<close>: the attribute does not exist until
  \<^verbatim>\<open>bootstrap\<close> assigns it, which is \<open>None\<close> here.
\<close>

record restipy =
  config :: "settings option"
  routes :: "string \<rightharpoonup> view list"
  before_route_m :: "hook list"
  before_m :: "hook list"
  after_m :: "after_hook list"

definition RestiPy :: restipy where
  "RestiPy = \<lparr>config = None, routes = Map.empty, before_route_m = [], before_m = [],
              after_m = []\<rparr>"

section \<open>Hooks that do nothing\<close>

text \<open>The hooks of the base classes: return \<^verbatim>\<open>None\<close> and leave everything alone.\<close>

definition pass_hook :: hook where
  "pass_hook req = (Inr NonResp, req)"

definition pass_after :: after_hook where
  "pass_after req out = (None, req, out)"

definition respond :: "response \<Rightarrow> hook" where
  "respond r req = (Inr (Resp r), req)"

definition raising :: "exn \<Rightarrow> hook" where
  "raising e req = (Inl e, req)"

definition reraise :: exc_hook where
  "reraise req e = (Inl e, req)"

section \<open>Fixtures for the worked examples\<close>

text \<open>
  An environment with no entry and the request over it; a pattern that
  matches every path with a given prefix and captures nothing, a pattern for \<^verbatim>\<open>/users/(?P<id>...)\<close> that captures what follows
  the prefix, and a view built from a pattern, its methods and the response
  its handler returns.
\<close>

definition prefix_pattern :: "string \<Rightarrow> pattern" where
  "prefix_pattern pre p = (if startswith p pre then Some Map.empty else None)"

definition capture_pattern :: "string \<Rightarrow> string \<Rightarrow> pattern" where
  "capture_pattern pre name p =
     (if startswith p pre \<and> length pre < length p
      then Some [name \<mapsto> Some (drop (length pre) p)] else None)"

definition bare_environ :: environ where
  "bare_environ = \<lparr>vars = Map.empty, wsgi_input = None, wsgi_errors = None, restipy_app = None\<rparr>"

definition bare_request :: request where
  "bare_request = Request bare_environ Map.empty"

definition text_response :: "string \<Rightarrow> response" where
  "text_response s = \<lparr>body = JStr s, status = 200, headers = default_headers\<rparr>"

definition demo_view :: "pattern \<Rightarrow> string list \<Rightarrow> string \<Rightarrow> view" where
  "demo_view pat ms s =
     \<lparr>route = RoutePattern pat, methods = ms, before_handler = pass_hook,
      handler = respond (text_response s), after_handler = pass_after,
      on_exception = reraise\<rparr>"

lemmas hook_defs [restipy_defs] =
  pass_hook_def pass_after_def respond_def raising_def reraise_def

lemmas fixture_defs =
  prefix_pattern_def capture_pattern_def text_response_def demo_view_def
  bare_environ_def bare_request_def

lemma demo_view_fields [simp]:
  "route (demo_view pat ms s) = RoutePattern pat" "methods (demo_view pat ms s) = ms"
  "before_handler (demo_view pat ms s) = pass_hook"
  "handler (demo_view pat ms s) = respond (text_response s)"
  "after_handler (demo_view pat ms s) = pass_after"
  "on_exception (demo_view pat ms s) = reraise"
  by (simp_all add: demo_view_def)

lemma RestiPy_fields [simp]:
  "config RestiPy = None" "routes RestiPy = Map.empty" "before_route_m RestiPy = []"
  "before_m RestiPy = []" "after_m RestiPy = []"
  by (simp_all add: RestiPy_def)

end
