(* ===== verification/Restipy_Routing.thy ===== *)
theory Restipy_Routing
  imports Restipy_App
begin

text \<open>
  The route table of \<^verbatim>\<open>src/restipy/core/application.py\<close>: registration
  (\<^verbatim>\<open>_add_view\<close>) and lookup (\<^verbatim>\<open>match\<close>). The table maps a method name to the
  list of the views registered under it, in registration order. Lookup scans
  the list of the requested method, then for \<^verbatim>\<open>HEAD\<close> the list of \<^verbatim>\<open>GET\<close>,
  and stops at the first view whose pattern matches the path.

  The lemmas give the scan over an appended list, the abstract
  specification of lookup as \<^const>\<open>find\<close> over the candidate list with the
  proof that \<open>match\<close> implements it, first-match precedence, the \<^verbatim>\<open>HEAD\<close>
  fallback, the not-found error, and what registration does to each list.
  Two invariants of the table are kept by registration: every key is upper
  case and has a list that is not empty (\<open>wf_routes\<close>), and a view stands
  only under method names it declares (\<open>listed\<close>), so that lookup returns
  only views that declare the requested method.
\<close>

section \<open>Registration\<close>

text \<open>\<^verbatim>\<open>re.compile\<close> applied to a compiled pattern returns that pattern.\<close>

definition re_compile :: "pattern \<Rightarrow> pattern" where
  "re_compile pat = pat"

text \<open>
  \<^verbatim>\<open>if not isinstance(view.route, str): view.route = re.compile(view.route)\<close>:
  a route that is a string is left as it is.
\<close>

definition compile_route :: "view \<Rightarrow> view" where
  "compile_route v =
     (case route v of
        RouteStr s \<Rightarrow> v
      | RoutePattern pat \<Rightarrow> v\<lparr>route := RoutePattern (re_compile pat)\<rparr>)"

text \<open>The body of the loop over \<^verbatim>\<open>view.methods\<close>.\<close>

definition append_route :: "string \<Rightarrow> view \<Rightarrow> (string \<rightharpoonup> view list) \<Rightarrow> (string \<rightharpoonup> view list)" where
  "append_route m v rs =
     (let k = upper m;
          rs' = (if rs k = None then rs(k \<mapsto> []) else rs)
      in rs'(k \<mapsto> get_or rs' k [] @ [v]))"

definition add_view :: "restipy \<Rightarrow> view \<Rightarrow> restipy" where
  "add_view self v =
     (let v' = compile_route v
      in self\<lparr>routes := fold (\<lambda>m. append_route m v') (methods v') (routes self)\<rparr>)"

section \<open>Lookup\<close>

definition route_not_found :: exn where
  "route_not_found =
     HTTPException \<lparr>message = ''Route not found.'', status_code = 404,
                    code = ''ROUTE_NOT_FOUND'', e_headers = []\<rparr>"

text \<open>What \<^verbatim>\<open>view.route.match(path)\<close> raises when the route is still a string.\<close>

definition str_has_no_match :: exn where
  "str_has_no_match =
     Exception ''AttributeError''
       (quoted ''str'' @ '' object has no attribute '' @ quoted ''match'')"

text \<open>The inner loop \<^verbatim>\<open>for view in routes\<close>.\<close>

fun scan_views :: "view list \<Rightarrow> string \<Rightarrow> (exn, view \<times> params, unit) flow" where
  "scan_views [] p = Next ()"
| "scan_views (v # vs) p =
     (case route v of
        RouteStr s \<Rightarrow> Raise str_has_no_match
      | RoutePattern pat \<Rightarrow>
          (case pat p of Some groups \<Rightarrow> Return (v, groups) | None \<Rightarrow> scan_views vs p))"

text \<open>The outer loop \<^verbatim>\<open>for method in methods\<close>.\<close>

fun scan_methods ::
  "(string \<rightharpoonup> view list) \<Rightarrow> string list \<Rightarrow> string \<Rightarrow> (exn, view \<times> params, unit) flow" where
  "scan_methods rs [] p = Next ()"
| "scan_methods rs (m # ms) p =
     (case scan_views (get_or rs m []) p of
        Next u \<Rightarrow> scan_methods rs ms p
      | Return r \<Rightarrow> Return r
      | Raise e \<Rightarrow> Raise e)"

definition match :: "restipy \<Rightarrow> string \<Rightarrow> string \<Rightarrow> exn + view \<times> params" where
  "match self p m =
     (let ms = [m] @ (if m = ''HEAD'' then [''GET''] else [])
      in case scan_methods (routes self) ms p of
           Return r \<Rightarrow> Inr r
         | Raise e \<Rightarrow> Inl e
         | Next u \<Rightarrow> Inl route_not_found)"

section \<open>Abstract specification of lookup\<close>

text \<open>
  The views a lookup may return, in the order it tries them; whether a view
  stops the scan; and what the scan yields at the view that stops it.
\<close>

definition candidates :: "restipy \<Rightarrow> string \<Rightarrow> view list" where
  "candidates self m =
     get_or (routes self) m [] @ (if m = ''HEAD'' then get_or (routes self) ''GET'' [] else [])"

definition compiled :: "view \<Rightarrow> bool" where
  "compiled v = (case route v of RoutePattern pat \<Rightarrow> True | RouteStr s \<Rightarrow> False)"

definition matches :: "string \<Rightarrow> view \<Rightarrow> bool" where
  "matches p v = (case route v of RoutePattern pat \<Rightarrow> pat p \<noteq> None | RouteStr s \<Rightarrow> False)"

definition stops :: "string \<Rightarrow> view \<Rightarrow> bool" where
  "stops p v = (\<not> compiled v \<or> matches p v)"

definition hit :: "string \<Rightarrow> view \<Rightarrow> exn + view \<times> params" where
  "hit p v =
     (case route v of
        RouteStr s \<Rightarrow> Inl str_has_no_match
      | RoutePattern pat \<Rightarrow>
          (case pat p of Some groups \<Rightarrow> Inr (v, groups) | None \<Rightarrow> Inl route_not_found))"

definition match_spec :: "restipy \<Rightarrow> string \<Rightarrow> string \<Rightarrow> exn + view \<times> params" where
  "match_spec self p m =
     (case find (stops p) (candidates self m) of
        None \<Rightarrow> Inl route_not_found
      | Some v \<Rightarrow> hit p v)"

text \<open>The invariant of the table: keys are upper case and no list is empty.\<close>

definition wf_routes :: "(string \<rightharpoonup> view list) \<Rightarrow> bool" where
  "wf_routes rs = (\<forall>k vs. rs k = Some vs \<longrightarrow> upper k = k \<and> vs \<noteq> [])"

text \<open>
  A view declares a method name when one of its \<^verbatim>\<open>methods\<close> is that name in
  some case; a table lists views honestly when every view stands under
  names it declares only.
\<close>

definition declares :: "view \<Rightarrow> string \<Rightarrow> bool" where
  "declares v k = (k \<in> set (map upper (methods v)))"

definition listed :: "(string \<rightharpoonup> view list) \<Rightarrow> bool" where
  "listed rs = (\<forall>k vs. rs k = Some vs \<longrightarrow> (\<forall>v \<in> set vs. declares v k))"

lemmas routing_defs [restipy_defs] =
  re_compile_def compile_route_def append_route_def add_view_def route_not_found_def
  str_has_no_match_def match_def candidates_def compiled_def matches_def stops_def
  hit_def match_spec_def

section \<open>The scan\<close>

lemma scan_views_append:
  "scan_views (xs @ ys) p =
     (case scan_views xs p of Next u \<Rightarrow> scan_views ys p | Return r \<Rightarrow> Return r | Raise e \<Rightarrow> Raise e)"
  by (induction xs) (simp_all split: route.splits option.splits)

lemma scan_views_Next_iff:
  "scan_views vs p = Next u \<longleftrightarrow> (\<forall>v \<in> set vs. \<not> stops p v)"
  by (induction vs)
     (auto simp: stops_def compiled_def matches_def split: route.splits option.splits)

lemma scan_views_find:
  "scan_views vs p =
     (case find (stops p) vs of
        None \<Rightarrow> Next ()
      | Some v \<Rightarrow> (case hit p v of Inr r \<Rightarrow> Return r | Inl e \<Rightarrow> Raise e))"
  by (induction vs)
     (auto simp: stops_def compiled_def matches_def hit_def split: route.splits option.splits)

lemma scan_views_Return:
  "scan_views vs p = Return (v, g) \<Longrightarrow>
     v \<in> set vs \<and> (\<exists>pat. route v = RoutePattern pat \<and> pat p = Some g)"
  by (induction vs) (auto split: route.splits option.splits)

lemma scan_views_Raise: "scan_views vs p = Raise e \<Longrightarrow> e = str_has_no_match"
  by (induction vs) (auto split: route.splits option.splits)

lemma scan_views_first:
  assumes "\<forall>u \<in> set pre. \<not> stops p u" and "route v = RoutePattern pat" and "pat p = Some g"
  shows "scan_views (pre @ v # post) p = Return (v, g)"
proof -
  from assms(1) have "scan_views pre p = Next ()"
    by (simp add: scan_views_Next_iff)
  with assms(2,3) show ?thesis
    by (simp add: scan_views_append)
qed

lemma scan_methods_candidates:
  "scan_methods (routes self) ([m] @ (if m = ''HEAD'' then [''GET''] else [])) p =
     scan_views (candidates self m) p"
  by (simp add: candidates_def scan_views_append split: flow.splits)

lemma match_scan:
  "match self p m =
     (case scan_views (candidates self m) p of
        Return r \<Rightarrow> Inr r
      | Raise e \<Rightarrow> Inl e
      | Next u \<Rightarrow> Inl route_not_found)"
  unfolding match_def Let_def scan_methods_candidates ..

lemma match_no_stop:
  "\<forall>v \<in> set (candidates self m). \<not> stops p v \<Longrightarrow> match self p m = Inl route_not_found"
  using scan_views_Next_iff [of "candidates self m" p "()"] by (simp add: match_scan)

section \<open>Registration and the table\<close>

lemma compile_route_id [simp]: "compile_route v = v"
  by (cases v) (simp add: compile_route_def re_compile_def split: route.splits)

lemma append_route_lookup:
  "get_or (append_route m v rs) k [] = get_or rs k [] @ (if upper m = k then [v] else [])"
  by (auto simp: append_route_def Let_def get_or_def split: option.splits)

lemma fold_append_route_lookup:
  "get_or (fold (\<lambda>m. append_route m v) ms rs) k [] =
     get_or rs k [] @ map (\<lambda>m. v) (filter (\<lambda>m. upper m = k) ms)"
  by (induction ms arbitrary: rs) (simp_all add: append_route_lookup)

lemma add_view_lookup:
  "get_or (routes (add_view self v)) k [] =
     get_or (routes self) k [] @ map (\<lambda>m. v) (filter (\<lambda>m. upper m = k) (methods v))"
  by (simp add: add_view_def fold_append_route_lookup)

lemma add_view_frame [simp]:
  "config (add_view self v) = config self"
  "before_route_m (add_view self v) = before_route_m self"
  "before_m (add_view self v) = before_m self"
  "after_m (add_view self v) = after_m self"
  by (simp_all add: add_view_def)

lemma wf_routes_empty [simp]: "wf_routes Map.empty"
  by (simp add: wf_routes_def)

lemma wf_append_route [restipy_inv]: "wf_routes rs \<Longrightarrow> wf_routes (append_route m v rs)"
  by (auto simp: wf_routes_def append_route_def Let_def split: if_splits)

lemma wf_fold_append_route [restipy_inv]:
  "wf_routes rs \<Longrightarrow> wf_routes (fold (\<lambda>m. append_route m v) ms rs)"
  by (induction ms arbitrary: rs) (simp_all add: wf_append_route)

lemma listed_empty [simp]: "listed Map.empty"
  by (simp add: listed_def)

lemma listed_lookup: "listed rs \<Longrightarrow> v \<in> set (get_or rs k []) \<Longrightarrow> declares v k"
  by (cases "rs k") (auto simp: listed_def get_or_def)

lemma listed_append_route [restipy_inv]:
  "listed rs \<Longrightarrow> m \<in> set (methods v) \<Longrightarrow> listed (append_route m v rs)"
  by (auto simp: listed_def declares_def append_route_def Let_def get_or_def
      split: if_splits option.splits)

lemma listed_fold_append_route [restipy_inv]:
  "listed rs \<Longrightarrow> set ms \<subseteq> set (methods v) \<Longrightarrow> listed (fold (\<lambda>m. append_route m v) ms rs)"
  by (induction ms arbitrary: rs) (simp_all add: listed_append_route)

lemma listed_add_view [restipy_inv]: "listed (routes self) \<Longrightarrow> listed (routes (add_view self v))"
  by (simp add: add_view_def listed_fold_append_route)

section \<open>Properties of lookup\<close>

text \<open>
  C4. First-match precedence: when the list of the requested method holds a
  view whose pattern matches the path, and no view registered before it in
  that list stops the scan, lookup returns that view with the groups its
  pattern captured, whatever is registered after it.
\<close>

theorem match_first_wins:
  assumes "get_or (routes self) m [] = pre @ v # post"
    and "\<forall>u \<in> set pre. \<not> stops p u"
    and "route v = RoutePattern pat" and "pat p = Some g"
  shows "match self p m = Inr (v, g)"
proof -
  have "candidates self m = pre @ v # (post @ (if m = ''HEAD'' then get_or (routes self) ''GET'' [] else []))"
    by (simp add: candidates_def assms(1))
  then have "scan_views (candidates self m) p = Return (v, g)"
    using assms(2-4) by (simp only: scan_views_first)
  then show ?thesis by (simp add: match_scan)
qed

theorem match_first_wins_witness:
  "match (add_view (add_view RestiPy (demo_view (prefix_pattern ''/users'') [''get''] ''first''))
            (demo_view (prefix_pattern ''/'') [''GET''] ''second''))
     ''/users/7'' ''GET''
   = Inr (demo_view (prefix_pattern ''/users'') [''get''] ''first'', Map.empty)"
  using match_first_wins [of
      "add_view (add_view RestiPy (demo_view (prefix_pattern ''/users'') [''get''] ''first''))
         (demo_view (prefix_pattern ''/'') [''GET''] ''second'')"
      "''GET''" "[]" "demo_view (prefix_pattern ''/users'') [''get''] ''first''"
      "[demo_view (prefix_pattern ''/'') [''GET''] ''second'']" "''/users/7''"
      "prefix_pattern ''/users''" Map.empty]
  by (simp add: add_view_lookup string_eval prefix_pattern_def)

text \<open>
  C5. Lookup implements its specification: \<open>match\<close> returns what the first
  candidate that stops the scan yields, where the candidates are the list
  of the requested method followed, for \<^verbatim>\<open>HEAD\<close>, by the list of \<^verbatim>\<open>GET\<close>;
  with no such candidate it raises the not-found error.
\<close>

theorem match_implements_spec: "match self p m = match_spec self p m"
  by (simp add: match_scan scan_views_find match_spec_def hit_def
      split: option.splits route.splits)

text \<open>
  C10. \<^verbatim>\<open>HEAD\<close> falls back to \<^verbatim>\<open>GET\<close>: when no view registered under
  \<^verbatim>\<open>HEAD\<close> stops the scan, a \<^verbatim>\<open>HEAD\<close> lookup resolves exactly as the \<^verbatim>\<open>GET\<close>
  lookup of the same path.
\<close>

theorem match_HEAD_fallback:
  assumes "\<forall>v \<in> set (get_or (routes self) ''HEAD'' []). \<not> stops p v"
  shows "match self p ''HEAD'' = match self p ''GET''"
proof -
  from assms have "scan_views (get_or (routes self) ''HEAD'' []) p = Next ()"
    by (simp add: scan_views_Next_iff)
  then show ?thesis
    by (simp add: match_scan candidates_def scan_views_append)
qed

theorem match_HEAD_fallback_witness:
  "match (add_view RestiPy (demo_view (prefix_pattern ''/ping'') [''GET''] ''pong''))
     ''/ping'' ''HEAD''
   = Inr (demo_view (prefix_pattern ''/ping'') [''GET''] ''pong'', Map.empty)"
  using match_HEAD_fallback [of
      "add_view RestiPy (demo_view (prefix_pattern ''/ping'') [''GET''] ''pong'')" "''/ping''"]
  by (simp add: add_view_lookup string_eval prefix_pattern_def match_scan candidates_def)

text \<open>
  C23. Not found: lookup raises the transport error 404 with code
  \<^verbatim>\<open>ROUTE_NOT_FOUND\<close> exactly when no candidate stops the scan, that is, when
  every candidate is compiled and none matches the path.
\<close>

theorem match_not_found_iff:
  "match self p m = Inl route_not_found \<longleftrightarrow> (\<forall>v \<in> set (candidates self m). \<not> stops p v)"
proof (cases "scan_views (candidates self m) p")
  case (Next u)
  then show ?thesis
    using scan_views_Next_iff [of "candidates self m" p u] by (simp add: match_scan)
next
  case (Return r)
  then show ?thesis
    using scan_views_Next_iff [of "candidates self m" p "()"] by (simp add: match_scan)
next
  case (Raise e)
  then have "e \<noteq> route_not_found"
    by (auto dest: scan_views_Raise simp: route_not_found_def str_has_no_match_def)
  with Raise show ?thesis
    using scan_views_Next_iff [of "candidates self m" p "()"] by (simp add: match_scan)
qed

theorem match_not_found_iff_witness:
  "match (add_view RestiPy (demo_view (prefix_pattern ''/ping'') [''GET''] ''pong''))
     ''/nope'' ''POST'' = Inl route_not_found
   \<and> status_code \<lparr>message = ''Route not found.'', status_code = 404,
                      code = ''ROUTE_NOT_FOUND'', e_headers = []\<rparr> = 404"
  using match_not_found_iff [of
      "add_view RestiPy (demo_view (prefix_pattern ''/ping'') [''GET''] ''pong'')"
      "''/nope''" "''POST''"]
  by (simp add: candidates_def add_view_lookup string_eval)

lemma match_Inr_sound:
  assumes "match self p m = Inr (v, g)"
  shows "v \<in> set (candidates self m) \<and> (\<exists>pat. route v = RoutePattern pat \<and> pat p = Some g)"
proof -
  from assms have "scan_views (candidates self m) p = Return (v, g)"
    by (simp add: match_scan split: flow.splits)
  then show ?thesis by (rule scan_views_Return)
qed

lemma match_HEAD_specific_first:
  "scan_views (get_or (routes self) ''HEAD'' []) p = Return r \<Longrightarrow>
     match self p ''HEAD'' = Inr r"
  by (simp add: match_scan candidates_def scan_views_append)

section \<open>Properties of registration\<close>

text \<open>
  Registration appends: after \<open>add_view\<close> the list of a method name
  \<open>k\<close> is the old list followed by one copy of the view for every declared
  method whose upper-case form is \<open>k\<close>; the lists of all other names, the
  configuration and the middleware lists are unchanged.
\<close>

lemma add_view_appends:
  "get_or (routes (add_view self v)) k [] =
     get_or (routes self) k [] @ replicate (length (filter (\<lambda>m. upper m = k) (methods v))) v
   \<and> config (add_view self v) = config self
   \<and> before_route_m (add_view self v) = before_route_m self
   \<and> before_m (add_view self v) = before_m self
   \<and> after_m (add_view self v) = after_m self"
  by (simp add: add_view_lookup map_replicate_const)

text \<open>
  C29. Registration keeps resolutions: a lookup for a method other than
  \<^verbatim>\<open>HEAD\<close> that returned a view before a registration returns the same view
  and groups after it.
\<close>

theorem add_view_preserves_match:
  assumes "match self p m = Inr r" and "m \<noteq> ''HEAD''"
  shows "match (add_view self v) p m = Inr r"
proof -
  from assms have "scan_views (get_or (routes self) m []) p = Return r"
    by (simp add: match_scan candidates_def split: flow.splits)
  with assms(2) show ?thesis
    by (simp add: match_scan candidates_def add_view_lookup scan_views_append)
qed

theorem add_view_preserves_match_witness:
  "match (add_view (add_view RestiPy (demo_view (prefix_pattern ''/a'') [''GET''] ''one''))
            (demo_view (prefix_pattern ''/'') [''GET''] ''two''))
     ''/a'' ''GET''
   = Inr (demo_view (prefix_pattern ''/a'') [''GET''] ''one'', Map.empty)"
  using add_view_preserves_match [of
      "add_view RestiPy (demo_view (prefix_pattern ''/a'') [''GET''] ''one'')" "''/a''" "''GET''"
      "(demo_view (prefix_pattern ''/a'') [''GET''] ''one'', Map.empty)"
      "demo_view (prefix_pattern ''/'') [''GET''] ''two''"]
  by (simp add: match_scan candidates_def add_view_lookup string_eval prefix_pattern_def)

text \<open>
  C30. A route given as a string is never compiled: after registering a
  view whose route is a string under a method whose list held no view that
  stops the scan, every lookup for that method raises \<^verbatim>\<open>AttributeError\<close>,
  whatever the path.
\<close>

theorem str_route_raises:
  assumes "route v = RouteStr s" and "m \<in> set (methods v)"
    and "\<forall>u \<in> set (get_or (routes self) (upper m) []). \<not> stops p u"
  shows "match (add_view self v) p (upper m) = Inl str_has_no_match"
proof -
  from assms(3) have old: "scan_views (get_or (routes self) (upper m) []) p = Next ()"
    by (simp add: scan_views_Next_iff)
  from assms(2) obtain n where "length (filter (\<lambda>x. upper x = upper m) (methods v)) = Suc n"
    by (cases "filter (\<lambda>x. upper x = upper m) (methods v)") (auto simp: filter_empty_conv)
  then have "scan_views (map (\<lambda>x. v) (filter (\<lambda>x. upper x = upper m) (methods v))) p
      = Raise str_has_no_match"
    using assms(1) by (simp add: map_replicate_const)
  with old show ?thesis
    by (simp add: match_scan candidates_def add_view_lookup scan_views_append)
qed

theorem str_route_raises_witness:
  "match (add_view RestiPy
            \<lparr>route = RouteStr ''/users/(?P<id>[0-9]+)'', methods = [''get''],
             before_handler = pass_hook, handler = respond (text_response ''user''),
             after_handler = pass_after, on_exception = reraise\<rparr>)
     ''/users/42'' ''GET''
   = Inl (Exception ''AttributeError''
            (quoted ''str'' @ '' object has no attribute '' @ quoted ''match''))"
  using str_route_raises [of
      "\<lparr>route = RouteStr ''/users/(?P<id>[0-9]+)'', methods = [''get''],
        before_handler = pass_hook, handler = respond (text_response ''user''),
        after_handler = pass_after, on_exception = reraise\<rparr>"
      "''/users/(?P<id>[0-9]+)''" "''get''" RestiPy "''/users/42''"]
  by (simp add: string_eval str_has_no_match_def)

text \<open>
  Registration keeps the table well formed: if every key of the table
  is upper case and no list is empty, the same holds after \<open>add_view\<close>.
\<close>

lemma add_view_wf [restipy_inv]:
  "wf_routes (routes self) \<Longrightarrow> wf_routes (routes (add_view self v))"
  by (simp add: add_view_def wf_fold_append_route)

text \<open>
  In a table that lists views honestly, lookup returns a view that declares
  the requested method, or, for \<^verbatim>\<open>HEAD\<close>, one that declares \<^verbatim>\<open>GET\<close>.
\<close>

lemma match_declared:
  assumes "listed (routes self)" and "match self p m = Inr (v, g)"
  shows "declares v m \<or> (m = ''HEAD'' \<and> declares v ''GET'')"
proof -
  from assms(2) have "v \<in> set (candidates self m)"
    by (simp add: match_Inr_sound)
  with assms(1) show ?thesis
    by (auto simp: candidates_def dest: listed_lookup split: if_splits)
qed

end
