(* ===== verification/Restipy_Middleware.thy ===== *)
theory Restipy_Middleware
  imports Restipy_App
begin

text \<open>
  The middleware registry of \<^verbatim>\<open>src/restipy/core/application.py\<close>:
  \<^verbatim>\<open>add_middleware\<close>, which appends the three hooks of a middleware to the
  three lists of the application, and the loops of \<^verbatim>\<open>process_request\<close> that
  walk those lists. A loop over before-hooks stops at the first hook that
  returns a response or raises; the loop over after-hooks stops only when a
  hook raises.

  The lemmas show that the three lists stay the images of one list of
  middleware (the abstract registry), that a loop over an appended list is
  the loop over the first part followed by the loop over the second,
  where a loop stops, and what the loop over after-hooks hands from hook to
  hook when none of them raises (\<open>thread_after\<close>, \<open>quiet\<close>).
\<close>

section \<open>Registration\<close>

definition add_middleware :: "restipy \<Rightarrow> middleware \<Rightarrow> restipy" where
  "add_middleware self mw =
     self\<lparr>before_route_m := before_route_m self @ [before_route mw],
          before_m := before_m self @ [m_before_handler mw],
          after_m := after_m self @ [m_after_handler mw]\<rparr>"

text \<open>The abstract registry: the middleware added so far, in order.\<close>

definition registry :: "restipy \<Rightarrow> middleware list \<Rightarrow> bool" where
  "registry self mws \<longleftrightarrow>
     before_route_m self = map before_route mws \<and>
     before_m self = map m_before_handler mws \<and>
     after_m self = map m_after_handler mws"

definition aligned :: "restipy \<Rightarrow> bool" where
  "aligned self \<longleftrightarrow>
     length (before_route_m self) = length (before_m self) \<and>
     length (before_m self) = length (after_m self)"

section \<open>The loops\<close>

text \<open>
  \<^verbatim>\<open>for middleware in hooks: out = middleware(req); if isinstance(out, Response): return out\<close>
\<close>

fun run_before :: "hook list \<Rightarrow> request \<Rightarrow> (exn, response, unit) flow \<times> request" where
  "run_before [] req = (Next (), req)"
| "run_before (mw # mws) req =
     (case mw req of
        (Inl e, req') \<Rightarrow> (Raise e, req')
      | (Inr (Resp r), req') \<Rightarrow> (Return r, req')
      | (Inr NonResp, req') \<Rightarrow> run_before mws req')"

text \<open>\<^verbatim>\<open>for middleware in self._after_m: middleware(req, out)\<close>\<close>

fun run_after :: "after_hook list \<Rightarrow> request \<Rightarrow> response \<Rightarrow> (exn + response) \<times> request" where
  "run_after [] req out = (Inr out, req)"
| "run_after (mw # mws) req out =
     (case mw req out of
        (Some e, req', out') \<Rightarrow> (Inl e, req')
      | (None, req', out') \<Rightarrow> run_after mws req' out')"

text \<open>
  The same loop without its exits: what the hooks leave when each runs on
  what the one before it left, and whether none of them raises.
\<close>

fun thread_after :: "after_hook list \<Rightarrow> request \<Rightarrow> response \<Rightarrow> request \<times> response" where
  "thread_after [] req out = (req, out)"
| "thread_after (mw # mws) req out =
     (case mw req out of (e, req', out') \<Rightarrow> thread_after mws req' out')"

fun quiet :: "after_hook list \<Rightarrow> request \<Rightarrow> response \<Rightarrow> bool" where
  "quiet [] req out = True"
| "quiet (mw # mws) req out =
     (case mw req out of (None, req', out') \<Rightarrow> quiet mws req' out' | (Some e, req', out') \<Rightarrow> False)"

lemmas middleware_defs [restipy_defs] = add_middleware_def registry_def aligned_def

section \<open>Facts about registration\<close>

lemma add_middleware_fields [simp]:
  "before_route_m (add_middleware self mw) = before_route_m self @ [before_route mw]"
  "before_m (add_middleware self mw) = before_m self @ [m_before_handler mw]"
  "after_m (add_middleware self mw) = after_m self @ [m_after_handler mw]"
  "routes (add_middleware self mw) = routes self"
  "config (add_middleware self mw) = config self"
  by (simp_all add: add_middleware_def)

lemma registry_init [simp]: "registry RestiPy []"
  by (simp add: registry_def)

lemma registry_aligned: "registry self mws \<Longrightarrow> aligned self"
  by (simp add: registry_def aligned_def)

lemma aligned_add_middleware [restipy_inv]:
  "aligned self \<Longrightarrow> aligned (add_middleware self mw)"
  by (simp add: aligned_def)

section \<open>Facts about the loops\<close>

lemma run_before_Cons_pass [restipy_branch]:
  "mw req = (Inr NonResp, req') \<Longrightarrow> run_before (mw # mws) req = run_before mws req'"
  by simp

lemma run_before_Cons_resp [restipy_branch]:
  "mw req = (Inr (Resp r), req') \<Longrightarrow> run_before (mw # mws) req = (Return r, req')"
  by simp

lemma run_before_Cons_raise [restipy_branch]:
  "mw req = (Inl e, req') \<Longrightarrow> run_before (mw # mws) req = (Raise e, req')"
  by simp

lemma run_before_pass_hook: "run_before (pass_hook # mws) req = run_before mws req"
  by (simp add: pass_hook_def)

lemma run_before_respond: "run_before (respond r # mws) req = (Return r, req)"
  by (simp add: respond_def)

lemma run_before_raising: "run_before (raising e # mws) req = (Raise e, req)"
  by (simp add: raising_def)

lemma run_after_pass_after: "run_after (pass_after # mws) req out = run_after mws req out"
  by (simp add: pass_after_def)

lemma run_before_append:
  "run_before (xs @ ys) req =
     (case run_before xs req of
        (Next u, req') \<Rightarrow> run_before ys req'
      | (Return r, req') \<Rightarrow> (Return r, req')
      | (Raise e, req') \<Rightarrow> (Raise e, req'))"
  by (induction xs arbitrary: req) (auto split: prod.splits sum.splits retval.splits)

lemma run_after_append:
  "run_after (xs @ ys) req out =
     (case run_after xs req out of
        (Inr out', req') \<Rightarrow> run_after ys req' out'
      | (Inl e, req') \<Rightarrow> (Inl e, req'))"
  by (induction xs arbitrary: req out) (auto split: prod.splits option.splits sum.splits)

section \<open>Properties\<close>

text \<open>
  The three hook lists stay correlated: if the lists of the application
  are the before-route, before-handler and after-handler hooks of the
  middleware \<open>mws\<close>, in that order, then after \<open>add_middleware\<close> they are
  those of \<open>mws\<close> followed by the new middleware; routes and configuration
  are untouched.
\<close>

lemma add_middleware_registry:
  assumes "registry self mws"
  shows "registry (add_middleware self mw) (mws @ [mw])
    \<and> routes (add_middleware self mw) = routes self
    \<and> config (add_middleware self mw) = config self"
  using assms by (simp add: registry_def)

text \<open>
  Hooks run in registration order and the first response wins: when
  the hooks registered before \<open>mw\<close> all return something that is not a
  response, and \<open>mw\<close> returns the response \<open>r\<close>, the loop returns \<open>r\<close> with
  the request as \<open>mw\<close> left it, whatever hooks are registered after \<open>mw\<close>.
\<close>

lemma run_before_stops_at:
  assumes "run_before pre req = (Next (), req1)" and "mw req1 = (Inr (Resp r), req2)"
  shows "run_before (pre @ mw # post) req = (Return r, req2)"
  using assms by (simp add: run_before_append)

text \<open>
  After-hooks never short-circuit: when no hook raises, every hook runs, in
  order, each on the request and the response the one before it left.
\<close>

lemma run_after_quiet:
  "quiet mws req out \<Longrightarrow>
     run_after mws req out = (Inr (snd (thread_after mws req out)), fst (thread_after mws req out))"
  by (induction mws arbitrary: req out) (auto split: prod.splits option.splits)

lemma run_after_Inr_quiet: "run_after mws req out = (Inr out', req') \<Longrightarrow> quiet mws req out"
  by (induction mws arbitrary: req out) (auto split: prod.splits option.splits)

end
