(* ===== verification/Restipy_View.thy ===== *)
theory Restipy_View
  imports Restipy_App
begin

text \<open>
  The view stage of \<^verbatim>\<open>process_request\<close> in
  \<^verbatim>\<open>src/restipy/core/application.py\<close>: the inner \<^verbatim>\<open>try\<close> block, which calls the
  hooks \<^verbatim>\<open>before_handler\<close>, \<^verbatim>\<open>handler\<close> and \<^verbatim>\<open>after_handler\<close> of the matched
  view, and its \<^verbatim>\<open>except RestiPyException\<close> clause, which calls
  \<^verbatim>\<open>on_exception\<close>.

  The stage ends in one of three ways: \<open>Return r\<close> when \<^verbatim>\<open>process_request\<close>
  returns \<open>r\<close> at once (a response from \<^verbatim>\<open>before_handler\<close> or from
  \<^verbatim>\<open>on_exception\<close>), \<open>Next out\<close> when the block falls through to the
  after-handler middleware with the handler's response, \<open>Raise e\<close> when an
  exception leaves the stage.

  The same stage is given a second time as a state machine, an inductive
  step relation over the states \<open>BEFORE\<close>, \<open>HANDLER\<close>, \<open>AFTER\<close>,
  \<open>ON_EXCEPTION\<close> and \<open>DONE\<close>; the lemmas show that the relation is
  deterministic, never stuck before \<open>DONE\<close>, that its runs from
  \<open>BEFORE\<close> end exactly where the function says, and that no run is
  infinite: every step lowers the rank of the state, and every run ends in
  the one final state the step function reaches.
\<close>

section \<open>The try block and its handler\<close>

definition handler_contract_error :: exn where
  "handler_contract_error =
     RestiPyException ''Route handler must return a Response object.'' None"

definition exception_contract_error :: "exn \<Rightarrow> exn" where
  "exception_contract_error e =
     RestiPyException ''Route exception must return Response object.'' (Some e)"

text \<open>The body of the inner \<^verbatim>\<open>try\<close>.\<close>

definition view_try :: "view \<Rightarrow> request \<Rightarrow> (exn, response, response) flow \<times> request" where
  "view_try v req =
     (case before_handler v req of
        (Inl e, req1) \<Rightarrow> (Raise e, req1)
      | (Inr (Resp r), req1) \<Rightarrow> (Return r, req1)
      | (Inr NonResp, req1) \<Rightarrow>
          (case handler v req1 of
             (Inl e, req2) \<Rightarrow> (Raise e, req2)
           | (Inr NonResp, req2) \<Rightarrow> (Raise handler_contract_error, req2)
           | (Inr (Resp out), req2) \<Rightarrow>
               (case after_handler v req2 out of
                  (Some e, req3, out') \<Rightarrow> (Raise e, req3)
                | (None, req3, out') \<Rightarrow> (Next out', req3))))"

text \<open>The clause \<^verbatim>\<open>except RestiPyException as e\<close>.\<close>

definition view_except :: "view \<Rightarrow> exn \<Rightarrow> request \<Rightarrow> (exn, response, response) flow \<times> request" where
  "view_except v e req =
     (case on_exception v req e of
        (Inl e', req1) \<Rightarrow> (Raise e', req1)
      | (Inr NonResp, req1) \<Rightarrow> (Raise (exception_contract_error e), req1)
      | (Inr (Resp out), req1) \<Rightarrow> (Return out, req1))"

text \<open>An exception raised in the \<^verbatim>\<open>try\<close> block: caught if it is an application error.\<close>

definition view_catch :: "view \<Rightarrow> exn \<Rightarrow> request \<Rightarrow> (exn, response, response) flow \<times> request" where
  "view_catch v e req = (if is_RestiPyException e then view_except v e req else (Raise e, req))"

definition view_lifecycle :: "view \<Rightarrow> request \<Rightarrow> (exn, response, response) flow \<times> request" where
  "view_lifecycle v req =
     (case view_try v req of
        (Raise e, req') \<Rightarrow> view_catch v e req'
      | (Return r, req') \<Rightarrow> (Return r, req')
      | (Next out, req') \<Rightarrow> (Next out, req'))"

lemmas view_defs [restipy_defs] =
  handler_contract_error_def exception_contract_error_def view_try_def view_except_def
  view_catch_def view_lifecycle_def

section \<open>One equation per branch\<close>

lemma view_catch_app [simp]:
  "view_catch v (RestiPyException msg cause) req = view_except v (RestiPyException msg cause) req"
  by (simp add: view_catch_def)

lemma view_catch_other [simp]:
  "view_catch v (HTTPException h) req = (Raise (HTTPException h), req)"
  "view_catch v (Exception cls msg) req = (Raise (Exception cls msg), req)"
  by (simp_all add: view_catch_def)

lemma view_catch_contract [simp]:
  "view_catch v handler_contract_error req = view_except v handler_contract_error req"
  by (simp add: handler_contract_error_def)

lemma lifecycle_before_resp [restipy_branch]:
  "before_handler v req = (Inr (Resp r), req1) \<Longrightarrow> view_lifecycle v req = (Return r, req1)"
  by (simp add: view_lifecycle_def view_try_def)

lemma lifecycle_before_raise [restipy_branch]:
  "before_handler v req = (Inl e, req1) \<Longrightarrow> view_lifecycle v req = view_catch v e req1"
  by (simp add: view_lifecycle_def view_try_def)

lemma lifecycle_handler_raise [restipy_branch]:
  "before_handler v req = (Inr NonResp, req1) \<Longrightarrow> handler v req1 = (Inl e, req2) \<Longrightarrow>
     view_lifecycle v req = view_catch v e req2"
  by (simp add: view_lifecycle_def view_try_def)

lemma lifecycle_handler_nonresp [restipy_branch]:
  "before_handler v req = (Inr NonResp, req1) \<Longrightarrow> handler v req1 = (Inr NonResp, req2) \<Longrightarrow>
     view_lifecycle v req = view_except v handler_contract_error req2"
  by (simp add: view_lifecycle_def view_try_def)

lemma lifecycle_after_ok [restipy_branch]:
  "before_handler v req = (Inr NonResp, req1) \<Longrightarrow> handler v req1 = (Inr (Resp out), req2) \<Longrightarrow>
   after_handler v req2 out = (None, req3, out') \<Longrightarrow>
     view_lifecycle v req = (Next out', req3)"
  by (simp add: view_lifecycle_def view_try_def)

lemma lifecycle_after_raise [restipy_branch]:
  "before_handler v req = (Inr NonResp, req1) \<Longrightarrow> handler v req1 = (Inr (Resp out), req2) \<Longrightarrow>
   after_handler v req2 out = (Some e, req3, out') \<Longrightarrow>
     view_lifecycle v req = view_catch v e req3"
  by (simp add: view_lifecycle_def view_try_def)

lemma except_resp [restipy_branch]:
  "on_exception v req e = (Inr (Resp out), req1) \<Longrightarrow> view_except v e req = (Return out, req1)"
  by (simp add: view_except_def)

lemma except_nonresp [restipy_branch]:
  "on_exception v req e = (Inr NonResp, req1) \<Longrightarrow>
     view_except v e req = (Raise (exception_contract_error e), req1)"
  by (simp add: view_except_def)

lemma except_raise [restipy_branch]:
  "on_exception v req e = (Inl e', req1) \<Longrightarrow> view_except v e req = (Raise e', req1)"
  by (simp add: view_except_def)

lemma view_except_not_Next: "fst (view_except v e req) \<noteq> Next out"
  by (simp add: view_except_def split: prod.splits sum.splits retval.splits)

lemma demo_view_lifecycle [simp]:
  "view_lifecycle (demo_view pat ms s) req = (Next (text_response s), req)"
  by (simp add: view_lifecycle_def view_try_def hook_defs)

section \<open>Properties of the stage\<close>

text \<open>
  C8. A handler that does not return a response is handed to
  \<^verbatim>\<open>on_exception\<close>: the error the framework raises for it is raised inside
  the \<^verbatim>\<open>try\<close> block and is an application error, so when \<^verbatim>\<open>before_handler\<close>
  passes and the handler returns something that is not a response, the
  stage calls \<^verbatim>\<open>on_exception\<close> with that error, and a response returned by
  \<^verbatim>\<open>on_exception\<close> is what the stage returns.
\<close>

theorem handler_nonresponse_recovered:
  assumes "before_handler v req = (Inr NonResp, req1)"
    and "handler v req1 = (Inr NonResp, req2)"
    and "on_exception v req2 handler_contract_error = (Inr (Resp r), req3)"
  shows "view_lifecycle v req = (Return r, req3)"
  using assms by (simp add: lifecycle_handler_nonresp except_resp)

theorem handler_nonresponse_recovered_witness:
  "view_lifecycle
     \<lparr>route = RoutePattern (prefix_pattern ''/''), methods = [''GET''],
      before_handler = pass_hook, handler = pass_hook, after_handler = pass_after,
      on_exception = (\<lambda>req e. (Inr (Resp (text_response (exn_str e))), req))\<rparr>
     bare_request
   = (Return (text_response ''Route handler must return a Response object.''),
      bare_request)"
  using handler_nonresponse_recovered [of
      "\<lparr>route = RoutePattern (prefix_pattern ''/''), methods = [''GET''],
        before_handler = pass_hook, handler = pass_hook, after_handler = pass_after,
        on_exception = (\<lambda>req e. (Inr (Resp (text_response (exn_str e))), req))\<rparr>"
      bare_request
      bare_request
      bare_request
      "text_response ''Route handler must return a Response object.''"
      bare_request]
  by (simp add: hook_defs handler_contract_error_def)

text \<open>
  C9. Transport errors bypass \<^verbatim>\<open>on_exception\<close>: when \<^verbatim>\<open>before_handler\<close> passes
  and the handler raises an exception that is not an application error, the
  exception leaves the stage as it is, with the request as the handler left
  it, whatever \<^verbatim>\<open>on_exception\<close> would do.
\<close>

theorem other_exception_propagates:
  assumes "before_handler v req = (Inr NonResp, req1)"
    and "handler v req1 = (Inl e, req2)"
    and "\<not> is_RestiPyException e"
  shows "view_lifecycle v req = (Raise e, req2)"
  using assms by (simp add: lifecycle_handler_raise view_catch_def)

theorem other_exception_propagates_witness:
  "view_lifecycle
     \<lparr>route = RoutePattern (prefix_pattern ''/''), methods = [''GET''],
      before_handler = pass_hook,
      handler = raising (HTTPException \<lparr>message = ''Nope.'', status_code = 403,
                                          code = ''FORBIDDEN'', e_headers = []\<rparr>),
      after_handler = pass_after,
      on_exception = (\<lambda>req e. (Inr (Resp (text_response ''handled'')), req))\<rparr>
     bare_request
   = (Raise (HTTPException \<lparr>message = ''Nope.'', status_code = 403,
                             code = ''FORBIDDEN'', e_headers = []\<rparr>),
      bare_request)"
  using other_exception_propagates [of
      "\<lparr>route = RoutePattern (prefix_pattern ''/''), methods = [''GET''],
        before_handler = pass_hook,
        handler = raising (HTTPException \<lparr>message = ''Nope.'', status_code = 403,
                                            code = ''FORBIDDEN'', e_headers = []\<rparr>),
        after_handler = pass_after,
        on_exception = (\<lambda>req e. (Inr (Resp (text_response ''handled'')), req))\<rparr>"
      bare_request
      bare_request
      "HTTPException \<lparr>message = ''Nope.'', status_code = 403,
                       code = ''FORBIDDEN'', e_headers = []\<rparr>"
      bare_request]
  by (simp add: hook_defs)

text \<open>
  The contract of \<^verbatim>\<open>on_exception\<close>: when it returns something that is
  not a response, the stage raises a second application error whose cause
  is the error that was being handled; nothing is returned.
\<close>

lemma exception_hook_contract:
  assumes "on_exception v req e = (Inr NonResp, req1)"
  shows "view_except v e req =
           (Raise (RestiPyException ''Route exception must return Response object.'' (Some e)), req1)"
  using assms by (simp add: except_nonresp exception_contract_error_def)

section \<open>The stage as a state machine\<close>

text \<open>
  The states of the stage: about to call \<^verbatim>\<open>before_handler\<close>, about to call
  \<^verbatim>\<open>handler\<close>, about to call \<^verbatim>\<open>after_handler\<close> with the handler's
  response, about to call \<^verbatim>\<open>on_exception\<close> with the error caught, and done
  with the way the stage ended.
\<close>

datatype vstate =
    BEFORE request
  | HANDLER request
  | AFTER request response
  | ON_EXCEPTION request exn
  | DONE "(exn, response, response) flow" request

fun is_DONE :: "vstate \<Rightarrow> bool" where
  "is_DONE (DONE f req) = True"
| "is_DONE s = False"

text \<open>
  One rule per way a hook call can end. An exception raised by a hook of the
  \<^verbatim>\<open>try\<close> block leads to \<open>ON_EXCEPTION\<close> when it is an application error and
  ends the stage otherwise.
\<close>

inductive vstep :: "view \<Rightarrow> vstate \<Rightarrow> vstate \<Rightarrow> bool" for v where
  before_short:
    "before_handler v req = (Inr (Resp r), req') \<Longrightarrow> vstep v (BEFORE req) (DONE (Return r) req')"
| before_pass:
    "before_handler v req = (Inr NonResp, req') \<Longrightarrow> vstep v (BEFORE req) (HANDLER req')"
| before_error:
    "before_handler v req = (Inl e, req') \<Longrightarrow> is_RestiPyException e \<Longrightarrow>
       vstep v (BEFORE req) (ON_EXCEPTION req' e)"
| before_fatal:
    "before_handler v req = (Inl e, req') \<Longrightarrow> \<not> is_RestiPyException e \<Longrightarrow>
       vstep v (BEFORE req) (DONE (Raise e) req')"
| handler_ok:
    "handler v req = (Inr (Resp out), req') \<Longrightarrow> vstep v (HANDLER req) (AFTER req' out)"
| handler_violation:
    "handler v req = (Inr NonResp, req') \<Longrightarrow>
       vstep v (HANDLER req) (ON_EXCEPTION req' handler_contract_error)"
| handler_error:
    "handler v req = (Inl e, req') \<Longrightarrow> is_RestiPyException e \<Longrightarrow>
       vstep v (HANDLER req) (ON_EXCEPTION req' e)"
| handler_fatal:
    "handler v req = (Inl e, req') \<Longrightarrow> \<not> is_RestiPyException e \<Longrightarrow>
       vstep v (HANDLER req) (DONE (Raise e) req')"
| after_ok:
    "after_handler v req out = (None, req', out') \<Longrightarrow>
       vstep v (AFTER req out) (DONE (Next out') req')"
| after_error:
    "after_handler v req out = (Some e, req', out') \<Longrightarrow> is_RestiPyException e \<Longrightarrow>
       vstep v (AFTER req out) (ON_EXCEPTION req' e)"
| after_fatal:
    "after_handler v req out = (Some e, req', out') \<Longrightarrow> \<not> is_RestiPyException e \<Longrightarrow>
       vstep v (AFTER req out) (DONE (Raise e) req')"
| exc_ok:
    "on_exception v req e = (Inr (Resp out), req') \<Longrightarrow>
       vstep v (ON_EXCEPTION req e) (DONE (Return out) req')"
| exc_violation:
    "on_exception v req e = (Inr NonResp, req') \<Longrightarrow>
       vstep v (ON_EXCEPTION req e) (DONE (Raise (exception_contract_error e)) req')"
| exc_raise:
    "on_exception v req e = (Inl e', req') \<Longrightarrow>
       vstep v (ON_EXCEPTION req e) (DONE (Raise e') req')"

inductive_cases vstep_BEFORE: "vstep v (BEFORE req) t"
inductive_cases vstep_HANDLER: "vstep v (HANDLER req) t"
inductive_cases vstep_AFTER: "vstep v (AFTER req out) t"
inductive_cases vstep_ON_EXCEPTION: "vstep v (ON_EXCEPTION req e) t"
inductive_cases vstep_DONE: "vstep v (DONE f req) t"

lemmas vstep_elims = vstep_BEFORE vstep_HANDLER vstep_AFTER vstep_ON_EXCEPTION vstep_DONE

text \<open>The step function of the machine; \<open>DONE\<close> is where it stays.\<close>

definition enter_catch :: "exn \<Rightarrow> request \<Rightarrow> vstate" where
  "enter_catch e req =
     (if is_RestiPyException e then ON_EXCEPTION req e else DONE (Raise e) req)"

fun vnext :: "view \<Rightarrow> vstate \<Rightarrow> vstate" where
  "vnext v (BEFORE req) =
     (case before_handler v req of
        (Inl e, req') \<Rightarrow> enter_catch e req'
      | (Inr (Resp r), req') \<Rightarrow> DONE (Return r) req'
      | (Inr NonResp, req') \<Rightarrow> HANDLER req')"
| "vnext v (HANDLER req) =
     (case handler v req of
        (Inl e, req') \<Rightarrow> enter_catch e req'
      | (Inr NonResp, req') \<Rightarrow> ON_EXCEPTION req' handler_contract_error
      | (Inr (Resp out), req') \<Rightarrow> AFTER req' out)"
| "vnext v (AFTER req out) =
     (case after_handler v req out of
        (Some e, req', out') \<Rightarrow> enter_catch e req'
      | (None, req', out') \<Rightarrow> DONE (Next out') req')"
| "vnext v (ON_EXCEPTION req e) =
     (case on_exception v req e of
        (Inl e', req') \<Rightarrow> DONE (Raise e') req'
      | (Inr NonResp, req') \<Rightarrow> DONE (Raise (exception_contract_error e)) req'
      | (Inr (Resp out), req') \<Rightarrow> DONE (Return out) req')"
| "vnext v (DONE f req) = DONE f req"

text \<open>How many hook calls a state is away from \<open>DONE\<close>, at most.\<close>

fun rank :: "vstate \<Rightarrow> nat" where
  "rank (BEFORE req) = 4"
| "rank (HANDLER req) = 3"
| "rank (AFTER req out) = 2"
| "rank (ON_EXCEPTION req e) = 1"
| "rank (DONE f req) = 0"

lemma rank_enter_catch: "rank (enter_catch e req) \<le> 1"
  by (simp add: enter_catch_def)

lemma rank_0_iff [simp]: "rank s = 0 \<longleftrightarrow> is_DONE s"
  by (cases s) simp_all

lemma vstep_iff: "vstep v s t \<longleftrightarrow> \<not> is_DONE s \<and> t = vnext v s"
proof
  assume "vstep v s t"
  then show "\<not> is_DONE s \<and> t = vnext v s"
    by cases (simp_all add: enter_catch_def)
next
  assume "\<not> is_DONE s \<and> t = vnext v s"
  then show "vstep v s t"
    by (cases s)
       (auto simp: enter_catch_def intro: vstep.intros
             split: prod.splits sum.splits retval.splits option.splits)
qed

lemma vstep_deterministic: "vstep v s t \<Longrightarrow> vstep v s t' \<Longrightarrow> t = t'"
  by (simp add: vstep_iff)

lemma vstep_progress: "\<not> is_DONE s \<Longrightarrow> \<exists>t. vstep v s t"
  by (simp add: vstep_iff)

lemma vnext_rank: "\<not> is_DONE s \<Longrightarrow> rank (vnext v s) < rank s"
  by (cases s)
     (auto simp: enter_catch_def split: prod.splits sum.splits retval.splits option.splits)

lemma vstep_rank: "vstep v s t \<Longrightarrow> rank t < rank s"
  by (simp add: vstep_iff vnext_rank)

lemma vnext_DONE_iff [simp]: "is_DONE s \<Longrightarrow> vnext v s = s"
  by (cases s) simp_all

lemma funpow_vnext_DONE [simp]: "(vnext v ^^ n) (DONE f req) = DONE f req"
  by (induction n) simp_all

section \<open>Runs of the machine\<close>

lemma funpow_vnext_fixed: "is_DONE s \<Longrightarrow> (vnext v ^^ n) s = s"
  by (cases s) simp_all

lemma vsteps_funpow: "(vstep v)\<^sup>*\<^sup>* s ((vnext v ^^ n) s)"
proof (induction n)
  case 0
  then show ?case by simp
next
  case (Suc n)
  show ?case
  proof (cases "is_DONE ((vnext v ^^ n) s)")
    case True
    with Suc show ?thesis by simp
  next
    case False
    then have "vstep v ((vnext v ^^ n) s) ((vnext v ^^ Suc n) s)"
      by (simp add: vstep_iff)
    with Suc show ?thesis by (rule rtranclp.rtrancl_into_rtrancl)
  qed
qed

lemma vsteps_is_funpow: "(vstep v)\<^sup>*\<^sup>* s t \<Longrightarrow> \<exists>n. t = (vnext v ^^ n) s"
proof (induction rule: rtranclp_induct)
  case base
  have "s = (vnext v ^^ 0) s" by simp
  then show ?case ..
next
  case (step t u)
  then obtain n where "t = (vnext v ^^ n) s" by blast
  with step.hyps(2) have "u = (vnext v ^^ Suc n) s"
    by (simp add: vstep_iff)
  then show ?case ..
qed

lemma funpow_reaches_DONE: "rank s \<le> n \<Longrightarrow> is_DONE ((vnext v ^^ n) s)"
proof (induction n arbitrary: s)
  case 0
  then show ?case by simp
next
  case (Suc n)
  have "rank (vnext v s) \<le> n"
  proof (cases "is_DONE s")
    case True
    then have "rank (vnext v s) = 0" by simp
    then show ?thesis by linarith
  next
    case False
    from vnext_rank [OF this, of v] Suc.prems show ?thesis by simp
  qed
  then have "is_DONE ((vnext v ^^ n) (vnext v s))" by (rule Suc.IH)
  then show ?case by (simp add: funpow_swap1)
qed

lemma funpow_split: "m \<le> n \<Longrightarrow> (f ^^ n) x = (f ^^ (n - m)) ((f ^^ m) x)"
  using funpow_add [of "n - m" m f] by (simp add: fun_eq_iff)

lemma vsteps_DONE_funpow:
  assumes "(vstep v)\<^sup>*\<^sup>* s (DONE f r)" and "rank s \<le> n"
  shows "(vnext v ^^ n) s = DONE f r"
proof -
  from assms(1) obtain m where m: "(vnext v ^^ m) s = DONE f r"
    using vsteps_is_funpow by metis
  show ?thesis
  proof (cases "m \<le> n")
    case True
    then show ?thesis by (simp add: funpow_split [of m n] m)
  next
    case False
    then have "(vnext v ^^ m) s = (vnext v ^^ (m - n)) ((vnext v ^^ n) s)"
      by (simp add: funpow_split [of n m])
    also have "\<dots> = (vnext v ^^ n) s"
      using funpow_reaches_DONE [OF assms(2)] by (rule funpow_vnext_fixed)
    finally show ?thesis using m by simp
  qed
qed

section \<open>The stage, hook by hook\<close>

text \<open>
  The stage written as one function per state: what the stage yields from
  the call of \<^verbatim>\<open>after_handler\<close> on, from the call of \<^verbatim>\<open>handler\<close> on, and from
  the start. The last is \<open>view_lifecycle\<close>.
\<close>

definition from_after :: "view \<Rightarrow> request \<Rightarrow> response \<Rightarrow> (exn, response, response) flow \<times> request" where
  "from_after v req out =
     (case after_handler v req out of
        (Some e, req', out') \<Rightarrow> view_catch v e req'
      | (None, req', out') \<Rightarrow> (Next out', req'))"

definition from_handler :: "view \<Rightarrow> request \<Rightarrow> (exn, response, response) flow \<times> request" where
  "from_handler v req =
     (case handler v req of
        (Inl e, req') \<Rightarrow> view_catch v e req'
      | (Inr NonResp, req') \<Rightarrow> view_except v handler_contract_error req'
      | (Inr (Resp out), req') \<Rightarrow> from_after v req' out)"

definition from_before :: "view \<Rightarrow> request \<Rightarrow> (exn, response, response) flow \<times> request" where
  "from_before v req =
     (case before_handler v req of
        (Inl e, req') \<Rightarrow> view_catch v e req'
      | (Inr (Resp r), req') \<Rightarrow> (Return r, req')
      | (Inr NonResp, req') \<Rightarrow> from_handler v req')"

definition done_of :: "(exn, response, response) flow \<times> request \<Rightarrow> vstate" where
  "done_of fr = DONE (fst fr) (snd fr)"

lemma view_lifecycle_from_before: "view_lifecycle v req = from_before v req"
proof (cases "before_handler v req")
  case (Pair b req1)
  show ?thesis
  proof (cases b)
    case (Inl e)
    with Pair show ?thesis
      by (simp add: from_before_def lifecycle_before_raise)
  next
    case (Inr rv)
    show ?thesis
    proof (cases rv)
      case (Resp r)
      with Pair Inr show ?thesis
        by (simp add: from_before_def lifecycle_before_resp)
    next
      case NonResp
      with Pair Inr have b: "before_handler v req = (Inr NonResp, req1)" by simp
      then have "view_lifecycle v req = from_handler v req1"
        by (auto simp: from_handler_def from_after_def lifecycle_handler_raise
            lifecycle_handler_nonresp lifecycle_after_ok lifecycle_after_raise
            split: prod.splits sum.splits retval.splits option.splits)
      with b show ?thesis by (simp add: from_before_def)
    qed
  qed
qed

lemma settle_catch: "(vnext v ^^ Suc n) (enter_catch e req) = done_of (view_catch v e req)"
  by (simp add: funpow_swap1 enter_catch_def view_catch_def view_except_def done_of_def
      split: prod.splits sum.splits retval.splits)

lemma settle_exception:
  "(vnext v ^^ Suc n) (ON_EXCEPTION req e) = done_of (view_except v e req)"
  by (simp add: funpow_swap1 view_except_def done_of_def
      split: prod.splits sum.splits retval.splits)

lemma settle_after:
  "(vnext v ^^ Suc (Suc n)) (AFTER req out) = done_of (from_after v req out)"
proof -
  have "(vnext v ^^ Suc (Suc n)) (AFTER req out) = (vnext v ^^ Suc n) (vnext v (AFTER req out))"
    by (simp add: funpow_swap1 del: vnext.simps)
  also have "\<dots> = done_of (from_after v req out)"
    by (cases "after_handler v req out" rule: prod_cases3)
       (auto simp: from_after_def settle_catch done_of_def simp del: funpow.simps
             split: option.splits)
  finally show ?thesis .
qed

lemma settle_handler:
  "(vnext v ^^ Suc (Suc (Suc n))) (HANDLER req) = done_of (from_handler v req)"
proof -
  have "(vnext v ^^ Suc (Suc (Suc n))) (HANDLER req)
      = (vnext v ^^ Suc (Suc n)) (vnext v (HANDLER req))"
    by (simp add: funpow_swap1 del: vnext.simps)
  also have "\<dots> = done_of (from_handler v req)"
    by (cases "handler v req")
       (auto simp: from_handler_def settle_catch settle_exception settle_after
             simp del: funpow.simps split: sum.splits retval.splits)
  finally show ?thesis .
qed

lemma settle_before:
  "(vnext v ^^ Suc (Suc (Suc (Suc n)))) (BEFORE req) = done_of (from_before v req)"
proof -
  have "(vnext v ^^ Suc (Suc (Suc (Suc n)))) (BEFORE req)
      = (vnext v ^^ Suc (Suc (Suc n))) (vnext v (BEFORE req))"
    by (simp add: funpow_swap1 del: vnext.simps)
  also have "\<dots> = done_of (from_before v req)"
    by (cases "before_handler v req")
       (auto simp: from_before_def settle_catch settle_handler done_of_def
             simp del: funpow.simps split: sum.splits retval.splits)
  finally show ?thesis .
qed

lemma lifecycle_settles: "(vnext v ^^ 4) (BEFORE req) = done_of (view_lifecycle v req)"
proof -
  have "(4::nat) = Suc (Suc (Suc (Suc 0)))" by simp
  then show ?thesis
    using settle_before [where n = 0] by (simp only: view_lifecycle_from_before)
qed

text \<open>
  C25. The function implements the state machine: a run of the step relation
  from \<open>BEFORE req\<close> ends in \<open>DONE f req'\<close> exactly when the stage, as the
  function computes it, ends in \<open>f\<close> with the request \<open>req'\<close>. In
  particular every run ends, and in one state only.
\<close>

theorem lifecycle_runs_machine:
  "(vstep v)\<^sup>*\<^sup>* (BEFORE req) (DONE f req') \<longleftrightarrow> view_lifecycle v req = (f, req')"
proof
  assume "(vstep v)\<^sup>*\<^sup>* (BEFORE req) (DONE f req')"
  then have "(vnext v ^^ 4) (BEFORE req) = DONE f req'"
    by (rule vsteps_DONE_funpow) simp
  then show "view_lifecycle v req = (f, req')"
    by (cases "view_lifecycle v req") (simp add: lifecycle_settles done_of_def)
next
  assume "view_lifecycle v req = (f, req')"
  then have "(vnext v ^^ 4) (BEFORE req) = DONE f req'"
    by (simp add: lifecycle_settles done_of_def)
  then show "(vstep v)\<^sup>*\<^sup>* (BEFORE req) (DONE f req')"
    using vsteps_funpow [of v "BEFORE req" 4] by simp
qed

section \<open>Every run ends\<close>

text \<open>No run of the machine is infinite: every step lowers the rank.\<close>

lemma vstep_wf: "wfp (\<lambda>t s. vstep v s t)"
  by (rule wfp_if_convertible_to_nat [where f = rank]) (rule vstep_rank)




end
