(* ===== verification/Restipy_Dispatcher.thy ===== *)
theory Restipy_Dispatcher
  imports Restipy_Routing Restipy_Middleware Restipy_View
begin

text \<open>
  \<^verbatim>\<open>RestiPy.process_request\<close> of \<^verbatim>\<open>src/restipy/core/application.py\<close>: the
  single entry point that binds the application into the environment, wraps
  the environment in a request, runs the pipeline inside one \<^verbatim>\<open>try\<close> block and
  turns what the block raises into a response.

  \<open>try_body\<close> is the \<^verbatim>\<open>try\<close> block: before-route middleware, route lookup,
  the captured parameters stored on the request, before-handler middleware,
  the view stage, after-handler middleware. It yields the response the
  block returns or the exception that leaves it, with the request as the
  hooks left it. \<open>process_request\<close> adds the two \<^verbatim>\<open>except\<close> clauses. An
  exception raised inside an \<^verbatim>\<open>except\<close> clause leaves \<^verbatim>\<open>process_request\<close>, so
  its outcome is an exception or a response.

  The text of a traceback depends on the Python run time; the model takes
  the formatter \<^verbatim>\<open>traceback.format_exc\<close> as a parameter, and every theorem
  holds for every formatter.
\<close>

section \<open>The pipeline\<close>

definition try_body :: "restipy \<Rightarrow> request \<Rightarrow> (exn + response) \<times> request" where
  "try_body self req =
     (case run_before (before_route_m self) req of
        (Return out, req1) \<Rightarrow> (Inr out, req1)
      | (Raise e, req1) \<Rightarrow> (Inl e, req1)
      | (Next u, req1) \<Rightarrow>
          (case match self (path req1) (request_method req1) of
             Inl e \<Rightarrow> (Inl e, req1)
           | Inr (v, ps) \<Rightarrow>
               (case run_before (before_m self) (set_params req1 ps) of
                  (Return out, req2) \<Rightarrow> (Inr out, req2)
                | (Raise e, req2) \<Rightarrow> (Inl e, req2)
                | (Next u, req2) \<Rightarrow>
                    (case view_lifecycle v req2 of
                       (Return out, req3) \<Rightarrow> (Inr out, req3)
                     | (Raise e, req3) \<Rightarrow> (Inl e, req3)
                     | (Next out, req3) \<Rightarrow> run_after (after_m self) req3 out))))"

section \<open>The error boundary\<close>

text \<open>
  What a call of \<^verbatim>\<open>process_request\<close> leaves behind: its outcome, the request
  (with the environment and its diagnostic stream) and what
  \<^verbatim>\<open>traceback.print_exc\<close> printed.
\<close>

record dispatch =
  outcome :: "exn + response"
  final_request :: request
  stderr :: "string list"

definition generic_body :: jvalue where
  "generic_body =
     JDict [(''code'', JStr ''INTERNAL_SERVER_ERROR''),
            (''error'', JStr ''Something went wrong, try again later.'')]"

definition debug_body :: "string \<Rightarrow> string \<Rightarrow> jvalue" where
  "debug_body msg stacktrace =
     JDict [(''code'', JStr ''INTERNAL_SERVER_ERROR''),
            (''error'', JStr msg),
            (''stacktrace'', JList (map JStr (splitlines stacktrace)))]"

definition no_config :: exn where
  "no_config =
     Exception ''AttributeError''
       (quoted ''RestiPy'' @ '' object has no attribute '' @ quoted ''config'')"

definition no_DEBUG :: exn where
  "no_DEBUG = Exception ''AttributeError'' (''module has no attribute '' @ quoted ''DEBUG'')"

text \<open>The clause \<^verbatim>\<open>except HTTPException as e\<close>.\<close>

definition http_error_response :: "http_exception \<Rightarrow> exn + response" where
  "http_error_response h = Response (exc_get_response h) (status_code h) (e_headers h)"

text \<open>The clause \<^verbatim>\<open>except Exception as e\<close>.\<close>

definition handle_exception :: "(exn \<Rightarrow> string) \<Rightarrow> restipy \<Rightarrow> exn \<Rightarrow> request \<Rightarrow> dispatch" where
  "handle_exception format_exc self e req =
     (let stacktrace = format_exc e
      in case wsgi_errors (env req) of
           None \<Rightarrow>
             \<lparr>outcome = Inl (KeyError ''wsgi.errors''), final_request = req,
              stderr = [stacktrace]\<rparr>
         | Some written \<Rightarrow>
             (let req' = req\<lparr>env := (env req)\<lparr>wsgi_errors := Some (written @ [stacktrace])\<rparr>\<rparr>;
                  out = (case config self of
                           None \<Rightarrow> Inl no_config
                         | Some cfg \<Rightarrow>
                             (case DEBUG cfg of
                                None \<Rightarrow> Inl no_DEBUG
                              | Some False \<Rightarrow> Response generic_body 500 []
                              | Some True \<Rightarrow>
                                  Response (debug_body (exn_str e) stacktrace) 500 []))
              in \<lparr>outcome = out, final_request = req', stderr = [stacktrace]\<rparr>))"

text \<open>The request \<^verbatim>\<open>process_request\<close> starts from.\<close>

definition initial_request :: "restipy \<Rightarrow> environ \<Rightarrow> request" where
  "initial_request self environ =
     Request (environ\<lparr>restipy_app := Some (config self)\<rparr>) Map.empty"

definition process_request :: "(exn \<Rightarrow> string) \<Rightarrow> restipy \<Rightarrow> environ \<Rightarrow> dispatch" where
  "process_request format_exc self environ =
     (case try_body self (initial_request self environ) of
        (Inr out, req) \<Rightarrow> \<lparr>outcome = Inr out, final_request = req, stderr = []\<rparr>
      | (Inl (HTTPException h), req) \<Rightarrow>
          \<lparr>outcome = http_error_response h, final_request = req, stderr = []\<rparr>
      | (Inl e, req) \<Rightarrow> handle_exception format_exc self e req)"

text \<open>
  When \<^verbatim>\<open>process_request\<close> can turn what the \<^verbatim>\<open>try\<close> block yields into a
  response: always for a response, for a transport error when its status is
  recognised, and for any other exception when the diagnostic stream is in
  the environment and the configuration defines \<^verbatim>\<open>DEBUG\<close>.
\<close>

fun recoverable :: "restipy \<Rightarrow> (exn + response) \<times> request \<Rightarrow> bool" where
  "recoverable self (Inr out, req) = True"
| "recoverable self (Inl (HTTPException h), req) = valid_status (status_code h)"
| "recoverable self (Inl e, req) =
     (wsgi_errors (env req) \<noteq> None \<and>
      (case config self of None \<Rightarrow> False | Some cfg \<Rightarrow> DEBUG cfg \<noteq> None))"

lemmas dispatcher_defs [restipy_defs] =
  try_body_def generic_body_def debug_body_def no_config_def no_DEBUG_def
  http_error_response_def handle_exception_def initial_request_def process_request_def

section \<open>One equation per branch\<close>

lemma process_request_ok [restipy_branch]:
  "try_body self (initial_request self environ) = (Inr out, req) \<Longrightarrow>
     process_request fmt self environ = \<lparr>outcome = Inr out, final_request = req, stderr = []\<rparr>"
  by (simp add: process_request_def)

lemma process_request_http [restipy_branch]:
  "try_body self (initial_request self environ) = (Inl (HTTPException h), req) \<Longrightarrow>
     process_request fmt self environ =
       \<lparr>outcome = http_error_response h, final_request = req, stderr = []\<rparr>"
  by (simp add: process_request_def)

lemma process_request_fault [restipy_branch]:
  "try_body self (initial_request self environ) = (Inl e, req) \<Longrightarrow> \<not> is_HTTPException e \<Longrightarrow>
     process_request fmt self environ = handle_exception fmt self e req"
  by (cases e) (simp_all add: process_request_def)

lemma try_body_before_route_return [restipy_branch]:
  "run_before (before_route_m self) req = (Return out, req1) \<Longrightarrow>
     try_body self req = (Inr out, req1)"
  by (simp add: try_body_def)

lemma try_body_before_route_raise [restipy_branch]:
  "run_before (before_route_m self) req = (Raise e, req1) \<Longrightarrow>
     try_body self req = (Inl e, req1)"
  by (simp add: try_body_def)

lemma try_body_no_match [restipy_branch]:
  "run_before (before_route_m self) req = (Next u, req1) \<Longrightarrow>
   match self (path req1) (request_method req1) = Inl e \<Longrightarrow>
     try_body self req = (Inl e, req1)"
  by (simp add: try_body_def)

lemma try_body_before_return [restipy_branch]:
  "run_before (before_route_m self) req = (Next u, req1) \<Longrightarrow>
   match self (path req1) (request_method req1) = Inr (v, ps) \<Longrightarrow>
   run_before (before_m self) (set_params req1 ps) = (Return out, req2) \<Longrightarrow>
     try_body self req = (Inr out, req2)"
  by (simp add: try_body_def)

lemma try_body_before_raise [restipy_branch]:
  "run_before (before_route_m self) req = (Next u, req1) \<Longrightarrow>
   match self (path req1) (request_method req1) = Inr (v, ps) \<Longrightarrow>
   run_before (before_m self) (set_params req1 ps) = (Raise e, req2) \<Longrightarrow>
     try_body self req = (Inl e, req2)"
  by (simp add: try_body_def)

lemma try_body_view [restipy_branch]:
  "run_before (before_route_m self) req = (Next u, req1) \<Longrightarrow>
   match self (path req1) (request_method req1) = Inr (v, ps) \<Longrightarrow>
   run_before (before_m self) (set_params req1 ps) = (Next u', req2) \<Longrightarrow>
     try_body self req =
       (case view_lifecycle v req2 of
          (Return out, req3) \<Rightarrow> (Inr out, req3)
        | (Raise e, req3) \<Rightarrow> (Inl e, req3)
        | (Next out, req3) \<Rightarrow> run_after (after_m self) req3 out)"
  by (simp add: try_body_def)

lemma http_error_response_valid:
  "valid_status (status_code h) \<Longrightarrow>
     http_error_response h =
       Inr \<lparr>body = exc_get_response h, status = status_code h,
            headers = dict_update default_headers (e_headers h)\<rparr>"
  by (simp add: http_error_response_def Response_valid)

lemma handle_exception_generic:
  assumes "wsgi_errors (env req) = Some written" and "config self = Some cfg"
    and "DEBUG cfg = Some False"
  shows "handle_exception fmt self e req =
    \<lparr>outcome = Inr \<lparr>body = generic_body, status = 500, headers = default_headers\<rparr>,
     final_request = req\<lparr>env := (env req)\<lparr>wsgi_errors := Some (written @ [fmt e])\<rparr>\<rparr>,
     stderr = [fmt e]\<rparr>"
  using assms by (simp add: handle_exception_def Let_def Response_valid)

lemma handle_exception_debug:
  assumes "wsgi_errors (env req) = Some written" and "config self = Some cfg"
    and "DEBUG cfg = Some True"
  shows "handle_exception fmt self e req =
    \<lparr>outcome = Inr \<lparr>body = debug_body (exn_str e) (fmt e), status = 500,
                    headers = default_headers\<rparr>,
     final_request = req\<lparr>env := (env req)\<lparr>wsgi_errors := Some (written @ [fmt e])\<rparr>\<rparr>,
     stderr = [fmt e]\<rparr>"
  using assms by (simp add: handle_exception_def Let_def Response_valid)

lemma handle_exception_responds:
  "(\<exists>r. outcome (handle_exception fmt self e req) = Inr r) \<longleftrightarrow>
     wsgi_errors (env req) \<noteq> None \<and>
     (case config self of None \<Rightarrow> False | Some cfg \<Rightarrow> DEBUG cfg \<noteq> None)"
  by (auto simp: handle_exception_def Let_def Response_valid split: option.splits bool.splits)

section \<open>A worked application\<close>

text \<open>
  An application with four views and one middleware, used to run the
  theorems below on concrete requests: \<^verbatim>\<open>/users/<id>\<close> answers with the
  captured id, \<^verbatim>\<open>/boom\<close> raises an exception with a secret in its message,
  \<^verbatim>\<open>/admin\<close> raises a transport error, \<^verbatim>\<open>/guard\<close> answers from
  \<^verbatim>\<open>before_handler\<close>; the middleware adds a header to the response after
  the handler.
\<close>

definition demo_settings :: "bool \<Rightarrow> settings" where
  "demo_settings dbg =
     \<lparr>DEBUG = Some dbg, MAX_BODY_SIZE = Some 1024, VIEWS = [], MIDDLEWARES = []\<rparr>"

definition demo_environ :: "string \<Rightarrow> string \<Rightarrow> environ" where
  "demo_environ m p =
     \<lparr>vars = [''REQUEST_METHOD'' \<mapsto> m, ''PATH_INFO'' \<mapsto> p], wsgi_input = Some [],
      wsgi_errors = Some [], restipy_app = None\<rparr>"

definition echo_id :: hook where
  "echo_id req =
     (Inr (Resp (text_response (case params req ''id'' of Some (Some s) \<Rightarrow> s | _ \<Rightarrow> ''?''))), req)"

definition users_view :: view where
  "users_view = (demo_view (capture_pattern ''/users/'' ''id'') [''get''] ''users'')\<lparr>handler := echo_id\<rparr>"

definition boom_view :: view where
  "boom_view =
     (demo_view (prefix_pattern ''/boom'') [''GET''] ''boom'')
       \<lparr>handler := raising (Exception ''ValueError'' ''secret'')\<rparr>"

definition forbidden :: http_exception where
  "forbidden = \<lparr>message = ''Keep out.'', status_code = 403, code = ''FORBIDDEN'',
                 e_headers = [(''x-reason'', ''acl'')]\<rparr>"

definition admin_view :: view where
  "admin_view =
     (demo_view (prefix_pattern ''/admin'') [''GET''] ''admin'')
       \<lparr>handler := raising (HTTPException forbidden)\<rparr>"

definition guard_view :: view where
  "guard_view =
     (demo_view (prefix_pattern ''/guard'') [''GET''] ''handler'')
       \<lparr>before_handler := respond (text_response ''guard'')\<rparr>"

definition stamp :: after_hook where
  "stamp req out = (None, req, out\<lparr>headers := headers out @ [(''x-after'', ''1'')]\<rparr>)"

definition stamping :: middleware where
  "stamping = \<lparr>before_route = pass_hook, m_before_handler = pass_hook, m_after_handler = stamp\<rparr>"

definition demo_app :: "bool \<Rightarrow> restipy" where
  "demo_app dbg =
     add_middleware
       (add_view (add_view (add_view (add_view (RestiPy\<lparr>config := Some (demo_settings dbg)\<rparr>)
          users_view) boom_view) admin_view) guard_view)
       stamping"

lemmas demo_defs =
  demo_settings_def demo_environ_def echo_id_def users_view_def boom_view_def
  forbidden_def admin_view_def guard_view_def stamp_def stamping_def demo_app_def

lemma demo_app_fields [simp]:
  "config (demo_app dbg) = Some (demo_settings dbg)"
  "before_route_m (demo_app dbg) = [pass_hook]"
  "before_m (demo_app dbg) = [pass_hook]"
  "after_m (demo_app dbg) = [stamp]"
  by (simp_all add: demo_app_def stamping_def)

lemma demo_app_GET [simp]:
  "get_or (routes (demo_app dbg)) ''GET'' [] = [users_view, boom_view, admin_view, guard_view]"
  by (simp add: demo_app_def add_view_lookup users_view_def boom_view_def admin_view_def
      guard_view_def string_eval)

lemma demo_app_POST [simp]: "get_or (routes (demo_app dbg)) ''POST'' [] = []"
  by (simp add: demo_app_def add_view_lookup users_view_def boom_view_def admin_view_def
      guard_view_def string_eval)

lemma demo_request [simp]:
  "path (initial_request self (demo_environ m p)) = p"
  "request_method (initial_request self (demo_environ m p)) = upper m"
  "wsgi_errors (env (initial_request self (demo_environ m p))) = Some []"
  by (simp_all add: initial_request_def demo_environ_def path_def request_method_def)

lemma demo_run_before [simp]: "run_before [pass_hook] req = (Next (), req)"
  by (simp add: pass_hook_def)

lemmas demo_eval =
  match_scan candidates_def fixture_defs hook_defs string_eval users_view_def boom_view_def
  admin_view_def guard_view_def echo_id_def stamp_def forbidden_def

section \<open>Properties of the dispatcher\<close>

text \<open>
  C1. When a call ends in a response: \<open>process_request\<close> returns a response
  exactly when the \<^verbatim>\<open>try\<close> block returned one, or raised a transport error
  with a recognised status, or raised another exception while the
  diagnostic stream is in the environment and the configuration defines
  \<^verbatim>\<open>DEBUG\<close>. In every other case an exception leaves \<open>process_request\<close>.
\<close>

theorem process_request_responds:
  "(\<exists>r. outcome (process_request fmt self environ) = Inr r) \<longleftrightarrow>
     recoverable self (try_body self (initial_request self environ))"
proof (cases "try_body self (initial_request self environ)")
  case (Pair res req)
  show ?thesis
  proof (cases res)
    case (Inr out)
    with Pair show ?thesis by (simp add: process_request_ok)
  next
    case (Inl e)
    show ?thesis
    proof (cases "is_HTTPException e")
      case True
      then obtain h where "e = HTTPException h" by (cases e) simp_all
      with Pair Inl show ?thesis
        by (auto simp: process_request_http http_error_response_def Response_Inr_iff)
    next
      case False
      with Pair Inl have "process_request fmt self environ = handle_exception fmt self e req"
        by (simp add: process_request_fault)
      with False Pair Inl show ?thesis
        using handle_exception_responds [of fmt self e req] by (cases e) simp_all
    qed
  qed
qed

theorem process_request_responds_witness:
  "(\<exists>r. outcome (process_request (\<lambda>e. ''trace'') (demo_app False) (demo_environ ''GET'' ''/boom''))
          = Inr r)
   \<and> (\<nexists>r. outcome (process_request (\<lambda>e. ''trace'')
                      (add_view RestiPy boom_view) (demo_environ ''GET'' ''/boom'')) = Inr r)"
  using process_request_responds [of "\<lambda>e. ''trace''" "demo_app False" "demo_environ ''GET'' ''/boom''"]
    process_request_responds [of "\<lambda>e. ''trace''" "add_view RestiPy boom_view"
      "demo_environ ''GET'' ''/boom''"]
  by (simp add: try_body_def view_lifecycle_def view_try_def view_catch_def demo_eval
      add_view_lookup demo_settings_def)

text \<open>
  C2. No detail leaks without debug: when the \<^verbatim>\<open>try\<close> block raises an
  exception that is not a transport error and the configuration has
  \<^verbatim>\<open>DEBUG = False\<close>, the response is the fixed body with code
  \<^verbatim>\<open>INTERNAL_SERVER_ERROR\<close> and status 500, the same for every exception and
  every traceback; the traceback goes to the diagnostic stream only.
\<close>

theorem internal_fault_no_leak:
  assumes "try_body self (initial_request self environ) = (Inl e, req)"
    and "\<not> is_HTTPException e"
    and "wsgi_errors (env req) = Some written"
    and "config self = Some cfg" and "DEBUG cfg = Some False"
  shows "outcome (process_request fmt self environ) =
           Inr \<lparr>body = JDict [(''code'', JStr ''INTERNAL_SERVER_ERROR''),
                              (''error'', JStr ''Something went wrong, try again later.'')],
                status = 500, headers = default_headers\<rparr>
       \<and> wsgi_errors (env (final_request (process_request fmt self environ))) =
           Some (written @ [fmt e])"
  using assms
  by (simp add: process_request_fault handle_exception_generic generic_body_def)

theorem internal_fault_no_leak_witness:
  "outcome (process_request (\<lambda>e. ''Traceback: '' @ exn_str e) (demo_app False)
      (demo_environ ''GET'' ''/boom'')) =
     Inr \<lparr>body = JDict [(''code'', JStr ''INTERNAL_SERVER_ERROR''),
                        (''error'', JStr ''Something went wrong, try again later.'')],
          status = 500, headers = default_headers\<rparr>
   \<and> wsgi_errors (env (final_request (process_request (\<lambda>e. ''Traceback: '' @ exn_str e)
        (demo_app False) (demo_environ ''GET'' ''/boom'')))) = Some [''Traceback: secret'']"
  using internal_fault_no_leak [of "demo_app False" "demo_environ ''GET'' ''/boom''"
      "Exception ''ValueError'' ''secret''"
      "set_params (initial_request (demo_app False) (demo_environ ''GET'' ''/boom'')) Map.empty"
      "[]" "demo_settings False" "\<lambda>e. ''Traceback: '' @ exn_str e"]
  by (simp add: try_body_def view_lifecycle_def view_try_def view_catch_def demo_eval
      demo_settings_def)

text \<open>
  C3. Transport errors are translated: when the \<^verbatim>\<open>try\<close> block raises a
  transport error with a recognised status, the response carries the
  error's code and message as its body, the error's status, and the
  default headers updated with the error's headers; nothing is written to
  the diagnostic stream.
\<close>

theorem http_error_translated:
  assumes "try_body self (initial_request self environ) = (Inl (HTTPException h), req)"
    and "valid_status (status_code h)"
  shows "process_request fmt self environ =
           \<lparr>outcome = Inr \<lparr>body = JDict [(''code'', JStr (code h)), (''error'', JStr (message h))],
                           status = status_code h,
                           headers = dict_update default_headers (e_headers h)\<rparr>,
            final_request = req, stderr = []\<rparr>"
  using assms
  by (simp add: process_request_http http_error_response_valid exc_get_response_def)

theorem http_error_translated_witness:
  "outcome (process_request (\<lambda>e. ''trace'') (demo_app False) (demo_environ ''GET'' ''/admin'')) =
     Inr \<lparr>body = JDict [(''code'', JStr ''FORBIDDEN''), (''error'', JStr ''Keep out.'')],
          status = 403,
          headers = [(''content-type'', ''application/json; charset=utf-8''),
                     (''x-reason'', ''acl'')]\<rparr>"
  using http_error_translated [of "demo_app False" "demo_environ ''GET'' ''/admin''" forbidden
      "set_params (initial_request (demo_app False) (demo_environ ''GET'' ''/admin'')) Map.empty"
      "\<lambda>e. ''trace''"]
  by (simp add: try_body_def view_lifecycle_def view_try_def view_catch_def demo_eval
      valid_status_def HTTP_STATUS_LINES_def http_defs)

text \<open>
  C6. A before-route hook that returns a response ends the request: when
  the before-route hooks registered before it fall through and the hook
  returns a response, that response and the request are returned as the
  hook left them, whatever is registered after it. The later before-route
  hooks, route lookup, before-handler middleware, the view and the
  after-handler middleware are not run, so the after-handler hooks never
  see this response.
\<close>

theorem before_route_short_circuit:
  assumes "before_route_m self = pre @ mw # post"
    and "run_before pre (initial_request self environ) = (Next (), req0)"
    and "mw req0 = (Inr (Resp r), req1)"
  shows "process_request fmt self environ =
           \<lparr>outcome = Inr r, final_request = req1, stderr = []\<rparr>"
proof -
  from assms have "run_before (before_route_m self) (initial_request self environ) = (Return r, req1)"
    by (simp add: run_before_append)
  then show ?thesis
    by (simp add: process_request_ok try_body_before_route_return)
qed

theorem before_route_short_circuit_witness:
  "outcome (process_request (\<lambda>e. ''trace'')
      (add_middleware (demo_app False)
         \<lparr>before_route = respond (text_response ''maintenance''), m_before_handler = pass_hook,
          m_after_handler = stamp\<rparr>)
      (demo_environ ''GET'' ''/users/42''))
   = Inr \<lparr>body = JStr ''maintenance'', status = 200, headers = default_headers\<rparr>"
  using before_route_short_circuit [of
      "add_middleware (demo_app False)
         \<lparr>before_route = respond (text_response ''maintenance''), m_before_handler = pass_hook,
          m_after_handler = stamp\<rparr>"
      "[pass_hook]" "respond (text_response ''maintenance'')" "[]"
      "demo_environ ''GET'' ''/users/42''"
      "initial_request (add_middleware (demo_app False)
         \<lparr>before_route = respond (text_response ''maintenance''), m_before_handler = pass_hook,
          m_after_handler = stamp\<rparr>) (demo_environ ''GET'' ''/users/42'')"
      "text_response ''maintenance''"
      "initial_request (add_middleware (demo_app False)
         \<lparr>before_route = respond (text_response ''maintenance''), m_before_handler = pass_hook,
          m_after_handler = stamp\<rparr>) (demo_environ ''GET'' ''/users/42'')"
      "\<lambda>e. ''trace''"]
  by (simp add: hook_defs text_response_def)

text \<open>
  C7. An unknown route yields 404: when the before-route hooks fall through
  and no candidate view stops the scan for the request's path and method,
  the response has status 404 and the body with code \<^verbatim>\<open>ROUTE_NOT_FOUND\<close>;
  no view hook and no later middleware is run, and nothing is logged.
\<close>

theorem unknown_route_404:
  assumes "run_before (before_route_m self) (initial_request self environ) = (Next (), req1)"
    and "\<forall>v \<in> set (candidates self (request_method req1)). \<not> stops (path req1) v"
  shows "process_request fmt self environ =
           \<lparr>outcome = Inr \<lparr>body = JDict [(''code'', JStr ''ROUTE_NOT_FOUND''),
                                         (''error'', JStr ''Route not found.'')],
                           status = 404, headers = default_headers\<rparr>,
            final_request = req1, stderr = []\<rparr>"
proof -
  from assms(2) have "match self (path req1) (request_method req1) = Inl route_not_found"
    by (rule match_no_stop)
  with assms(1) have "try_body self (initial_request self environ) = (Inl route_not_found, req1)"
    by (simp add: try_body_no_match)
  then show ?thesis
    by (simp add: route_not_found_def process_request_http http_error_response_valid
        exc_get_response_def)
qed

theorem unknown_route_404_witness:
  "outcome (process_request (\<lambda>e. ''trace'') (demo_app False) (demo_environ ''POST'' ''/users/42''))
   = Inr \<lparr>body = JDict [(''code'', JStr ''ROUTE_NOT_FOUND''), (''error'', JStr ''Route not found.'')],
          status = 404, headers = default_headers\<rparr>"
  using unknown_route_404 [of "demo_app False" "demo_environ ''POST'' ''/users/42''"
      "initial_request (demo_app False) (demo_environ ''POST'' ''/users/42'')" "\<lambda>e. ''trace''"]
  by (simp add: candidates_def string_eval hook_defs)

text \<open>
  The normal path: when both middleware loops fall through, lookup
  finds a view, and the view stage falls through with the handler's
  response, the captured groups are the request's parameters while the view
  runs, the after-handler hooks run in order on that response, and what
  they leave is returned.
\<close>

lemma handler_response_returned:
  assumes "run_before (before_route_m self) (initial_request self environ) = (Next (), req1)"
    and "match self (path req1) (request_method req1) = Inr (v, ps)"
    and "run_before (before_m self) (set_params req1 ps) = (Next (), req2)"
    and "view_lifecycle v req2 = (Next out, req3)"
    and "run_after (after_m self) req3 out = (Inr out', req4)"
  shows "process_request fmt self environ =
           \<lparr>outcome = Inr out', final_request = req4, stderr = []\<rparr>"
  using assms by (simp add: process_request_ok try_body_view)

text \<open>
  C27. Debug detail: when the \<^verbatim>\<open>try\<close> block raises an exception that is not
  a transport error and the configuration has \<^verbatim>\<open>DEBUG = True\<close>, the response
  has status 500 and a body with the exception's message and the lines of
  the traceback, and the line list is not empty when the traceback is not.
\<close>

theorem debug_fault_detail:
  assumes "try_body self (initial_request self environ) = (Inl e, req)"
    and "\<not> is_HTTPException e"
    and "wsgi_errors (env req) = Some written"
    and "config self = Some cfg" and "DEBUG cfg = Some True"
  shows "outcome (process_request fmt self environ) =
           Inr \<lparr>body = JDict [(''code'', JStr ''INTERNAL_SERVER_ERROR''),
                              (''error'', JStr (exn_str e)),
                              (''stacktrace'', JList (map JStr (splitlines (fmt e))))],
                status = 500, headers = default_headers\<rparr>
       \<and> (fmt e = [] \<or> splitlines (fmt e) \<noteq> [])"
  using assms
  by (auto simp: process_request_fault handle_exception_debug debug_body_def
      splitlines_nonempty)

theorem debug_fault_detail_witness:
  "outcome (process_request (\<lambda>e. ''Traceback:'' @ [CHR 0x0A] @ ''ValueError: '' @ exn_str e)
      (demo_app True) (demo_environ ''GET'' ''/boom'')) =
     Inr \<lparr>body = JDict [(''code'', JStr ''INTERNAL_SERVER_ERROR''),
                        (''error'', JStr ''secret''),
                        (''stacktrace'', JList [JStr ''Traceback:'', JStr ''ValueError: secret''])],
          status = 500, headers = default_headers\<rparr>"
  using debug_fault_detail [of "demo_app True" "demo_environ ''GET'' ''/boom''"
      "Exception ''ValueError'' ''secret''"
      "set_params (initial_request (demo_app True) (demo_environ ''GET'' ''/boom'')) Map.empty"
      "[]" "demo_settings True"
      "\<lambda>e. ''Traceback:'' @ [CHR 0x0A] @ ''ValueError: '' @ exn_str e"]
  by (simp add: try_body_def view_lifecycle_def view_try_def view_catch_def demo_eval
      demo_settings_def splitlines_Cons linebreak_def)

text \<open>
  A before-handler hook that returns a response ends the request too:
  when the before-route hooks fall through, lookup finds a view, the
  before-handler hooks registered before the hook fall through and the hook
  returns a response, that response is returned as it is, with the captured
  groups as the request's parameters. The later before-handler hooks and
  the view are not run, and neither are the after-handler hooks: a response
  that short-circuits the pipeline never passes through them.
\<close>

lemma before_handler_short_circuit:
  assumes "run_before (before_route_m self) (initial_request self environ) = (Next (), req1)"
    and "match self (path req1) (request_method req1) = Inr (v, ps)"
    and "before_m self = pre @ mw # post"
    and "run_before pre (set_params req1 ps) = (Next (), req2)"
    and "mw req2 = (Inr (Resp r), req3)"
  shows "process_request fmt self environ =
           \<lparr>outcome = Inr r, final_request = req3, stderr = []\<rparr>"
proof -
  from assms(3-5) have "run_before (before_m self) (set_params req1 ps) = (Return r, req3)"
    by (simp add: run_before_append)
  with assms(1,2) show ?thesis
    by (simp add: process_request_ok try_body_before_return)
qed

text \<open>
  A response from the view's \<^verbatim>\<open>before_handler\<close> is returned as it is:
  the handler is not called and the after-handler middleware is not run on
  the response.
\<close>

lemma view_before_short_circuit:
  assumes "run_before (before_route_m self) (initial_request self environ) = (Next (), req1)"
    and "match self (path req1) (request_method req1) = Inr (v, ps)"
    and "run_before (before_m self) (set_params req1 ps) = (Next (), req2)"
    and "before_handler v req2 = (Inr (Resp r), req3)"
  shows "process_request fmt self environ =
           \<lparr>outcome = Inr r, final_request = req3, stderr = []\<rparr>"
  using assms by (simp add: process_request_ok try_body_view lifecycle_before_resp)

text \<open>
  Before \<^verbatim>\<open>bootstrap\<close> the error boundary itself fails: when the
  application has no configuration and the \<^verbatim>\<open>try\<close> block raises an exception
  that is not a transport error, reading \<^verbatim>\<open>self.config\<close> raises
  \<^verbatim>\<open>AttributeError\<close> inside the \<^verbatim>\<open>except\<close> clause and that exception leaves
  \<open>process_request\<close>; no response is produced.
\<close>

lemma unbootstrapped_fault_escapes:
  assumes "try_body self (initial_request self environ) = (Inl e, req)"
    and "\<not> is_HTTPException e"
    and "wsgi_errors (env req) = Some written"
    and "config self = None"
  shows "outcome (process_request fmt self environ) = Inl no_config"
  using assms by (simp add: process_request_fault handle_exception_def Let_def)

end
