(* ===== verification/Restipy_Wsgi.thy ===== *)
theory Restipy_Wsgi
  imports Restipy_Dispatcher
begin

text \<open>
  The gateway adapter of \<^verbatim>\<open>src/restipy/core/application.py\<close>: \<^verbatim>\<open>RestiPy.wsgi\<close>
  and \<^verbatim>\<open>RestiPy.__call__\<close>, which delegates to it.

  \<^verbatim>\<open>wsgi\<close> is a generator: the gateway iterates it, and on the first step it
  reads the method, dispatches, calls \<^verbatim>\<open>start_response\<close> with the status line
  and the headers, and yields the serialised body unless the method is
  \<^verbatim>\<open>HEAD\<close>. The model records the call of \<^verbatim>\<open>start_response\<close>, what the
  iteration yields, and the exception that ends it when \<open>process_request\<close>
  raises. The serialisation of a body (\<^verbatim>\<open>Response.get_response\<close>, which is
  outside \<^verbatim>\<open>src/\<close>) is the parameter \<open>dumps\<close>.
\<close>

section \<open>The adapter\<close>

text \<open>\<^verbatim>\<open>data, status, headers = out.get_response()\<close>.\<close>

definition get_response :: "(jvalue \<Rightarrow> string) \<Rightarrow> response \<Rightarrow> string \<times> string \<times> header_dict" where
  "get_response dumps out = (dumps (body out), status_line out, headers out)"

record wsgi_result =
  raised :: "exn option"
  started :: "(string \<times> header_dict) option"
  yielded :: "string list"

definition wsgi :: "(exn \<Rightarrow> string) \<Rightarrow> (jvalue \<Rightarrow> string) \<Rightarrow> restipy \<Rightarrow> environ \<Rightarrow> wsgi_result" where
  "wsgi format_exc dumps self environ =
     (let m = upper (get_or (vars environ) ''REQUEST_METHOD'' ''GET'')
      in case outcome (process_request format_exc self environ) of
           Inl e \<Rightarrow> \<lparr>raised = Some e, started = None, yielded = []\<rparr>
         | Inr out \<Rightarrow>
             (case get_response dumps out of
                (data, line, hs) \<Rightarrow>
                  \<lparr>raised = None, started = Some (line, hs),
                   yielded = (if m = ''HEAD'' then [] else [data])\<rparr>))"

text \<open>\<^verbatim>\<open>__call__\<close>.\<close>

definition call :: "(exn \<Rightarrow> string) \<Rightarrow> (jvalue \<Rightarrow> string) \<Rightarrow> restipy \<Rightarrow> environ \<Rightarrow> wsgi_result" where
  "call format_exc dumps self environ = wsgi format_exc dumps self environ"

lemmas wsgi_defs [restipy_defs] = get_response_def wsgi_def call_def

section \<open>One equation per branch\<close>

lemma wsgi_raise [restipy_branch]:
  "outcome (process_request fmt self environ) = Inl e \<Longrightarrow>
     wsgi fmt dumps self environ = \<lparr>raised = Some e, started = None, yielded = []\<rparr>"
  by (simp add: wsgi_def)

lemma wsgi_HEAD [restipy_branch]:
  "outcome (process_request fmt self environ) = Inr out \<Longrightarrow>
   request_method (initial_request self environ) = ''HEAD'' \<Longrightarrow>
     wsgi fmt dumps self environ =
       \<lparr>raised = None, started = Some (status_line out, headers out), yielded = []\<rparr>"
  by (simp add: wsgi_def get_response_def initial_request_def request_method_def)

lemma wsgi_body [restipy_branch]:
  "outcome (process_request fmt self environ) = Inr out \<Longrightarrow>
   request_method (initial_request self environ) \<noteq> ''HEAD'' \<Longrightarrow>
     wsgi fmt dumps self environ =
       \<lparr>raised = None, started = Some (status_line out, headers out),
        yielded = [dumps (body out)]\<rparr>"
  by (simp add: wsgi_def get_response_def initial_request_def request_method_def)

lemma status_line_200 [simp]: "status r = 200 \<Longrightarrow> status_line r = ''200 OK''"
  by (simp add: status_line_def HTTP_STATUS_LINES_def)

section \<open>Properties of the adapter\<close>

text \<open>
  A \<^verbatim>\<open>HEAD\<close> request is served by the view of \<^verbatim>\<open>GET\<close> and gets no body:
  when the method is \<^verbatim>\<open>HEAD\<close>, the hooks leave method and path alone, no
  view registered under \<^verbatim>\<open>HEAD\<close> stops the scan and the lookup for \<^verbatim>\<open>GET\<close>
  finds a view whose stage and after-handler middleware produce a response,
  the adapter starts the response with that response's status line and
  headers and yields nothing, whatever the body of the response is.
\<close>

lemma head_served_without_body:
  assumes "request_method (initial_request self environ) = ''HEAD''"
    and "run_before (before_route_m self) (initial_request self environ) = (Next (), req1)"
    and "request_method req1 = ''HEAD''"
    and "\<forall>u \<in> set (get_or (routes self) ''HEAD'' []). \<not> stops (path req1) u"
    and "match self (path req1) ''GET'' = Inr (v, ps)"
    and "run_before (before_m self) (set_params req1 ps) = (Next (), req2)"
    and "view_lifecycle v req2 = (Next out, req3)"
    and "run_after (after_m self) req3 out = (Inr out', req4)"
  shows "call fmt dumps self environ =
    \<lparr>raised = None, started = Some (status_line out', headers out'), yielded = []\<rparr>"
proof -
  from assms(4) have "scan_views (get_or (routes self) ''HEAD'' []) (path req1) = Next ()"
    by (simp add: scan_views_Next_iff)
  with assms(5) have "match self (path req1) ''HEAD'' = Inr (v, ps)"
    by (simp add: match_scan candidates_def scan_views_append)
  with assms(2,3,6-8) have "try_body self (initial_request self environ) = (Inr out', req4)"
    by (simp add: try_body_view)
  then have "outcome (process_request fmt self environ) = Inr out'"
    by (simp add: process_request_ok)
  with assms(1) show ?thesis
    by (simp add: call_def wsgi_HEAD)
qed

end
