(* ===== verification/Restipy_Bootstrap.thy ===== *)
theory Restipy_Bootstrap
  imports Restipy_Routing Restipy_Middleware "HOL-Library.List_Lexorder" "HOL-Library.Char_ord"
begin

text \<open>
  Start-up of the application, \<^verbatim>\<open>src/restipy/core/application.py\<close>:
  \<^verbatim>\<open>bootstrap\<close>, \<^verbatim>\<open>_import_module\<close>, \<^verbatim>\<open>_get_module_members\<close>, \<^verbatim>\<open>_import_view\<close> and
  \<^verbatim>\<open>_import_middleware\<close>.

  The interpreter's import system is a parameter: a function from a dotted
  module name to the module, or to the exception the import raises. A
  module is its name and the classes in its namespace, in the order of
  definition; a class carries the name of the module that defined it and
  what its constructor builds from the application. Constructors do not
  raise. \<^verbatim>\<open>inspect.getmembers\<close> sorts the members by name, and strings are
  ordered as Python orders them, by code point.

  The application is mutated in place, so what an import has registered
  stays registered when a later import raises: every operation returns the
  application together with the exception, if any.
\<close>

section \<open>Modules\<close>

datatype member =
    ViewClass "restipy \<Rightarrow> view"
  | MiddlewareClass "restipy \<Rightarrow> middleware"
  | OtherClass

record pyclass =
  defined_in :: string
  builds :: member

record pymodule =
  mod_name :: string
  namespace :: "(string \<times> pyclass) list"

type_synonym importer = "string \<Rightarrow> exn + pymodule"

section \<open>Import helpers\<close>

text \<open>\<^verbatim>\<open>filename.replace(os.path.sep, '.')\<close>, with the separator of POSIX.\<close>

definition dotted :: "string \<Rightarrow> string" where
  "dotted fname = map (\<lambda>c. if c = CHR ''/'' then CHR ''.'' else c) fname"

definition import_module :: "importer \<Rightarrow> string \<Rightarrow> exn + pymodule" where
  "import_module importlib fname = importlib (dotted fname)"

text \<open>\<^verbatim>\<open>inspect.getmembers(module, inspect.isclass)\<close>: the classes, sorted by name.\<close>

definition getmembers :: "pymodule \<Rightarrow> (string \<times> pyclass) list" where
  "getmembers m = sort_key fst (namespace m)"

definition get_module_members :: "pymodule \<Rightarrow> (string \<times> pyclass) list" where
  "get_module_members m =
     filter (\<lambda>(name, c). defined_in c = mod_name m) (getmembers m)"

section \<open>Importing views and middleware\<close>

definition add_member_view :: "string \<times> pyclass \<Rightarrow> restipy \<Rightarrow> restipy" where
  "add_member_view nc self =
     (case builds (snd nc) of
        ViewClass mview \<Rightarrow> add_view self (mview self)
      | _ \<Rightarrow> self)"

definition add_member_middleware :: "string \<times> pyclass \<Rightarrow> restipy \<Rightarrow> restipy" where
  "add_member_middleware nc self =
     (case builds (snd nc) of
        MiddlewareClass mk \<Rightarrow> add_middleware self (mk self)
      | _ \<Rightarrow> self)"

definition import_view :: "importer \<Rightarrow> restipy \<Rightarrow> string \<Rightarrow> exn option \<times> restipy" where
  "import_view importlib self name =
     (case import_module importlib name of
        Inl e \<Rightarrow> (Some e, self)
      | Inr m \<Rightarrow> (None, fold add_member_view (get_module_members m) self))"

definition import_middleware :: "importer \<Rightarrow> restipy \<Rightarrow> string \<Rightarrow> exn option \<times> restipy" where
  "import_middleware importlib self name =
     (case import_module importlib name of
        Inl e \<Rightarrow> (Some e, self)
      | Inr m \<Rightarrow> (None, fold add_member_middleware (get_module_members m) self))"

section \<open>Bootstrap\<close>

text \<open>A \<^verbatim>\<open>for\<close> loop over module names that ends at the first exception.\<close>

fun import_each ::
  "(restipy \<Rightarrow> string \<Rightarrow> exn option \<times> restipy) \<Rightarrow> string list \<Rightarrow> restipy
     \<Rightarrow> exn option \<times> restipy" where
  "import_each imp [] self = (None, self)"
| "import_each imp (name # names) self =
     (case imp self name of
        (Some e, self') \<Rightarrow> (Some e, self')
      | (None, self') \<Rightarrow> import_each imp names self')"

definition bootstrap :: "importer \<Rightarrow> restipy \<Rightarrow> settings \<Rightarrow> exn option \<times> restipy" where
  "bootstrap importlib self settings =
     (case import_each (import_view importlib) (VIEWS settings)
             (self\<lparr>config := Some settings\<rparr>) of
        (Some e, self') \<Rightarrow> (Some e, self')
      | (None, self') \<Rightarrow> import_each (import_middleware importlib) (MIDDLEWARES settings) self')"

lemmas bootstrap_defs [restipy_defs] =
  dotted_def import_module_def getmembers_def get_module_members_def add_member_view_def
  add_member_middleware_def import_view_def import_middleware_def bootstrap_def

section \<open>Facts about sorting by name\<close>

lemma insort_key_map:
  assumes "\<And>x. k (f x) = k' x"
  shows "insort_key k (f x) (map f ys) = map f (insort_key k' x ys)"
  by (induction ys) (simp_all add: assms)

lemma sort_key_map:
  assumes "\<And>x. k (f x) = k' x"
  shows "sort_key k (map f xs) = map f (sort_key k' xs)"
  by (induction xs) (simp_all add: insort_key_map [of k f k'] assms)

lemma getmembers_sorted: "sorted (map fst (getmembers m))"
  by (simp add: getmembers_def)

lemma getmembers_set [simp]: "set (getmembers m) = set (namespace m)"
  by (simp add: getmembers_def)

lemma get_module_members_sorted: "sorted (map fst (get_module_members m))"
  unfolding get_module_members_def
  using sorted_filter [of fst "getmembers m"] getmembers_sorted [of m]
  by simp

section \<open>What an import leaves alone\<close>

lemma add_member_view_frame [simp]:
  "config (add_member_view nc self) = config self"
  "before_route_m (add_member_view nc self) = before_route_m self"
  "before_m (add_member_view nc self) = before_m self"
  "after_m (add_member_view nc self) = after_m self"
  by (simp_all add: add_member_view_def split: member.splits)

lemma add_member_middleware_frame [simp]:
  "config (add_member_middleware nc self) = config self"
  "routes (add_member_middleware nc self) = routes self"
  by (simp_all add: add_member_middleware_def split: member.splits)

lemma add_member_view_wf [restipy_inv]:
  "wf_routes (routes self) \<Longrightarrow> wf_routes (routes (add_member_view nc self))"
  by (simp add: add_member_view_def add_view_def Let_def wf_fold_append_route
      split: member.splits)

lemma add_member_view_aligned [restipy_inv]: "aligned self \<Longrightarrow> aligned (add_member_view nc self)"
  by (simp add: aligned_def)

lemma add_member_middleware_aligned [restipy_inv]:
  "aligned self \<Longrightarrow> aligned (add_member_middleware nc self)"
  by (simp add: add_member_middleware_def aligned_add_middleware split: member.splits)

lemma add_member_view_listed [restipy_inv]:
  "listed (routes self) \<Longrightarrow> listed (routes (add_member_view nc self))"
  by (simp add: add_member_view_def listed_add_view split: member.splits)

text \<open>
  The state every application reaches: a configuration or none, a table that
  is well formed and lists every view under names it declares, aligned hooks.
\<close>

definition ready :: "settings option \<Rightarrow> restipy \<Rightarrow> bool" where
  "ready cfg self \<longleftrightarrow>
     config self = cfg \<and> wf_routes (routes self) \<and> listed (routes self) \<and> aligned self"

lemma ready_add_member_view [restipy_inv]: "ready cfg self \<Longrightarrow> ready cfg (add_member_view nc self)"
  by (simp add: ready_def add_member_view_wf add_member_view_aligned add_member_view_listed)

lemma ready_add_member_middleware [restipy_inv]:
  "ready cfg self \<Longrightarrow> ready cfg (add_member_middleware nc self)"
  by (simp add: ready_def add_member_middleware_aligned)

lemma ready_fold:
  assumes "\<And>x s. ready cfg s \<Longrightarrow> ready cfg (f x s)"
  shows "ready cfg self \<Longrightarrow> ready cfg (fold f xs self)"
  by (induction xs arbitrary: self) (simp_all add: assms)

lemma ready_import_view [restipy_inv]:
  "ready cfg self \<Longrightarrow> ready cfg (snd (import_view importlib self name))"
  by (simp add: import_view_def ready_fold ready_add_member_view split: sum.splits)

lemma ready_import_middleware [restipy_inv]:
  "ready cfg self \<Longrightarrow> ready cfg (snd (import_middleware importlib self name))"
  by (simp add: import_middleware_def ready_fold ready_add_member_middleware split: sum.splits)

lemma ready_import_each:
  assumes "\<And>s name. ready cfg s \<Longrightarrow> ready cfg (snd (imp s name))"
  shows "ready cfg self \<Longrightarrow> ready cfg (snd (import_each imp names self))"
proof (induction names arbitrary: self)
  case Nil
  then show ?case by simp
next
  case (Cons name names)
  from Cons.prems have "ready cfg (snd (imp self name))" by (rule assms)
  with Cons.IH [of "snd (imp self name)"] show ?case
    by (cases "imp self name") (auto split: option.splits)
qed

lemma ready_import_views [restipy_inv]:
  "ready cfg self \<Longrightarrow> ready cfg (snd (import_each (import_view importlib) names self))"
  using ready_import_each [where imp = "import_view importlib" and cfg = cfg]
    ready_import_view by blast

lemma ready_import_middlewares [restipy_inv]:
  "ready cfg self \<Longrightarrow> ready cfg (snd (import_each (import_middleware importlib) names self))"
  using ready_import_each [where imp = "import_middleware importlib" and cfg = cfg]
    ready_import_middleware by blast

lemma import_each_all:
  assumes "\<And>s name. name \<in> set names \<Longrightarrow> fst (imp s name) = None"
  shows "import_each imp names self = (None, fold (\<lambda>name s. snd (imp s name)) names self)"
  using assms
proof (induction names arbitrary: self)
  case Nil
  show ?case by simp
next
  case (Cons name names)
  from Cons.prems [of name self] obtain s' where "imp self name = (None, s')"
    by (cases "imp self name") simp
  with Cons show ?case by simp
qed

section \<open>Views whose constructor ignores the application\<close>

definition plain_view :: "string \<Rightarrow> view \<Rightarrow> pyclass" where
  "plain_view mn v = \<lparr>defined_in = mn, builds = ViewClass (\<lambda>app. v)\<rparr>"

definition plain_module :: "string \<Rightarrow> (string \<times> view) list \<Rightarrow> pymodule" where
  "plain_module mn nvs = \<lparr>mod_name = mn, namespace = map (\<lambda>(n, v). (n, plain_view mn v)) nvs\<rparr>"

lemma plain_members:
  "get_module_members (plain_module mn nvs) =
     map (\<lambda>(n, v). (n, plain_view mn v)) (sort_key fst nvs)"
proof -
  have "sort_key fst (map (\<lambda>(n, v). (n, plain_view mn v)) nvs) =
      map (\<lambda>(n, v). (n, plain_view mn v)) (sort_key fst nvs)"
    by (rule sort_key_map) auto
  then show ?thesis
    by (simp add: get_module_members_def getmembers_def plain_module_def plain_view_def
        filter_map o_def split_def)
qed

lemma fold_plain_views:
  "fold add_member_view (map (\<lambda>(n, v). (n, plain_view mn v)) nvs) self =
     fold (\<lambda>(n, v) app. add_view app v) nvs self"
  by (induction nvs arbitrary: self) (auto simp: add_member_view_def plain_view_def)

section \<open>A worked start-up\<close>

text \<open>
  A module that defines the view of \<^verbatim>\<open>/users\<close> before the view that matches
  every path, and an import system that knows this module only.
\<close>

definition users_first :: "(string \<times> view) list" where
  "users_first =
     [(''Users'', demo_view (prefix_pattern ''/users'') [''GET''] ''users''),
      (''All'', demo_view (prefix_pattern ''/'') [''GET''] ''all'')]"

definition one_module :: importer where
  "one_module name =
     (if name = ''app.views'' then Inr (plain_module ''app.views'' users_first)
      else Inl (Exception ''ModuleNotFoundError'' (''No module named '' @ quoted name)))"

lemma sort_users_first [simp]:
  "sort_key fst users_first =
     [(''All'', demo_view (prefix_pattern ''/'') [''GET''] ''all''),
      (''Users'', demo_view (prefix_pattern ''/users'') [''GET''] ''users'')]"
  by (simp add: users_first_def)

section \<open>Properties of start-up\<close>

text \<open>
  C31. Views are registered in the order of their names: importing a module
  whose classes are views defined in it registers them sorted by class
  name, whatever the order of their definition in the module, because
  \<^verbatim>\<open>inspect.getmembers\<close> sorts. First-match precedence among the views of a
  module therefore follows their names.
\<close>

theorem import_view_order:
  assumes "importlib (dotted name) = Inr (plain_module mn nvs)"
  shows "import_view importlib self name =
    (None, fold (\<lambda>(n, v) app. add_view app v) (sort_key fst nvs) self)"
  using assms
  by (simp add: import_view_def import_module_def plain_members fold_plain_views)

theorem import_view_order_witness:
  "get_or (routes (snd (import_view one_module RestiPy ''app/views''))) ''GET'' [] =
     [demo_view (prefix_pattern ''/'') [''GET''] ''all'',
      demo_view (prefix_pattern ''/users'') [''GET''] ''users'']
   \<and> match (snd (import_view one_module RestiPy ''app/views'')) ''/users/7'' ''GET'' =
       Inr (demo_view (prefix_pattern ''/'') [''GET''] ''all'', Map.empty)"
  using import_view_order [of one_module "''app/views''" "''app.views''" users_first RestiPy]
  by (simp add: one_module_def dotted_def add_view_lookup match_scan candidates_def
      prefix_pattern_def string_eval)

text \<open>
  Start-up establishes the state dispatch relies on: from an application
  with a well-formed, honest table and aligned hook lists, \<open>bootstrap\<close>
  leaves an application that has the settings as its configuration, such a
  table and aligned hook lists, also when an import raised and start-up
  stopped half way.
\<close>

lemma bootstrap_ready:
  assumes "ready cfg self"
  shows "ready (Some settings) (snd (bootstrap importlib self settings))"
proof -
  let ?views = "import_each (import_view importlib) (VIEWS settings) (self\<lparr>config := Some settings\<rparr>)"
  from assms have "ready (Some settings) (self\<lparr>config := Some settings\<rparr>)"
    by (simp add: ready_def aligned_def)
  then have views: "ready (Some settings) (snd ?views)"
    by (rule ready_import_views)
  then have "ready (Some settings)
      (snd (import_each (import_middleware importlib) (MIDDLEWARES settings) (snd ?views)))"
    by (rule ready_import_middlewares)
  with views show ?thesis
    by (cases ?views) (auto simp: bootstrap_def split: option.splits)
qed

lemma ready_init [simp]: "ready None RestiPy"
  by (simp add: ready_def aligned_def)

lemma ready_add_view [restipy_inv]: "ready cfg self \<Longrightarrow> ready cfg (add_view self v)"
  by (simp add: ready_def add_view_wf listed_add_view aligned_def)

lemma ready_add_middleware [restipy_inv]: "ready cfg self \<Longrightarrow> ready cfg (add_middleware self mw)"
  by (simp add: ready_def aligned_add_middleware)

end
