(* ===== verification/Restipy_Setup.thy ===== *)
theory Restipy_Setup
  imports Restipy_Bootstrap
begin

text \<open>
  The life of an application object before it serves requests. The code
  that owns the object (a launcher outside \<^verbatim>\<open>src/\<close>) creates it and then
  calls its mutating methods, \<^verbatim>\<open>bootstrap\<close>, \<^verbatim>\<open>_add_view\<close> and
  \<^verbatim>\<open>add_middleware\<close> of \<^verbatim>\<open>src/restipy/core/application.py\<close>, in some order;
  dispatch reads the object and never changes it. The theory gives the
  calls as a datatype of operations with one step function, the
  applications that can be built as an inductive predicate and as the
  result of a list of operations, and shows by rule induction that every
  application that can be built is in the state lookup and dispatch rely
  on, whatever was registered and whichever import failed.
\<close>

section \<open>Operations\<close>

datatype setup_op =
    AddView view
  | AddMiddleware middleware
  | Bootstrap importer settings

text \<open>An exception that \<^verbatim>\<open>bootstrap\<close> raises is the caller's: the object stays as it is then.\<close>

fun apply_op :: "setup_op \<Rightarrow> restipy \<Rightarrow> restipy" where
  "apply_op (AddView v) self = add_view self v"
| "apply_op (AddMiddleware mw) self = add_middleware self mw"
| "apply_op (Bootstrap importlib settings) self = snd (bootstrap importlib self settings)"

definition build :: "setup_op list \<Rightarrow> restipy" where
  "build ops = fold apply_op ops RestiPy"

text \<open>The configuration a list of operations leaves: the settings of the last \<^verbatim>\<open>bootstrap\<close>.\<close>

fun config_after :: "setup_op \<Rightarrow> settings option \<Rightarrow> settings option" where
  "config_after (Bootstrap importlib settings) c = Some settings"
| "config_after (AddView v) c = c"
| "config_after (AddMiddleware mw) c = c"

definition configured :: "setup_op list \<Rightarrow> settings option" where
  "configured ops = fold config_after ops None"

inductive built :: "restipy \<Rightarrow> bool" where
  start: "built RestiPy"
| with_view: "built self \<Longrightarrow> built (add_view self v)"
| with_middleware: "built self \<Longrightarrow> built (add_middleware self mw)"
| after_bootstrap: "built self \<Longrightarrow> built (snd (bootstrap importlib self settings))"

section \<open>Both descriptions agree\<close>

lemma build_Nil [simp]: "build [] = RestiPy"
  by (simp add: build_def)

lemma build_snoc [simp]: "build (ops @ [x]) = apply_op x (build ops)"
  by (simp add: build_def)

lemma configured_Nil [simp]: "configured [] = None"
  by (simp add: configured_def)

lemma configured_snoc [simp]: "configured (ops @ [x]) = config_after x (configured ops)"
  by (simp add: configured_def)

lemma built_apply_op: "built self \<Longrightarrow> built (apply_op x self)"
  by (cases x) (simp_all add: built.intros)

lemma built_build: "built (build ops)"
  by (induction ops rule: rev_induct) (simp_all add: built.start built_apply_op)

lemma built_is_build: "built self \<Longrightarrow> \<exists>ops. self = build ops"
proof (induction rule: built.induct)
  case start
  have "RestiPy = build []" by simp
  then show ?case ..
next
  case (with_view self v)
  from with_view.IH obtain ops where "self = build ops" ..
  then have "add_view self v = build (ops @ [AddView v])" by simp
  then show ?case ..
next
  case (with_middleware self mw)
  from with_middleware.IH obtain ops where "self = build ops" ..
  then have "add_middleware self mw = build (ops @ [AddMiddleware mw])" by simp
  then show ?case ..
next
  case (after_bootstrap self importlib settings)
  from after_bootstrap.IH obtain ops where "self = build ops" ..
  then have "snd (bootstrap importlib self settings)
      = build (ops @ [Bootstrap importlib settings])" by simp
  then show ?case ..
qed

lemma built_iff: "built self \<longleftrightarrow> (\<exists>ops. self = build ops)"
  using built_is_build built_build by auto

section \<open>The invariant\<close>

lemma built_ready: "built self \<Longrightarrow> ready (config self) self"
proof (induction rule: built.induct)
  case start
  show ?case by simp
next
  case (with_view self v)
  from with_view.IH show ?case using ready_add_view [of "config self" self v] by simp
next
  case (with_middleware self mw)
  from with_middleware.IH show ?case
    using ready_add_middleware [of "config self" self mw] by simp
next
  case (after_bootstrap self importlib settings)
  from after_bootstrap.IH
  have "ready (Some settings) (snd (bootstrap importlib self settings))"
    by (rule bootstrap_ready)
  then show ?case by (simp add: ready_def)
qed

lemma ready_apply_op: "ready cfg self \<Longrightarrow> ready (config_after x cfg) (apply_op x self)"
  by (cases x) (simp_all add: ready_add_view ready_add_middleware bootstrap_ready)

section \<open>A worked start-up\<close>

definition start_ops :: "setup_op list" where
  "start_ops =
     [AddView (demo_view (prefix_pattern ''/ping'') [''get'', ''post''] ''pong''),
      Bootstrap one_module
        \<lparr>DEBUG = Some False, MAX_BODY_SIZE = Some 1024, VIEWS = [''app/views'', ''gone''],
         MIDDLEWARES = []\<rparr>]"

lemmas start_eval =
  build_def start_ops_def bootstrap_def import_view_def import_module_def one_module_def
  dotted_def plain_members add_member_view_def plain_view_def

lemma start_ops_GET:
  "get_or (routes (build start_ops)) ''GET'' [] =
     [demo_view (prefix_pattern ''/ping'') [''get'', ''post''] ''pong'',
      demo_view (prefix_pattern ''/'') [''GET''] ''all'',
      demo_view (prefix_pattern ''/users'') [''GET''] ''users'']"
  by (simp add: start_eval add_view_lookup string_eval)

lemma start_ops_hooks [simp]:
  "before_route_m (build start_ops) = []" "before_m (build start_ops) = []"
  "after_m (build start_ops) = []"
  by (simp_all add: start_eval)

section \<open>Properties of every application that can be built\<close>

text \<open>
  C28. The state dispatch relies on is an invariant of start-up: after any
  list of calls of \<^verbatim>\<open>_add_view\<close>, \<^verbatim>\<open>add_middleware\<close> and \<^verbatim>\<open>bootstrap\<close> on a new
  application, failed imports included, the configuration is that of the
  last \<^verbatim>\<open>bootstrap\<close> (none when there was no such call), every key of the
  route table is upper case and has a list that is not empty, every view
  stands only under method names it declares, and the three hook lists have
  the same length.
\<close>

theorem setup_invariant: "ready (configured ops) (build ops)"
  by (induction ops rule: rev_induct) (simp_all add: ready_apply_op)

theorem setup_invariant_witness:
  "ready (Some \<lparr>DEBUG = Some False, MAX_BODY_SIZE = Some 1024, VIEWS = [''app/views'', ''gone''],
                   MIDDLEWARES = []\<rparr>) (build start_ops)"
  using setup_invariant [of start_ops] by (simp add: configured_def start_ops_def)

text \<open>
  C22. A request only reaches a view that declares its method: in every
  application that can be built, when lookup returns a view for a path and
  a method, the view was registered with a pattern that matches the path
  with the returned groups, and one of the methods the view declares is the
  requested method up to case, or the request is \<^verbatim>\<open>HEAD\<close> and the view
  declares \<^verbatim>\<open>GET\<close>.
\<close>

theorem dispatch_to_declared_method:
  assumes "match (build ops) p m = Inr (v, g)"
  shows "(\<exists>pat. route v = RoutePattern pat \<and> pat p = Some g)
    \<and> (\<exists>d \<in> set (methods v). upper d = m \<or> (m = ''HEAD'' \<and> upper d = ''GET''))"
proof -
  have "listed (routes (build ops))"
    using built_ready [OF built_build, of ops] by (simp add: ready_def)
  then have "declares v m \<or> (m = ''HEAD'' \<and> declares v ''GET'')"
    using assms by (rule match_declared)
  moreover from assms have "\<exists>pat. route v = RoutePattern pat \<and> pat p = Some g"
    by (simp add: match_Inr_sound)
  ultimately show ?thesis by (auto simp: declares_def)
qed

theorem dispatch_to_declared_method_witness:
  "(\<exists>pat. route (demo_view (prefix_pattern ''/ping'') [''get'', ''post''] ''pong'') = RoutePattern pat
      \<and> pat ''/ping'' = Some Map.empty)
   \<and> (\<exists>d \<in> set (methods (demo_view (prefix_pattern ''/ping'') [''get'', ''post''] ''pong'')).
        upper d = ''HEAD'' \<or> (''HEAD'' = ''HEAD'' \<and> upper d = ''GET''))"
  using dispatch_to_declared_method [of start_ops "''/ping''" "''HEAD''"
      "demo_view (prefix_pattern ''/ping'') [''get'', ''post''] ''pong''" Map.empty]
  by (simp add: match_scan candidates_def start_ops_GET prefix_pattern_def string_eval)

end
