(* ===== verification/Restipy_Wellformed.thy ===== *)
theory Restipy_Wellformed
  imports Restipy_Wsgi Restipy_Setup
begin

text \<open>
  Well-formed responses, through the whole pipeline. A response is well
  formed when its status is one of the recognised codes and its headers
  hold a content type: this is what the constructor of a response
  establishes, and what the gateway adapter needs to emit a status line.
  Hooks are code of the application, so the theory states what is asked of
  them (a hook that returns a response returns a well-formed one, an
  after-hook keeps a well-formed response well formed), shows that
  registration keeps an application of such hooks, and that
  \<^verbatim>\<open>process_request\<close> of \<^verbatim>\<open>src/restipy/core/application.py\<close> then returns
  well-formed responses only, on every path: short circuits, the normal
  path, \<^verbatim>\<open>on_exception\<close>, and both clauses of the error boundary.
\<close>

section \<open>Well-formed responses and hooks that keep them\<close>

definition wf_response :: "response \<Rightarrow> bool" where
  "wf_response r \<longleftrightarrow> valid_status (status r) \<and> map_of (headers r) ''content-type'' \<noteq> None"

definition hook_ok :: "hook \<Rightarrow> bool" where
  "hook_ok h \<longleftrightarrow> (\<forall>req r req'. h req = (Inr (Resp r), req') \<longrightarrow> wf_response r)"

definition after_ok :: "after_hook \<Rightarrow> bool" where
  "after_ok a \<longleftrightarrow>
     (\<forall>req out req' out'. wf_response out \<longrightarrow> a req out = (None, req', out') \<longrightarrow> wf_response out')"

definition exc_ok :: "exc_hook \<Rightarrow> bool" where
  "exc_ok x \<longleftrightarrow> (\<forall>req e r req'. x req e = (Inr (Resp r), req') \<longrightarrow> wf_response r)"

definition view_ok :: "view \<Rightarrow> bool" where
  "view_ok v \<longleftrightarrow>
     hook_ok (before_handler v) \<and> hook_ok (handler v) \<and> after_ok (after_handler v)
     \<and> exc_ok (on_exception v)"

definition middleware_ok :: "middleware \<Rightarrow> bool" where
  "middleware_ok mw \<longleftrightarrow>
     hook_ok (before_route mw) \<and> hook_ok (m_before_handler mw) \<and> after_ok (m_after_handler mw)"

definition app_ok :: "restipy \<Rightarrow> bool" where
  "app_ok self \<longleftrightarrow>
     list_all hook_ok (before_route_m self) \<and> list_all hook_ok (before_m self)
     \<and> list_all after_ok (after_m self)
     \<and> (\<forall>k. list_all view_ok (get_or (routes self) k []))"

text \<open>
  What is asked of the parts an application is built from: of a class found
  by an import, that whatever its constructor builds is of the kind above,
  and of an import system, that this holds of every class of every module
  it can load.
\<close>

definition member_ok :: "member \<Rightarrow> bool" where
  "member_ok b =
     (case b of
        ViewClass mk \<Rightarrow> \<forall>app. view_ok (mk app)
      | MiddlewareClass mk \<Rightarrow> \<forall>app. middleware_ok (mk app)
      | OtherClass \<Rightarrow> True)"

definition importer_ok :: "importer \<Rightarrow> bool" where
  "importer_ok importlib \<longleftrightarrow>
     (\<forall>name m. importlib name = Inr m \<longrightarrow> (\<forall>nc \<in> set (namespace m). member_ok (builds (snd nc))))"

fun op_ok :: "setup_op \<Rightarrow> bool" where
  "op_ok (AddView v) = view_ok v"
| "op_ok (AddMiddleware mw) = middleware_ok mw"
| "op_ok (Bootstrap importlib settings) = importer_ok importlib"

text \<open>A stage ends well when the response it returns or falls through with is well formed.\<close>

fun flow_wf :: "(exn, response, response) flow \<Rightarrow> bool" where
  "flow_wf (Return r) = wf_response r"
| "flow_wf (Next r) = wf_response r"
| "flow_wf (Raise e) = True"

lemmas ok_defs = hook_ok_def after_ok_def exc_ok_def view_ok_def middleware_ok_def

lemma hook_okD: "hook_ok h \<Longrightarrow> h req = (Inr (Resp r), req') \<Longrightarrow> wf_response r"
  unfolding hook_ok_def by blast

lemma after_okD:
  "after_ok a \<Longrightarrow> wf_response out \<Longrightarrow> a req out = (None, req', out') \<Longrightarrow> wf_response out'"
  unfolding after_ok_def by blast

lemma exc_okD: "exc_ok x \<Longrightarrow> x req e = (Inr (Resp r), req') \<Longrightarrow> wf_response r"
  unfolding exc_ok_def by blast

section \<open>What the constructor establishes\<close>

lemma content_type_kept:
  "map_of d ''content-type'' \<noteq> None \<Longrightarrow> map_of (dict_update d new) ''content-type'' \<noteq> None"
  by (auto simp: map_of_dict_update map_add_def split: option.splits)

lemma Response_wf: "Response b c h = Inr r \<Longrightarrow> wf_response r"
  by (auto simp: Response_Inr_iff wf_response_def content_type_kept default_headers_def)

lemma wf_status_line: "wf_response r \<Longrightarrow> status_line r \<in> snd ` set HTTP_STATUS_LINES"
proof -
  assume "wf_response r"
  then obtain l where l: "map_of HTTP_STATUS_LINES (status r) = Some l"
    by (auto simp: wf_response_def valid_status_def)
  then have "(status r, l) \<in> set HTTP_STATUS_LINES" by (rule map_of_SomeD)
  then have "l \<in> snd ` set HTTP_STATUS_LINES" by force
  with l show ?thesis by (simp add: status_line_def)
qed

lemma wf_text_response [simp]: "wf_response (text_response s)"
  by (simp add: wf_response_def text_response_def default_headers_def)

section \<open>Every stage keeps responses well formed\<close>

lemma run_before_wf:
  "list_all hook_ok hs \<Longrightarrow> run_before hs req = (Return r, req') \<Longrightarrow> wf_response r"
proof (induction hs arbitrary: req)
  case Nil
  then show ?case by simp
next
  case (Cons h hs)
  obtain res req1 where h: "h req = (res, req1)" by (cases "h req")
  from Cons.prems(1) have ok: "hook_ok h" and rest: "list_all hook_ok hs" by simp_all
  show ?case
  proof (cases res)
    case (Inl e)
    with h Cons.prems(2) show ?thesis by simp
  next
    case (Inr rv)
    show ?thesis
    proof (cases rv)
      case (Resp r')
      with h Inr Cons.prems(2) ok show ?thesis by (auto dest: hook_okD)
    next
      case NonResp
      with h Inr Cons.prems(2) have "run_before hs req1 = (Return r, req')" by simp
      with rest show ?thesis by (rule Cons.IH)
    qed
  qed
qed

lemma run_after_wf:
  "list_all after_ok hs \<Longrightarrow> wf_response out \<Longrightarrow> run_after hs req out = (Inr out', req') \<Longrightarrow>
     wf_response out'"
proof (induction hs arbitrary: req out)
  case Nil
  then show ?case by simp
next
  case (Cons h hs)
  obtain e req1 out1 where h: "h req out = (e, req1, out1)" by (cases "h req out")
  from Cons.prems(1) have ok: "after_ok h" and rest: "list_all after_ok hs" by simp_all
  from h Cons.prems(3) have e: "e = None" and run: "run_after hs req1 out1 = (Inr out', req')"
    by (cases e; simp)+
  from ok Cons.prems(2) h e have "wf_response out1" by (auto dest: after_okD)
  with rest show ?case using run by (rule Cons.IH)
qed

lemma view_except_wf:
  "exc_ok (on_exception v) \<Longrightarrow> flow_wf (fst (view_except v e req))"
  by (auto simp: view_except_def dest: exc_okD split: prod.splits sum.splits retval.splits)

lemma view_catch_wf:
  "exc_ok (on_exception v) \<Longrightarrow> flow_wf (fst (view_catch v e req))"
  by (simp add: view_catch_def view_except_wf)

lemma from_after_wf:
  assumes "view_ok v" and "wf_response out"
  shows "flow_wf (fst (from_after v req out))"
proof (cases "after_handler v req out" rule: prod_cases3)
  case (fields e req1 out1)
  show ?thesis
  proof (cases e)
    case None
    with fields assms have "wf_response out1" by (auto simp: view_ok_def dest: after_okD)
    with fields None show ?thesis by (simp add: from_after_def)
  next
    case (Some e')
    with fields assms(1) show ?thesis by (simp add: from_after_def view_catch_wf view_ok_def)
  qed
qed

lemma from_handler_wf:
  assumes "view_ok v"
  shows "flow_wf (fst (from_handler v req))"
proof (cases "handler v req")
  case (Pair res req1)
  from assms have x: "exc_ok (on_exception v)" by (simp add: view_ok_def)
  show ?thesis
  proof (cases res)
    case (Inl e)
    with Pair x show ?thesis by (simp add: from_handler_def view_catch_wf)
  next
    case (Inr rv)
    show ?thesis
    proof (cases rv)
      case (Resp out)
      with Pair Inr assms have "wf_response out" by (auto simp: view_ok_def dest: hook_okD)
      with Pair Inr Resp assms show ?thesis by (simp add: from_handler_def from_after_wf)
    next
      case NonResp
      with Pair Inr x show ?thesis by (simp add: from_handler_def view_except_wf)
    qed
  qed
qed

lemma view_lifecycle_wf:
  assumes "view_ok v"
  shows "flow_wf (fst (view_lifecycle v req))"
proof (cases "before_handler v req")
  case (Pair res req1)
  from assms have x: "exc_ok (on_exception v)" by (simp add: view_ok_def)
  show ?thesis
  proof (cases res)
    case (Inl e)
    with Pair x show ?thesis by (simp add: view_lifecycle_from_before from_before_def view_catch_wf)
  next
    case (Inr rv)
    show ?thesis
    proof (cases rv)
      case (Resp r)
      with Pair Inr assms have "wf_response r" by (auto simp: view_ok_def dest: hook_okD)
      with Pair Inr Resp show ?thesis by (simp add: view_lifecycle_from_before from_before_def)
    next
      case NonResp
      with Pair Inr assms show ?thesis
        by (simp add: view_lifecycle_from_before from_before_def from_handler_wf)
    qed
  qed
qed

section \<open>The pipeline and the error boundary\<close>

lemma match_view_ok:
  assumes "app_ok self" and "match self p m = Inr (v, g)"
  shows "view_ok v"
proof -
  from assms(2) have "v \<in> set (candidates self m)" by (simp add: match_Inr_sound)
  then obtain k where "v \<in> set (get_or (routes self) k [])"
    by (auto simp: candidates_def split: if_splits)
  moreover from assms(1) have "list_all view_ok (get_or (routes self) k [])"
    by (simp add: app_ok_def)
  ultimately show ?thesis by (simp add: list_all_iff)
qed

lemma try_body_wf:
  assumes "app_ok self" and "try_body self req = (Inr r, req')"
  shows "wf_response r"
proof (cases "run_before (before_route_m self) req")
  case (Pair f1 req1)
  from assms(1) have route_ok: "list_all hook_ok (before_route_m self)"
    and before_ok: "list_all hook_ok (before_m self)" and after: "list_all after_ok (after_m self)"
    by (simp_all add: app_ok_def)
  show ?thesis
  proof (cases f1)
    case (Return out)
    with Pair assms(2) route_ok show ?thesis
      by (auto simp: try_body_def dest: run_before_wf)
  next
    case (Raise e)
    with Pair assms(2) show ?thesis by (simp add: try_body_def)
  next
    case (Next u)
    with Pair assms(2) obtain v ps where m: "match self (path req1) (request_method req1) = Inr (v, ps)"
      by (cases "match self (path req1) (request_method req1)") (auto simp: try_body_def)
    with assms(1) have v: "view_ok v" by (rule match_view_ok)
    obtain f2 req2 where b: "run_before (before_m self) (set_params req1 ps) = (f2, req2)"
      by (cases "run_before (before_m self) (set_params req1 ps)")
    show ?thesis
    proof (cases f2)
      case (Return out)
      with Pair Next m b assms(2) before_ok show ?thesis
        by (auto simp: try_body_def dest: run_before_wf)
    next
      case (Raise e)
      with Pair Next m b assms(2) show ?thesis by (simp add: try_body_def)
    next
      case next2: (Next u')
      obtain f3 req3 where l: "view_lifecycle v req2 = (f3, req3)"
        by (cases "view_lifecycle v req2")
      with v have wf3: "flow_wf f3" using view_lifecycle_wf [of v req2] by simp
      from Pair Next m b next2 l assms(2) wf3 after show ?thesis
        by (cases f3) (auto simp: try_body_def dest: run_after_wf)
    qed
  qed
qed

lemma http_error_response_wf: "http_error_response h = Inr r \<Longrightarrow> wf_response r"
  unfolding http_error_response_def by (rule Response_wf)

lemma handle_exception_wf:
  "outcome (handle_exception fmt self e req) = Inr r \<Longrightarrow> wf_response r"
  by (auto simp: handle_exception_def Let_def dest: Response_wf
      split: option.splits bool.splits)

lemma process_request_wf:
  assumes "app_ok self" and "outcome (process_request fmt self environ) = Inr r"
  shows "wf_response r"
proof (cases "try_body self (initial_request self environ)")
  case (Pair res req)
  show ?thesis
  proof (cases res)
    case (Inr out)
    with Pair assms show ?thesis by (auto simp: process_request_ok dest: try_body_wf)
  next
    case (Inl e)
    show ?thesis
    proof (cases "is_HTTPException e")
      case True
      then obtain h where "e = HTTPException h" by (cases e) simp_all
      with Pair Inl assms(2) show ?thesis
        by (simp add: process_request_http http_error_response_wf)
    next
      case False
      with Pair Inl assms(2) show ?thesis
        by (simp add: process_request_fault handle_exception_wf)
    qed
  qed
qed

section \<open>Registration keeps the hooks\<close>

lemma app_ok_init [simp]: "app_ok RestiPy"
  by (simp add: app_ok_def)

lemma app_ok_config [simp]: "app_ok (self\<lparr>config := c\<rparr>) = app_ok self"
  by (simp add: app_ok_def)

lemma app_ok_add_view [restipy_inv]: "view_ok v \<Longrightarrow> app_ok self \<Longrightarrow> app_ok (add_view self v)"
  by (auto simp: app_ok_def add_view_lookup list_all_iff)

lemma app_ok_add_middleware [restipy_inv]:
  "middleware_ok mw \<Longrightarrow> app_ok self \<Longrightarrow> app_ok (add_middleware self mw)"
  by (simp add: app_ok_def middleware_ok_def)

lemma app_ok_add_member_view [restipy_inv]:
  "member_ok (builds (snd nc)) \<Longrightarrow> app_ok self \<Longrightarrow> app_ok (add_member_view nc self)"
  by (auto simp: add_member_view_def member_ok_def app_ok_add_view split: member.splits)

lemma app_ok_add_member_middleware [restipy_inv]:
  "member_ok (builds (snd nc)) \<Longrightarrow> app_ok self \<Longrightarrow> app_ok (add_member_middleware nc self)"
  by (auto simp: add_member_middleware_def member_ok_def app_ok_add_middleware split: member.splits)

lemma app_ok_fold:
  assumes "\<And>x s. x \<in> set xs \<Longrightarrow> app_ok s \<Longrightarrow> app_ok (f x s)"
  shows "app_ok self \<Longrightarrow> app_ok (fold f xs self)"
  using assms by (induction xs arbitrary: self) simp_all

lemma members_ok:
  assumes "importer_ok importlib" and "import_module importlib name = Inr m"
    and "nc \<in> set (get_module_members m)"
  shows "member_ok (builds (snd nc))"
proof -
  from assms(3) have "nc \<in> set (namespace m)" by (simp add: get_module_members_def)
  with assms(1,2) show ?thesis
    unfolding importer_ok_def import_module_def by blast
qed

lemma app_ok_import_view [restipy_inv]:
  assumes "importer_ok importlib" and "app_ok self"
  shows "app_ok (snd (import_view importlib self name))"
proof (cases "import_module importlib name")
  case (Inl e)
  with assms(2) show ?thesis by (simp add: import_view_def)
next
  case (Inr m)
  have "app_ok (fold add_member_view (get_module_members m) self)"
    using assms(2) members_ok [OF assms(1) Inr] by (intro app_ok_fold app_ok_add_member_view)
  with Inr show ?thesis by (simp add: import_view_def)
qed

lemma app_ok_import_middleware [restipy_inv]:
  assumes "importer_ok importlib" and "app_ok self"
  shows "app_ok (snd (import_middleware importlib self name))"
proof (cases "import_module importlib name")
  case (Inl e)
  with assms(2) show ?thesis by (simp add: import_middleware_def)
next
  case (Inr m)
  have "app_ok (fold add_member_middleware (get_module_members m) self)"
    using assms(2) members_ok [OF assms(1) Inr]
    by (intro app_ok_fold app_ok_add_member_middleware)
  with Inr show ?thesis by (simp add: import_middleware_def)
qed

lemma app_ok_import_each:
  assumes "\<And>s name. app_ok s \<Longrightarrow> app_ok (snd (imp s name))"
  shows "app_ok self \<Longrightarrow> app_ok (snd (import_each imp names self))"
proof (induction names arbitrary: self)
  case Nil
  then show ?case by simp
next
  case (Cons name names)
  from Cons.prems have "app_ok (snd (imp self name))" by (rule assms)
  with Cons.IH [of "snd (imp self name)"] show ?case
    by (cases "imp self name") (auto split: option.splits)
qed

lemma app_ok_import_views [restipy_inv]:
  "importer_ok importlib \<Longrightarrow> app_ok self \<Longrightarrow>
     app_ok (snd (import_each (import_view importlib) names self))"
  using app_ok_import_each [where imp = "import_view importlib"] app_ok_import_view by blast

lemma app_ok_import_middlewares [restipy_inv]:
  "importer_ok importlib \<Longrightarrow> app_ok self \<Longrightarrow>
     app_ok (snd (import_each (import_middleware importlib) names self))"
  using app_ok_import_each [where imp = "import_middleware importlib"] app_ok_import_middleware
  by blast

lemma app_ok_bootstrap [restipy_inv]:
  assumes "importer_ok importlib" and "app_ok self"
  shows "app_ok (snd (bootstrap importlib self settings))"
proof -
  let ?views = "import_each (import_view importlib) (VIEWS settings) (self\<lparr>config := Some settings\<rparr>)"
  from assms have views: "app_ok (snd ?views)"
    by (simp add: app_ok_import_views)
  with assms(1) have "app_ok
      (snd (import_each (import_middleware importlib) (MIDDLEWARES settings) (snd ?views)))"
    by (rule app_ok_import_middlewares)
  with views show ?thesis
    by (cases ?views) (auto simp: bootstrap_def split: option.splits)
qed

lemma app_ok_apply_op [restipy_inv]: "op_ok x \<Longrightarrow> app_ok self \<Longrightarrow> app_ok (apply_op x self)"
  by (cases x) (simp_all add: app_ok_add_view app_ok_add_middleware app_ok_bootstrap)

lemma app_ok_build: "list_all op_ok ops \<Longrightarrow> app_ok (build ops)"
  by (induction ops rule: rev_induct) (simp_all add: app_ok_apply_op)

section \<open>Hooks of the worked examples\<close>

lemma hook_ok_simps [simp]:
  "hook_ok pass_hook" "hook_ok (raising e)" "hook_ok (respond r) = wf_response r"
  by (auto simp: hook_ok_def hook_defs)

lemma after_ok_pass [simp]: "after_ok pass_after"
  by (simp add: after_ok_def pass_after_def)

lemma exc_ok_reraise [simp]: "exc_ok reraise"
  by (simp add: exc_ok_def reraise_def)

lemma view_ok_demo [simp]: "view_ok (demo_view pat ms s)"
  by (simp add: view_ok_def)

lemma importer_ok_one_module [simp]: "importer_ok one_module"
  by (auto simp: importer_ok_def one_module_def plain_module_def plain_view_def member_ok_def
      users_first_def split: if_splits)

lemma start_ops_ok [simp]: "list_all op_ok start_ops"
  by (simp add: start_ops_def)

section \<open>Properties\<close>

text \<open>
  The adapter of an application with such hooks starts every response with
  a status line of the table and with a content type among the headers.
\<close>

lemma wsgi_started_wf:
  assumes "app_ok self" and "started (wsgi fmt dumps self environ) = Some (line, hs)"
  shows "line \<in> snd ` set HTTP_STATUS_LINES \<and> map_of hs ''content-type'' \<noteq> None"
proof (cases "outcome (process_request fmt self environ)")
  case (Inl e)
  with assms(2) show ?thesis by (simp add: wsgi_raise)
next
  case (Inr out)
  with assms(1) have "wf_response out" by (rule process_request_wf)
  moreover from Inr assms(2) have "line = status_line out" and "hs = headers out"
    by (simp_all add: wsgi_def get_response_def)
  ultimately show ?thesis by (simp add: wf_status_line wf_response_def)
qed

text \<open>
  C11. Every response is well formed: in an application built by any list
  of registrations and start-ups whose hooks return well-formed responses
  and keep them well formed, every response that \<open>process_request\<close>
  returns, from a hook that short-circuits, from the handler through the
  after-handler hooks, from \<^verbatim>\<open>on_exception\<close> or from the error boundary, has
  a recognised status, a status line in the table and a content type among
  its headers.
\<close>

theorem response_well_formed:
  assumes "list_all op_ok ops"
    and "outcome (process_request fmt (build ops) environ) = Inr r"
  shows "valid_status (status r) \<and> status_line r \<in> snd ` set HTTP_STATUS_LINES
    \<and> map_of (headers r) ''content-type'' \<noteq> None"
proof -
  from assms(1) have "app_ok (build ops)" by (rule app_ok_build)
  then have "wf_response r" using assms(2) by (rule process_request_wf)
  then show ?thesis by (simp add: wf_status_line) (simp add: wf_response_def)
qed

theorem response_well_formed_witness:
  "list_all op_ok start_ops
   \<and> outcome (process_request (\<lambda>e. ''trace'') (build start_ops) (demo_environ ''GET'' ''/users/7''))
       = Inr (text_response ''all'')
   \<and> status_line (text_response ''all'') = ''200 OK''
   \<and> ''200 OK'' \<in> snd ` set HTTP_STATUS_LINES"
  using response_well_formed [of start_ops "\<lambda>e. ''trace''" "demo_environ ''GET'' ''/users/7''"
      "text_response ''all''"]
  by (simp add: process_request_def try_body_def match_scan candidates_def start_ops_GET
      prefix_pattern_def string_eval text_response_def)

end
