(* ===== verification/Restipy_Body.thy ===== *)
theory Restipy_Body
  imports Restipy_Request
begin

text \<open>
  The body of a request, \<^verbatim>\<open>src/restipy/core/request.py\<close>: the property
  \<^verbatim>\<open>content_length\<close> and the conversion \<^verbatim>\<open>int(text)\<close> it rests on, the generator
  \<^verbatim>\<open>_read_body\<close>, the parsers \<^verbatim>\<open>_parse_json_data\<close>, \<^verbatim>\<open>_parse_url_encoded_form\<close>
  \<^verbatim>\<open>_parse_multipart_form\<close> and \<^verbatim>\<open>_parse_multipart_files\<close> with the properties
  \<^verbatim>\<open>json\<close>, \<^verbatim>\<open>form\<close> and \<^verbatim>\<open>files\<close> that call them, and the properties \<^verbatim>\<open>query\<close>
  and \<^verbatim>\<open>charset\<close>.

  The input stream of the environment is the text not read yet;
  \<^verbatim>\<open>input.read(n)\<close> takes up to \<open>n\<close> bytes from its front. Every caller of
  \<^verbatim>\<open>_read_body\<close> exhausts the generator, so the model returns the list of all
  chunks it yields, or the exception its first step raises. The decoders of
  the standard library (\<^verbatim>\<open>json.loads\<close>, \<^verbatim>\<open>bytes.decode\<close>, \<^verbatim>\<open>parse_qsl\<close>, the
  multipart parser of \<^verbatim>\<open>email\<close>) are parameters of the parsers, so every
  theorem holds for every decoder. Temporary files are named by a
  parameter, and the model lists the files a call writes.

  The lemmas show that the read loop terminates, loses no byte and stays
  within one chunk of the number of bytes it was asked for; that the limit
  is checked before anything is read, and that it does not bound what is
  read; which error each malformed input raises; and how the one cache
  behind \<^verbatim>\<open>json\<close> and \<^verbatim>\<open>form\<close> behaves.
\<close>

section \<open>Integers from text\<close>

text \<open>
  \<^verbatim>\<open>int(s)\<close> on ASCII text: white space around the literal is ignored, a
  sign may come first, and single underscores may separate digits.
\<close>

definition whitespace :: "char list" where
  "whitespace = [CHR 0x09, CHR 0x0A, CHR 0x0B, CHR 0x0C, CHR 0x0D,
                 CHR 0x1C, CHR 0x1D, CHR 0x1E, CHR 0x1F, CHR 0x20]"

definition strip :: "string \<Rightarrow> string" where
  "strip s = rev (dropWhile (\<lambda>c. c \<in> set whitespace)
                   (rev (dropWhile (\<lambda>c. c \<in> set whitespace) s)))"

definition digit_val :: "char \<Rightarrow> nat option" where
  "digit_val c = map_of (zip ''0123456789'' [0, 1, 2, 3, 4, 5, 6, 7, 8, 9]) c"

fun parse_digits :: "nat \<Rightarrow> string \<Rightarrow> nat option" where
  "parse_digits acc [] = Some acc"
| "parse_digits acc [c] = map_option (\<lambda>v. acc * 10 + v) (digit_val c)"
| "parse_digits acc (c # d # cs) =
     (if c = CHR ''_''
      then (case digit_val d of
              None \<Rightarrow> None
            | Some v \<Rightarrow> parse_digits (acc * 10 + v) cs)
      else (case digit_val c of
              None \<Rightarrow> None
            | Some v \<Rightarrow> parse_digits (acc * 10 + v) (d # cs)))"

definition parse_nat :: "string \<Rightarrow> nat option" where
  "parse_nat s =
     (case s of
        [] \<Rightarrow> None
      | c # cs \<Rightarrow> (case digit_val c of None \<Rightarrow> None | Some v \<Rightarrow> parse_digits v cs))"

definition ValueError :: "string \<Rightarrow> exn" where
  "ValueError s =
     Exception ''ValueError'' (''invalid literal for int() with base 10: '' @ quoted s)"

definition int_of_str :: "string \<Rightarrow> exn + int" where
  "int_of_str s =
     (let t = strip s;
          (neg, u) = (case t of
                        [] \<Rightarrow> (False, t)
                      | c # cs \<Rightarrow> if c = CHR ''-'' then (True, cs)
                                  else if c = CHR ''+'' then (False, cs) else (False, t))
      in case parse_nat u of
           None \<Rightarrow> Inl (ValueError s)
         | Some n \<Rightarrow> Inr (if neg then - int n else int n))"

text \<open>\<^verbatim>\<open>str(n)\<close> for a natural number.\<close>

definition digit_char :: "nat \<Rightarrow> char" where
  "digit_char d = ''0123456789'' ! d"

function digits_of :: "nat \<Rightarrow> string" where
  "digits_of n = (if n < 10 then [digit_char n] else digits_of (n div 10) @ [digit_char (n mod 10)])"
  by pat_completeness auto
termination
  by (relation "measure id") auto

declare digits_of.simps [simp del]

section \<open>Content length\<close>

text \<open>\<^verbatim>\<open>int(self.env.get('CONTENT_LENGTH', '0'))\<close>.\<close>

definition content_length :: "request \<Rightarrow> exn + int" where
  "content_length req = int_of_str (get_or (vars (env req)) ''CONTENT_LENGTH'' ''0'')"

section \<open>The read loop\<close>

definition CHUNK :: nat where
  "CHUNK = 64 * 1024"

text \<open>
  \<^verbatim>\<open>while readbytes < toread: chunk = input.read(64 * 1024); if not chunk: break;\<close>
  \<^verbatim>\<open>readbytes += len(chunk); yield chunk\<close>. The result is the chunks yielded
  and what is left of the stream.
\<close>

function read_chunks :: "int \<Rightarrow> int \<Rightarrow> string \<Rightarrow> string list \<times> string" where
  "read_chunks toread readbytes inp =
     (if readbytes < toread
      then (let chunk = take CHUNK inp
            in if chunk = [] then ([], inp)
               else (case read_chunks toread (readbytes + int (length chunk)) (drop CHUNK inp) of
                       (cs, rest) \<Rightarrow> (chunk # cs, rest)))
      else ([], inp))"
  by pat_completeness auto
termination
  by (relation "measure (\<lambda>(toread, readbytes, inp). length inp)") (auto simp: CHUNK_def)

declare read_chunks.simps [simp del]

section \<open>Reading the body\<close>

definition missing_max_body_size :: exn where
  "missing_max_body_size =
     HTTPException \<lparr>message = ''Missing MAX_BODY_SIZE in settings.'', status_code = 500,
                    code = ''MISSING_MAX_BODY_SIZE'', e_headers = []\<rparr>"

definition body_too_large :: exn where
  "body_too_large =
     HTTPException \<lparr>message = ''Request body too large.'', status_code = 413,
                    code = ''REQUEST_BODY_TOO_LARGE'', e_headers = []\<rparr>"

text \<open>
  \<^verbatim>\<open>self.app.config.MAX_BODY_SIZE\<close>: \<open>None\<close> when the environment has no
  application, the application has no configuration, or the configuration
  has no such attribute; the code catches all three alike.
\<close>

definition max_body_size :: "request \<Rightarrow> int option" where
  "max_body_size req =
     (case restipy_app (env req) of
        Some (Some cfg) \<Rightarrow> MAX_BODY_SIZE cfg
      | _ \<Rightarrow> None)"

definition has_body :: "request \<Rightarrow> bool" where
  "has_body req = (request_method req \<in> set [''POST'', ''PUT'', ''PATCH''])"

definition read_body :: "request \<Rightarrow> (exn + string list) \<times> request" where
  "read_body req =
     (if \<not> has_body req then (Inr [], req)
      else case content_length req of
             Inl e \<Rightarrow> (Inl e, req)
           | Inr len \<Rightarrow>
               (case max_body_size req of
                  None \<Rightarrow> (Inl missing_max_body_size, req)
                | Some limit \<Rightarrow>
                    if len > limit then (Inl body_too_large, req)
                    else (case wsgi_input (env req) of
                            None \<Rightarrow> (Inl (KeyError ''wsgi.input''), req)
                          | Some inp \<Rightarrow>
                              (case read_chunks (max len limit) 0 inp of
                                 (cs, rest) \<Rightarrow>
                                   (Inr cs, req\<lparr>env := (env req)\<lparr>wsgi_input := Some rest\<rparr>\<rparr>)))))"

section \<open>Truth values\<close>

text \<open>\<^verbatim>\<open>if self._form:\<close> on what the parsers store: the truth value of a JSON value.\<close>

fun truthy :: "jvalue \<Rightarrow> bool" where
  "truthy JNull = False"
| "truthy (JBool b) = b"
| "truthy (JInt i) = (i \<noteq> 0)"
| "truthy (JStr s) = (s \<noteq> [])"
| "truthy (JList xs) = (xs \<noteq> [])"
| "truthy (JDict kvs) = (kvs \<noteq> [])"

text \<open>What a method returns when it returns \<^verbatim>\<open>self._form\<close> only if it is true.\<close>

definition if_truthy :: "jvalue \<Rightarrow> jvalue option" where
  "if_truthy v = (if truthy v then Some v else None)"

section \<open>The JSON body\<close>

text \<open>\<^verbatim>\<open>self.content_type.lower().split(';')[0]\<close>.\<close>

definition media_type :: "request \<Rightarrow> string" where
  "media_type req = takeWhile (\<lambda>c. c \<noteq> CHR '';'') (lower (content_type req))"

definition malformed_json :: exn where
  "malformed_json =
     HTTPException \<lparr>message = ''Malformed JSON body.'', status_code = 400,
                    code = ''INVALID_REQUEST_BODY'', e_headers = []\<rparr>"

text \<open>
  \<^verbatim>\<open>_parse_json_data\<close>. The decoder \<open>loads\<close> stands for
  \<^verbatim>\<open>json.loads(body.decode())\<close>: \<open>None\<close> when either call raises. The result
  is the value the method returns, \<open>None\<close> for Python's \<^verbatim>\<open>None\<close>.
\<close>

definition parse_json_data ::
  "(string \<Rightarrow> jvalue option) \<Rightarrow> request \<Rightarrow> (exn + jvalue option) \<times> request" where
  "parse_json_data loads req =
     (if truthy (p_form req) then (Inr (Some (p_form req)), req)
      else if media_type req \<notin> set [''application/json'', ''application/json-rpc'']
      then (Inr None, req)
      else case read_body req of
             (Inl e, req') \<Rightarrow> (Inl e, req')
           | (Inr chunks, req') \<Rightarrow>
               (let body = concat chunks
                in if body = [] then (Inr None, req')
                   else case loads body of
                          None \<Rightarrow> (Inl malformed_json, req')
                        | Some v \<Rightarrow> (Inr (Some v), req'\<lparr>p_form := v\<rparr>)))"

definition json :: "(string \<Rightarrow> jvalue option) \<Rightarrow> request \<Rightarrow> (exn + jvalue option) \<times> request" where
  "json loads req = parse_json_data loads req"

section \<open>Forms\<close>

definition invalid_body :: exn where
  "invalid_body =
     HTTPException \<lparr>message = ''Invalid request body.'', status_code = 400,
                    code = ''INVALID_REQUEST_BODY'', e_headers = []\<rparr>"

text \<open>\<^verbatim>\<open>dict(pairs)\<close>: a key keeps the place of its first pair and the value of its last.\<close>

definition dict_of :: "(string \<times> string) list \<Rightarrow> jvalue" where
  "dict_of pairs = JDict (dict_update [] (map (\<lambda>(k, v). (k, JStr v)) pairs))"

text \<open>
  \<^verbatim>\<open>_parse_url_encoded_form\<close>. \<open>decode\<close> stands for \<^verbatim>\<open>bytes.decode\<close> (\<open>None\<close> when
  it raises) and \<open>parse_qsl\<close> for \<^verbatim>\<open>urllib.parse.parse_qsl\<close>.
\<close>

definition parse_url_encoded_form ::
  "(string \<Rightarrow> string option) \<Rightarrow> (string \<Rightarrow> (string \<times> string) list) \<Rightarrow> request
     \<Rightarrow> (exn + jvalue option) \<times> request" where
  "parse_url_encoded_form decode parse_qsl req =
     (if truthy (p_form req) then (Inr (Some (p_form req)), req)
      else case read_body req of
             (Inl e, req') \<Rightarrow> (Inl e, req')
           | (Inr chunks, req') \<Rightarrow>
               (case decode (concat chunks) of
                  None \<Rightarrow> (Inl invalid_body, req')
                | Some decoded \<Rightarrow>
                    (Inr (if_truthy (dict_of (parse_qsl decoded))),
                     req'\<lparr>p_form := dict_of (parse_qsl decoded)\<rparr>)))"

text \<open>
  A part of a multipart message, as the methods of \<^verbatim>\<open>email.message\<close> show it:
  \<^verbatim>\<open>get_filename()\<close>, the \<^verbatim>\<open>name\<close> parameter of its disposition,
  \<^verbatim>\<open>get_content_type()\<close> and its decoded payload.
\<close>

record part =
  part_filename :: "string option"
  part_name :: string
  part_content_type :: string
  payload :: string

definition is_file :: "part \<Rightarrow> bool" where
  "is_file p = (case part_filename p of None \<Rightarrow> False | Some f \<Rightarrow> f \<noteq> [])"

text \<open>\<^verbatim>\<open>self._form[name] = payload\<close>: only a dictionary takes a string key.\<close>

definition type_name :: "jvalue \<Rightarrow> string" where
  "type_name v =
     (case v of JNull \<Rightarrow> ''NoneType'' | JBool b \<Rightarrow> ''bool'' | JInt i \<Rightarrow> ''int''
      | JStr s \<Rightarrow> ''str'' | JList xs \<Rightarrow> ''list'' | JDict kvs \<Rightarrow> ''dict'')"

definition setitem :: "jvalue \<Rightarrow> string \<Rightarrow> jvalue \<Rightarrow> exn + jvalue" where
  "setitem d k v =
     (case d of
        JDict kvs \<Rightarrow> Inr (JDict (AList.update k v kvs))
      | JList xs \<Rightarrow>
          Inl (Exception ''TypeError'' ''list indices must be integers or slices, not str'')
      | _ \<Rightarrow>
          Inl (Exception ''TypeError''
                 (quoted (type_name d) @ '' object does not support item assignment'')))"

text \<open>The loop over the parts of \<^verbatim>\<open>_parse_multipart_form\<close>.\<close>

fun store_fields :: "part list \<Rightarrow> jvalue \<Rightarrow> exn + jvalue" where
  "store_fields [] form = Inr form"
| "store_fields (p # ps) form =
     (if is_file p then store_fields ps form
      else case setitem form (part_name p) (JStr (payload p)) of
             Inl e \<Rightarrow> Inl e
           | Inr form' \<Rightarrow> store_fields ps form')"

text \<open>
  \<^verbatim>\<open>_get_multipart_message\<close>. The parser \<open>parts_of\<close> stands for
  \<^verbatim>\<open>email.parser.BytesFeedParser\<close> fed with the content type and the chunks,
  and for \<^verbatim>\<open>is_multipart\<close> and \<^verbatim>\<open>iter_parts\<close> on its result: \<open>None\<close> when the
  message is not multipart, else its parts.
\<close>

definition get_multipart_message ::
  "(string \<Rightarrow> string \<Rightarrow> part list option) \<Rightarrow> request
     \<Rightarrow> (exn + part list option) \<times> request" where
  "get_multipart_message parts_of req =
     (case read_body req of
        (Inl e, req') \<Rightarrow> (Inl e, req')
      | (Inr chunks, req') \<Rightarrow> (Inr (parts_of (content_type req) (concat chunks)), req'))"

text \<open>\<^verbatim>\<open>_parse_multipart_form\<close>.\<close>

definition parse_multipart_form ::
  "(string \<Rightarrow> string \<Rightarrow> part list option) \<Rightarrow> request \<Rightarrow> (exn + jvalue option) \<times> request" where
  "parse_multipart_form parts_of req =
     (if truthy (p_form req) then (Inr (Some (p_form req)), req)
      else case get_multipart_message parts_of req of
             (Inl e, req') \<Rightarrow> (Inl e, req')
           | (Inr None, req') \<Rightarrow> (Inr None, req')
           | (Inr (Some ps), req') \<Rightarrow>
               (case store_fields ps (p_form req') of
                  Inl e \<Rightarrow> (Inl e, req')
                | Inr form' \<Rightarrow> (Inr (if_truthy form'), req'\<lparr>p_form := form'\<rparr>)))"

text \<open>
  The loop over the parts of \<^verbatim>\<open>_parse_multipart_files\<close>. Every part with a
  file name is copied to a new temporary file and entered under its name.
  \<open>tmp\<close> names the temporary files in the order of their creation; the
  second component of the result lists the files written, with their
  content.
\<close>

fun store_files ::
  "(nat \<Rightarrow> string) \<Rightarrow> nat \<Rightarrow> part list \<Rightarrow> (string \<times> uploaded_file) list
     \<Rightarrow> (string \<times> uploaded_file) list \<times> (string \<times> string) list" where
  "store_files tmp n [] files = (files, [])"
| "store_files tmp n (p # ps) files =
     (case part_filename p of
        None \<Rightarrow> store_files tmp n ps files
      | Some f \<Rightarrow>
          if f = [] then store_files tmp n ps files
          else (case store_files tmp (Suc n) ps
                       (AList.update (part_name p)
                          \<lparr>filename = f, file_content_type = part_content_type p,
                           filepath = tmp n\<rparr> files) of
                  (files', written) \<Rightarrow> (files', (tmp n, payload p) # written)))"

text \<open>\<^verbatim>\<open>_parse_multipart_files\<close> and the property \<^verbatim>\<open>files\<close>.\<close>

definition parse_multipart_files ::
  "(nat \<Rightarrow> string) \<Rightarrow> (string \<Rightarrow> string \<Rightarrow> part list option) \<Rightarrow> request
     \<Rightarrow> (exn + (string \<times> uploaded_file) list option) \<times> request \<times> (string \<times> string) list" where
  "parse_multipart_files tmp parts_of req =
     (if p_files req \<noteq> [] then (Inr (Some (p_files req)), req, [])
      else case get_multipart_message parts_of req of
             (Inl e, req') \<Rightarrow> (Inl e, req', [])
           | (Inr None, req') \<Rightarrow> (Inr None, req', [])
           | (Inr (Some ps), req') \<Rightarrow>
               (case store_files tmp 0 ps (p_files req') of
                  (files', written) \<Rightarrow>
                    (Inr (if files' = [] then None else Some files'),
                     req'\<lparr>p_files := files'\<rparr>, written)))"

definition files ::
  "(nat \<Rightarrow> string) \<Rightarrow> (string \<Rightarrow> string \<Rightarrow> part list option) \<Rightarrow> request
     \<Rightarrow> (exn + (string \<times> uploaded_file) list option) \<times> request \<times> (string \<times> string) list" where
  "files tmp parts_of req = parse_multipart_files tmp parts_of req"

text \<open>The property \<^verbatim>\<open>form\<close>.\<close>

definition form ::
  "(string \<Rightarrow> string option) \<Rightarrow> (string \<Rightarrow> (string \<times> string) list)
     \<Rightarrow> (string \<Rightarrow> string \<Rightarrow> part list option) \<Rightarrow> request
     \<Rightarrow> (exn + jvalue option) \<times> request" where
  "form decode parse_qsl parts_of req =
     (if startswith (content_type req) ''multipart/'' then parse_multipart_form parts_of req
      else parse_url_encoded_form decode parse_qsl req)"

section \<open>Query and character set\<close>

text \<open>The property \<^verbatim>\<open>query\<close>.\<close>

definition query :: "(string \<Rightarrow> (string \<times> string) list) \<Rightarrow> request \<Rightarrow> jvalue option" where
  "query parse_qsl req =
     (case vars (env req) ''QUERY_STRING'' of
        None \<Rightarrow> None
      | Some qs \<Rightarrow> Some (dict_of (parse_qsl qs)))"

text \<open>\<^verbatim>\<open>s.split(sep)\<close> for a separator of one character, and \<^verbatim>\<open>needle in s\<close>.\<close>

fun split_on :: "char \<Rightarrow> string \<Rightarrow> string list" where
  "split_on sep [] = [[]]"
| "split_on sep (c # cs) =
     (if c = sep then [] # split_on sep cs
      else (case split_on sep cs of
              [] \<Rightarrow> [[c]]
            | p # ps \<Rightarrow> (c # p) # ps))"

fun contains :: "string \<Rightarrow> string \<Rightarrow> bool" where
  "contains [] needle = (needle = [])"
| "contains (c # cs) needle = (startswith (c # cs) needle \<or> contains cs needle)"

text \<open>
  The property \<^verbatim>\<open>charset\<close>: the first part of the content type that
  contains \<^verbatim>\<open>charset=\<close> decides, and the answer is what stands between its
  first and its second \<^verbatim>\<open>=\<close>, stripped.
\<close>

definition charset :: "request \<Rightarrow> string option" where
  "charset req =
     (case find (\<lambda>p. contains p ''charset='') (split_on CHR '';'' (content_type req)) of
        None \<Rightarrow> None
      | Some p \<Rightarrow>
          (case split_on CHR ''='' p of
             a # b # rest \<Rightarrow> Some (strip b)
           | _ \<Rightarrow> None))"

lemmas body_defs [restipy_defs] =
  strip_def digit_val_def parse_nat_def ValueError_def int_of_str_def whitespace_def
  digit_char_def content_length_def missing_max_body_size_def body_too_large_def
  max_body_size_def has_body_def read_body_def if_truthy_def media_type_def
  malformed_json_def parse_json_data_def json_def invalid_body_def dict_of_def
  parse_url_encoded_form_def is_file_def type_name_def setitem_def
  get_multipart_message_def parse_multipart_form_def parse_multipart_files_def files_def
  form_def query_def charset_def

section \<open>Facts about integers from text\<close>

lemma digit_val_char [simp]: "d < 10 \<Longrightarrow> digit_val (digit_char d) = Some d"
proof -
  assume "d < 10"
  then have "d \<in> {0, 1, 2, 3, 4, 5, 6, 7, 8, 9}" by auto
  then show ?thesis by (auto simp: digit_val_def digit_char_def)
qed

lemma digit_val_Some: "digit_val c = Some v \<Longrightarrow> v < 10 \<and> c = digit_char v"
  by (auto simp: digit_val_def digit_char_def split: if_splits)

lemma digit_char_plain [simp]:
  "d < 10 \<Longrightarrow> digit_char d \<notin> set whitespace"
  "d < 10 \<Longrightarrow> digit_char d \<noteq> CHR ''-''" "d < 10 \<Longrightarrow> digit_char d \<noteq> CHR ''+''"
  "d < 10 \<Longrightarrow> digit_char d \<noteq> CHR ''_''"
  using digit_val_char [of d] by (auto simp: digit_val_def whitespace_def split: if_splits)

lemma digit_val_not_underscore: "digit_val c = Some v \<Longrightarrow> c \<noteq> CHR ''_''"
  by (auto simp: digit_val_def)

lemma parse_digits_snoc:
  assumes "\<forall>c \<in> set xs. digit_val c \<noteq> None" and "d < 10"
  shows "parse_digits acc (xs @ [digit_char d]) =
         map_option (\<lambda>a. a * 10 + d) (parse_digits acc xs)"
  using assms
proof (induction acc xs rule: parse_digits.induct)
  case (1 acc)
  then show ?case by simp
next
  case (2 acc c)
  then obtain v where v: "digit_val c = Some v" by auto
  then have "c \<noteq> CHR ''_''" by (rule digit_val_not_underscore)
  with v 2 show ?case by simp
next
  case (3 acc c d' cs)
  then obtain v where v: "digit_val c = Some v" by auto
  then have "c \<noteq> CHR ''_''" by (rule digit_val_not_underscore)
  with v 3 show ?case by (cases cs) auto
qed

lemma digits_of_digits: "\<forall>c \<in> set (digits_of n). digit_val c \<noteq> None"
  by (induction n rule: digits_of.induct) (subst digits_of.simps, auto)

lemma digits_of_nonempty [simp]: "digits_of n \<noteq> []"
  by (subst digits_of.simps) simp

lemma parse_digits_digits_of:
  "parse_digits acc (digits_of n) = Some (acc * 10 ^ length (digits_of n) + n)"
proof (induction n arbitrary: acc rule: digits_of.induct)
  case (1 n)
  show ?case
  proof (cases "n < 10")
    case True
    then show ?thesis by (subst (1 2) digits_of.simps) simp
  next
    case False
    then have "parse_digits acc (digits_of n) =
        map_option (\<lambda>a. a * 10 + n mod 10) (parse_digits acc (digits_of (n div 10)))"
      by (subst digits_of.simps) (simp add: parse_digits_snoc digits_of_digits)
    also have "\<dots> = Some ((acc * 10 ^ length (digits_of (n div 10)) + n div 10) * 10 + n mod 10)"
      using False by (simp add: 1)
    also have "\<dots> = Some (acc * 10 ^ length (digits_of n) + n)"
      using False by (subst (2) digits_of.simps) (simp add: algebra_simps)
    finally show ?thesis .
  qed
qed

lemma strip_plain: "\<forall>c \<in> set s. c \<notin> set whitespace \<Longrightarrow> strip s = s"
proof -
  assume a: "\<forall>c \<in> set s. c \<notin> set whitespace"
  then have "dropWhile (\<lambda>c. c \<in> set whitespace) s = s"
    by (cases s) auto
  moreover from a have "dropWhile (\<lambda>c. c \<in> set whitespace) (rev s) = rev s"
    by (cases "rev s") (auto simp: rev_eq_Cons_iff)
  ultimately show ?thesis by (simp add: strip_def)
qed

lemma parse_nat_digits:
  assumes "digit_val c \<noteq> None"
  shows "parse_nat (c # cs) = parse_digits 0 (c # cs)"
proof -
  from assms obtain v where v: "digit_val c = Some v" by auto
  then have "c \<noteq> CHR ''_''" by (rule digit_val_not_underscore)
  with v show ?thesis by (cases cs) (simp_all add: parse_nat_def)
qed

lemma parse_nat_digits_of [simp]: "parse_nat (digits_of n) = Some n"
proof -
  obtain c cs where eq: "digits_of n = c # cs"
    by (cases "digits_of n") simp_all
  with digits_of_digits [of n] have "digit_val c \<noteq> None" by simp
  then have "parse_nat (digits_of n) = parse_digits 0 (digits_of n)"
    unfolding eq by (rule parse_nat_digits)
  then show ?thesis by (simp add: parse_digits_digits_of)
qed

lemma digits_of_plain:
  "\<forall>c \<in> set (digits_of n). c \<notin> set whitespace \<and> c \<noteq> CHR ''-'' \<and> c \<noteq> CHR ''+''"
proof
  fix c assume "c \<in> set (digits_of n)"
  with digits_of_digits [of n] obtain v where "digit_val c = Some v" by auto
  then have "v < 10" and "c = digit_char v" by (auto dest: digit_val_Some)
  then show "c \<notin> set whitespace \<and> c \<noteq> CHR ''-'' \<and> c \<noteq> CHR ''+''" by simp
qed

lemma int_of_str_digits_of: "int_of_str (digits_of n) = Inr (int n)"
proof -
  obtain c cs where eq: "digits_of n = c # cs"
    by (cases "digits_of n") simp_all
  with digits_of_plain [of n] have "c \<noteq> CHR ''-''" and "c \<noteq> CHR ''+''" by simp_all
  moreover have "strip (digits_of n) = digits_of n"
    using digits_of_plain [of n] by (simp add: strip_plain)
  moreover have "parse_nat (c # cs) = Some n"
    using parse_nat_digits_of [of n] by (simp add: eq)
  ultimately show ?thesis
    by (simp add: int_of_str_def eq)
qed

lemma int_of_str_minus: "int_of_str (CHR ''-'' # digits_of n) = Inr (- int n)"
proof -
  have "strip (CHR ''-'' # digits_of n) = CHR ''-'' # digits_of n"
    using digits_of_plain [of n] by (intro strip_plain) (auto simp: whitespace_def)
  then show ?thesis by (simp add: int_of_str_def)
qed

lemma int_of_str_empty: "int_of_str [] = Inl (ValueError [])"
  by (simp add: int_of_str_def strip_def parse_nat_def)

section \<open>Facts about the read loop\<close>

lemma read_chunks_stop [simp]: "toread \<le> readbytes \<Longrightarrow> read_chunks toread readbytes inp = ([], inp)"
  by (subst read_chunks.simps) simp

lemma read_chunks_eof [simp]: "read_chunks toread readbytes [] = ([], [])"
  by (subst read_chunks.simps) simp

lemma read_chunks_step:
  "readbytes < toread \<Longrightarrow> inp \<noteq> [] \<Longrightarrow>
     read_chunks toread readbytes inp =
       (take CHUNK inp # fst (read_chunks toread (readbytes + int (min (length inp) CHUNK)) (drop CHUNK inp)),
        snd (read_chunks toread (readbytes + int (min (length inp) CHUNK)) (drop CHUNK inp)))"
  by (subst read_chunks.simps) (simp add: CHUNK_def split: prod.splits)

lemma read_chunks_concat:
  "concat (fst (read_chunks toread readbytes inp)) @ snd (read_chunks toread readbytes inp) = inp"
proof (induction toread readbytes inp rule: read_chunks.induct)
  case (1 toread readbytes inp)
  show ?case
  proof (cases "readbytes < toread \<and> inp \<noteq> []")
    case True
    then have "take CHUNK inp \<noteq> []" by (simp add: CHUNK_def)
    with True 1 show ?thesis by (simp add: read_chunks_step)
  next
    case False
    then show ?thesis by (cases "inp = []") (simp_all add: not_less)
  qed
qed

lemma read_chunks_chunks:
  "set (fst (read_chunks toread readbytes inp)) \<subseteq> {c. c \<noteq> [] \<and> length c \<le> CHUNK}"
proof (induction toread readbytes inp rule: read_chunks.induct)
  case (1 toread readbytes inp)
  show ?case
  proof (cases "readbytes < toread \<and> inp \<noteq> []")
    case True
    then have "take CHUNK inp \<noteq> []" by (simp add: CHUNK_def)
    with True 1 show ?thesis by (simp add: read_chunks_step)
  next
    case False
    then show ?thesis by (cases "inp = []") (simp_all add: not_less)
  qed
qed

lemma read_chunks_short:
  "readbytes < toread \<Longrightarrow> inp \<noteq> [] \<Longrightarrow> length inp \<le> CHUNK \<Longrightarrow>
     read_chunks toread readbytes inp = ([inp], [])"
  by (simp add: read_chunks_step)


lemma read_chunks_lower:
  "toread - readbytes \<le> int (length inp) \<Longrightarrow>
     toread - readbytes \<le> int (length (concat (fst (read_chunks toread readbytes inp))))"
proof (induction toread readbytes inp rule: read_chunks.induct)
  case (1 toread readbytes inp)
  show ?case
  proof (cases "readbytes < toread \<and> inp \<noteq> []")
    case True
    then have ne: "take CHUNK inp \<noteq> []" by (simp add: CHUNK_def)
    show ?thesis
    proof (cases "CHUNK \<le> length inp")
      case long: True
      have IH: "toread - (readbytes + int (length (take CHUNK inp)))
          \<le> int (length (concat (fst (read_chunks toread (readbytes + int (length (take CHUNK inp)))
               (drop CHUNK inp)))))"
        if "toread - (readbytes + int (length (take CHUNK inp))) \<le> int (length (drop CHUNK inp))"
        using True ne that by (intro 1) simp_all
      from long "1.prems"
      have "toread - (readbytes + int (length (take CHUNK inp))) \<le> int (length (drop CHUNK inp))"
        by (simp add: min_absorb2 of_nat_diff)
      then show ?thesis
        using IH True long by (simp add: read_chunks_step min_absorb2)
    next
      case False
      with True "1.prems" show ?thesis
        by (simp add: read_chunks_step min_absorb1)
    qed
  next
    case False
    with "1.prems" show ?thesis by (cases "inp = []") (simp_all add: not_less)
  qed
qed

lemma read_chunks_all:
  "int (length inp) \<le> toread - readbytes \<Longrightarrow>
     concat (fst (read_chunks toread readbytes inp)) = inp"
proof (induction toread readbytes inp rule: read_chunks.induct)
  case (1 toread readbytes inp)
  show ?case
  proof (cases "inp = []")
    case True
    then show ?thesis by simp
  next
    case False
    with "1.prems" have lt: "readbytes < toread" by (cases inp) auto
    from False have ne: "take CHUNK inp \<noteq> []" by (simp add: CHUNK_def)
    have "concat (fst (read_chunks toread (readbytes + int (length (take CHUNK inp)))
            (drop CHUNK inp))) = drop CHUNK inp"
      using lt ne "1.prems" by (intro 1) auto
    with lt False show ?thesis by (simp add: read_chunks_step)
  qed
qed

section \<open>One equation per branch of \<open>read_body\<close>\<close>


lemma read_body_bad_length [restipy_branch]:
  "has_body req \<Longrightarrow> content_length req = Inl e \<Longrightarrow> read_body req = (Inl e, req)"
  by (simp add: read_body_def)

lemma read_body_no_limit [restipy_branch]:
  "has_body req \<Longrightarrow> content_length req = Inr len \<Longrightarrow> max_body_size req = None \<Longrightarrow>
     read_body req = (Inl missing_max_body_size, req)"
  by (simp add: read_body_def)

lemma read_body_over [restipy_branch]:
  "has_body req \<Longrightarrow> content_length req = Inr len \<Longrightarrow> max_body_size req = Some limit \<Longrightarrow>
   limit < len \<Longrightarrow> read_body req = (Inl body_too_large, req)"
  by (simp add: read_body_def)

lemma read_body_no_input [restipy_branch]:
  "has_body req \<Longrightarrow> content_length req = Inr len \<Longrightarrow> max_body_size req = Some limit \<Longrightarrow>
   len \<le> limit \<Longrightarrow> wsgi_input (env req) = None \<Longrightarrow>
     read_body req = (Inl (KeyError ''wsgi.input''), req)"
  by (simp add: read_body_def)

lemma read_body_ok [restipy_branch]:
  "has_body req \<Longrightarrow> content_length req = Inr len \<Longrightarrow> max_body_size req = Some limit \<Longrightarrow>
   len \<le> limit \<Longrightarrow> wsgi_input (env req) = Some inp \<Longrightarrow>
     read_body req =
       (Inr (fst (read_chunks limit 0 inp)),
        req\<lparr>env := (env req)\<lparr>wsgi_input := Some (snd (read_chunks limit 0 inp))\<rparr>\<rparr>)"
  by (simp add: read_body_def max_absorb2 split: prod.splits)

text \<open>What a successful read of a request with a body went through.\<close>

lemma read_body_Inr:
  assumes "read_body req = (Inr chunks, req')" and "has_body req"
  obtains len limit inp where "content_length req = Inr len" and "max_body_size req = Some limit"
    and "len \<le> limit" and "wsgi_input (env req) = Some inp"
    and "chunks = fst (read_chunks limit 0 inp)"
    and "req' = req\<lparr>env := (env req)\<lparr>wsgi_input := Some (snd (read_chunks limit 0 inp))\<rparr>\<rparr>"
  using assms
  by (auto simp: read_body_def max_absorb2 split: sum.splits option.splits if_splits prod.splits)

text \<open>Reading changes nothing but the input stream.\<close>

lemma read_body_frame:
  assumes "read_body req = (r, req')"
  shows "vars (env req') = vars (env req)" and "restipy_app (env req') = restipy_app (env req)"
    and "wsgi_errors (env req') = wsgi_errors (env req)"
    and "p_form req' = p_form req" and "p_params req' = p_params req" and "ctx req' = ctx req"
  using assms
  by (auto simp: read_body_def split: sum.splits option.splits if_splits prod.splits)

lemma read_body_reads:
  assumes "read_body req = (r, req')"
  shows "content_type req' = content_type req" and "request_method req' = request_method req"
    and "has_body req' = has_body req" and "content_length req' = content_length req"
    and "max_body_size req' = max_body_size req"
  using read_body_frame [OF assms]
  by (simp_all add: content_type_def request_method_def has_body_def content_length_def
      max_body_size_def)

section \<open>Facts about the parsers\<close>

lemma parse_json_data_cached [restipy_branch]:
  "truthy (p_form req) \<Longrightarrow> parse_json_data loads req = (Inr (Some (p_form req)), req)"
  by (simp add: parse_json_data_def)

lemma parse_json_data_other_type [restipy_branch]:
  "\<not> truthy (p_form req) \<Longrightarrow>
   media_type req \<notin> set [''application/json'', ''application/json-rpc''] \<Longrightarrow>
     parse_json_data loads req = (Inr None, req)"
  by (simp add: parse_json_data_def)

lemma parse_json_data_read [restipy_branch]:
  "\<not> truthy (p_form req) \<Longrightarrow>
   media_type req \<in> set [''application/json'', ''application/json-rpc''] \<Longrightarrow>
   read_body req = (Inr chunks, req') \<Longrightarrow>
     parse_json_data loads req =
       (if concat chunks = [] then (Inr None, req')
        else case loads (concat chunks) of
               None \<Rightarrow> (Inl malformed_json, req')
             | Some v \<Rightarrow> (Inr (Some v), req'\<lparr>p_form := v\<rparr>))"
  by (simp add: parse_json_data_def Let_def)

lemma parse_json_data_raise [restipy_branch]:
  "\<not> truthy (p_form req) \<Longrightarrow>
   media_type req \<in> set [''application/json'', ''application/json-rpc''] \<Longrightarrow>
   read_body req = (Inl e, req') \<Longrightarrow> parse_json_data loads req = (Inl e, req')"
  by (simp add: parse_json_data_def)

lemma media_type_frame [simp]:
  "media_type (req\<lparr>p_form := v\<rparr>) = media_type req"
  "media_type (req\<lparr>env := (env req)\<lparr>wsgi_input := i\<rparr>\<rparr>) = media_type req"
  by (simp_all add: media_type_def content_type_def)

lemma setitem_dict [simp]: "setitem (JDict kvs) k v = Inr (JDict (AList.update k v kvs))"
  by (simp add: setitem_def)

lemma split_on_none: "sep \<notin> set xs \<Longrightarrow> split_on sep xs = [xs]"
  by (induction xs) auto

lemma split_on_first:
  "sep \<notin> set xs \<Longrightarrow> split_on sep (xs @ sep # ys) = xs # split_on sep ys"
  by (induction xs) auto

lemma startswith_set: "startswith s needle \<Longrightarrow> set needle \<subseteq> set s"
  unfolding startswith_def using set_take_subset [of "length needle" s] by auto

lemma contains_set: "contains s needle \<Longrightarrow> set needle \<subseteq> set s"
proof (induction s)
  case Nil
  then show ?case by simp
next
  case (Cons a s)
  then show ?case using startswith_set [of "a # s" needle] by auto
qed

lemma charset_of_parts:
  assumes "split_on CHR '';'' (content_type req) = [mt, p]"
    and "\<not> contains mt ''charset=''" and "contains p ''charset=''"
    and "split_on CHR ''='' p = [k, v]"
  shows "charset req = Some (strip v)"
  using assms by (simp add: charset_def)

lemma contains_startswith: "startswith s needle \<Longrightarrow> contains s needle"
  by (cases s) (auto simp: startswith_def)

lemma contains_append: "contains (pre @ needle @ post) needle"
  by (induction pre) (simp_all add: contains_startswith startswith_def)

section \<open>Facts about uploaded files\<close>

text \<open>One temporary file is written for every part with a file name, in order.\<close>

lemma store_files_skip [simp]:
  "\<not> is_file p \<Longrightarrow> store_files tmp n (p # ps) fs = store_files tmp n ps fs"
  by (auto simp: is_file_def split: option.splits)

lemma store_files_file:
  assumes "is_file p"
  shows "\<exists>f. part_filename p = Some f \<and> f \<noteq> [] \<and>
    store_files tmp n (p # ps) fs =
      (fst (store_files tmp (Suc n) ps
              (AList.update (part_name p)
                 \<lparr>filename = f, file_content_type = part_content_type p, filepath = tmp n\<rparr> fs)),
       (tmp n, payload p) #
       snd (store_files tmp (Suc n) ps
              (AList.update (part_name p)
                 \<lparr>filename = f, file_content_type = part_content_type p, filepath = tmp n\<rparr> fs)))"
  using assms by (auto simp: is_file_def split: option.splits prod.splits)

declare store_files.simps(2) [simp del]

lemma store_files_written:
  "map snd (snd (store_files tmp n ps fs)) = map payload (filter is_file ps)"
proof (induction ps arbitrary: n fs)
  case Nil
  show ?case by simp
next
  case (Cons p ps)
  show ?case
  proof (cases "is_file p")
    case True
    from store_files_file [OF True, of tmp n ps fs] True Cons show ?thesis
      by auto
  next
    case False
    with Cons show ?thesis by simp
  qed
qed

lemma store_files_paths:
  "map fst (snd (store_files tmp n ps fs)) = map tmp [n ..< n + length (filter is_file ps)]"
proof (induction ps arbitrary: n fs)
  case Nil
  show ?case by simp
next
  case (Cons p ps)
  show ?case
  proof (cases "is_file p")
    case True
    have "[n ..< n + Suc (length (filter is_file ps))] =
        n # [Suc n ..< Suc n + length (filter is_file ps)]"
      by (subst upt_rec) simp
    with store_files_file [OF True, of tmp n ps fs] True Cons show ?thesis
      by auto
  next
    case False
    with Cons show ?thesis by simp
  qed
qed

text \<open>The names entered are the old names and the names of the parts with a file name.\<close>

lemma store_files_names:
  "fst ` set (fst (store_files tmp n ps fs)) = fst ` set fs \<union> part_name ` set (filter is_file ps)"
proof (induction ps arbitrary: n fs)
  case Nil
  show ?case by simp
next
  case (Cons p ps)
  show ?case
  proof (cases "is_file p")
    case True
    from store_files_file [OF True, of tmp n ps fs] obtain f
      where "store_files tmp n (p # ps) fs =
        (fst (store_files tmp (Suc n) ps
                (AList.update (part_name p)
                   \<lparr>filename = f, file_content_type = part_content_type p, filepath = tmp n\<rparr> fs)),
         (tmp n, payload p) #
         snd (store_files tmp (Suc n) ps
                (AList.update (part_name p)
                   \<lparr>filename = f, file_content_type = part_content_type p, filepath = tmp n\<rparr> fs)))"
      by blast
    then have eq: "fst (store_files tmp n (p # ps) fs) =
        fst (store_files tmp (Suc n) ps
               (AList.update (part_name p)
                  \<lparr>filename = f, file_content_type = part_content_type p, filepath = tmp n\<rparr> fs))"
      by simp
    have upd: "fst ` set (AList.update (part_name p)
          \<lparr>filename = f, file_content_type = part_content_type p, filepath = tmp n\<rparr> fs) =
        insert (part_name p) (fst ` set fs)"
      by (simp add: dom_update)
    have "fst ` set (fst (store_files tmp n (p # ps) fs)) =
        insert (part_name p) (fst ` set fs) \<union> part_name ` set (filter is_file ps)"
      unfolding eq upd [symmetric] by (rule Cons)
    with True upd show ?thesis by auto
  next
    case False
    with Cons show ?thesis by simp
  qed
qed

lemma store_files_no_file:
  "\<forall>p \<in> set ps. \<not> is_file p \<Longrightarrow> store_files tmp n ps fs = (fs, [])"
  by (induction ps) simp_all

lemma parse_multipart_files_cached [restipy_branch]:
  "p_files req \<noteq> [] \<Longrightarrow>
     parse_multipart_files tmp parts_of req = (Inr (Some (p_files req)), req, [])"
  by (simp add: parse_multipart_files_def)

text \<open>
  The stream is read once: when the form of a multipart request has been
  read and the stream is exhausted, and the parser finds no parts in an
  empty body, \<open>files\<close> returns \<^verbatim>\<open>None\<close> and writes nothing, whatever files
  the request carried.
\<close>

lemma files_after_stream_exhausted:
  assumes "p_files req = []" and "read_body req = (Inr [], req')"
    and "parts_of (content_type req) [] = None"
  shows "files tmp parts_of req = (Inr None, req', [])"
  using assms by (simp add: files_def parse_multipart_files_def get_multipart_message_def)

section \<open>A worked request\<close>

text \<open>
  A request with the given method, content type, declared length, body limit
  and input stream, for running the theorems below on concrete inputs.
\<close>

definition body_settings :: "int \<Rightarrow> settings" where
  "body_settings limit =
     \<lparr>DEBUG = Some False, MAX_BODY_SIZE = Some limit, VIEWS = [], MIDDLEWARES = []\<rparr>"

definition body_request :: "string \<Rightarrow> string \<Rightarrow> string \<Rightarrow> int \<Rightarrow> string \<Rightarrow> request" where
  "body_request m ctype len limit inp =
     Request \<lparr>vars = [''REQUEST_METHOD'' \<mapsto> m, ''CONTENT_TYPE'' \<mapsto> ctype,
                      ''CONTENT_LENGTH'' \<mapsto> len],
              wsgi_input = Some inp, wsgi_errors = Some [],
              restipy_app = Some (Some (body_settings limit))\<rparr> Map.empty"

lemma body_request_reads [simp]:
  "request_method (body_request m ctype len limit inp) = upper m"
  "content_type (body_request m ctype len limit inp) = ctype"
  "content_length (body_request m ctype len limit inp) = int_of_str len"
  "max_body_size (body_request m ctype len limit inp) = Some limit"
  "wsgi_input (env (body_request m ctype len limit inp)) = Some inp"
  "p_form (body_request m ctype len limit inp) = JDict []"
  "vars (env (body_request m ctype len limit inp)) ''CONTENT_LENGTH'' = Some len"
  by (simp_all add: body_request_def body_settings_def request_method_def content_type_def
      content_length_def max_body_size_def)

lemma body_request_drain [simp]:
  "(body_request m ctype len limit inp)
     \<lparr>env := (env (body_request m ctype len limit inp))\<lparr>wsgi_input := Some rest\<rparr>\<rparr>
   = body_request m ctype len limit rest"
  by (simp add: body_request_def Request_def)

lemma body_request_form [simp]:
  "(body_request m ctype len limit inp)\<lparr>p_form := JDict []\<rparr> = body_request m ctype len limit inp"
  by (simp add: body_request_def Request_def)

lemma has_body_POST [simp]: "has_body (body_request ''POST'' ctype len limit inp)"
  by (simp add: has_body_def string_eval)

lemmas int_eval = int_of_str_def strip_def whitespace_def parse_nat_def digit_val_def

lemma digits_of_42 [simp]: "digits_of 42 = ''42''"
  by (simp add: digits_of.simps digit_char_def)

section \<open>Properties of body reading\<close>

text \<open>
  C32. The limit is enforced before reading: when the declared length of a
  request with a body exceeds \<^verbatim>\<open>MAX_BODY_SIZE\<close>, \<open>read_body\<close> raises the
  transport error 413 with code \<^verbatim>\<open>REQUEST_BODY_TOO_LARGE\<close> and the request,
  its input stream included, is as before.
\<close>

theorem read_body_too_large:
  assumes "has_body req" and "content_length req = Inr len"
    and "max_body_size req = Some limit" and "limit < len"
  shows "read_body req =
    (Inl (HTTPException \<lparr>message = ''Request body too large.'', status_code = 413,
                           code = ''REQUEST_BODY_TOO_LARGE'', e_headers = []\<rparr>), req)"
  using assms by (simp add: read_body_over body_too_large_def)

theorem read_body_too_large_witness:
  "read_body (body_request ''POST'' ''text/plain'' ''11'' 10 ''hello world'') =
    (Inl (HTTPException \<lparr>message = ''Request body too large.'', status_code = 413,
                           code = ''REQUEST_BODY_TOO_LARGE'', e_headers = []\<rparr>),
     body_request ''POST'' ''text/plain'' ''11'' 10 ''hello world'')"
  using read_body_too_large [of "body_request ''POST'' ''text/plain'' ''11'' 10 ''hello world''" 11 10]
  by (simp add: int_eval)

text \<open>
  C33. The loop reads past the limit: when the declared length is within a
  positive limit and the stream holds at most one chunk of 64 KiB, the
  whole stream is read and yielded as one chunk, however small the limit
  and the declared length are. The number of bytes to read is the larger of
  the two, and it is compared with the count only between whole chunks.
\<close>

theorem read_body_reads_past_limit:
  assumes "has_body req" and "content_length req = Inr len"
    and "max_body_size req = Some limit" and "len \<le> limit" and "0 < limit"
    and "wsgi_input (env req) = Some inp" and "inp \<noteq> []" and "length inp \<le> CHUNK"
  shows "read_body req = (Inr [inp], req\<lparr>env := (env req)\<lparr>wsgi_input := Some []\<rparr>\<rparr>)"
  using assms by (simp add: read_body_ok read_chunks_short)

theorem read_body_reads_past_limit_witness:
  "read_body (body_request ''POST'' ''text/plain'' ''2'' 4 ''0123456789'') =
     (Inr [''0123456789''], body_request ''POST'' ''text/plain'' ''2'' 4 [])
   \<and> (4::int) < int (length ''0123456789'')"
  using read_body_reads_past_limit
    [of "body_request ''POST'' ''text/plain'' ''2'' 4 ''0123456789''" 2 4 "''0123456789''"]
  by (simp add: int_eval CHUNK_def)

text \<open>
  No byte is lost or invented: when \<open>read_body\<close> succeeds on a
  request with a body, the chunks it yields followed by what is left in the
  stream are the stream as it was, and every chunk is non-empty and at most
  64 KiB long.
\<close>

lemma read_body_conserves:
  assumes "read_body req = (Inr chunks, req')" and "has_body req"
  shows "\<exists>inp rest. wsgi_input (env req) = Some inp \<and> wsgi_input (env req') = Some rest
           \<and> concat chunks @ rest = inp
           \<and> set chunks \<subseteq> {c. c \<noteq> [] \<and> length c \<le> CHUNK}"
proof -
  from assms obtain limit inp where "wsgi_input (env req) = Some inp"
    and "chunks = fst (read_chunks limit 0 inp)"
    and "req' = req\<lparr>env := (env req)\<lparr>wsgi_input := Some (snd (read_chunks limit 0 inp))\<rparr>\<rparr>"
    by (rule read_body_Inr)
  then show ?thesis
    by (simp add: read_chunks_concat read_chunks_chunks)
qed



text \<open>
  A missing limit is a transport error: when a request with a body has a
  well-formed length but the application, its configuration or the
  attribute \<^verbatim>\<open>MAX_BODY_SIZE\<close> is missing, \<open>read_body\<close> raises the transport
  error 500 with code \<^verbatim>\<open>MISSING_MAX_BODY_SIZE\<close> and reads nothing.
\<close>

lemma read_body_missing_limit:
  "has_body req \<Longrightarrow> content_length req = Inr len \<Longrightarrow> max_body_size req = None \<Longrightarrow>
     read_body req =
       (Inl (HTTPException \<lparr>message = ''Missing MAX_BODY_SIZE in settings.'', status_code = 500,
                              code = ''MISSING_MAX_BODY_SIZE'', e_headers = []\<rparr>), req)"
  by (simp add: read_body_no_limit missing_max_body_size_def)

text \<open>
  C36. The declared length is read back: a \<^verbatim>\<open>CONTENT_LENGTH\<close> that is the
  decimal text of a natural number gives that number, with or without a
  sign in front, and an absent \<^verbatim>\<open>CONTENT_LENGTH\<close> gives 0.
\<close>

theorem content_length_roundtrip:
  "(vars (env req) ''CONTENT_LENGTH'' = None \<longrightarrow> content_length req = Inr 0)
   \<and> (vars (env req) ''CONTENT_LENGTH'' = Some (digits_of n) \<longrightarrow>
        content_length req = Inr (int n))
   \<and> (vars (env req) ''CONTENT_LENGTH'' = Some (CHR ''-'' # digits_of n) \<longrightarrow>
        content_length req = Inr (- int n))"
  by (auto simp: content_length_def int_of_str_digits_of int_of_str_minus)
     (simp add: int_eval)

theorem content_length_roundtrip_witness:
  "content_length (body_request ''POST'' ''text/plain'' ''42'' 100 []) = Inr 42"
  using content_length_roundtrip [of "body_request ''POST'' ''text/plain'' ''42'' 100 []" 42]
  by simp

text \<open>
  An empty length is a fault: when \<^verbatim>\<open>CONTENT_LENGTH\<close> is present and
  empty, as gateways send it for a request without a body, \<open>content_length\<close>
  raises \<^verbatim>\<open>ValueError\<close>; \<open>read_body\<close> of a request with a body raises it too
  and reads nothing. The exception is not a transport error.
\<close>

lemma content_length_empty_raises:
  assumes "vars (env req) ''CONTENT_LENGTH'' = Some []"
  shows "content_length req = Inl (ValueError [])
    \<and> (has_body req \<longrightarrow> read_body req = (Inl (ValueError []), req))
    \<and> \<not> is_HTTPException (ValueError [])"
proof -
  from assms have "content_length req = Inl (ValueError [])"
    by (simp add: content_length_def int_of_str_empty)
  then show ?thesis
    by (simp add: read_body_bad_length ValueError_def)
qed

section \<open>Properties of the parsers\<close>



text \<open>
  Well-formed JSON is returned and cached: when the decoder accepts
  the body with a value that is true, \<open>json\<close> returns the value and stores
  it, and every later call returns the same value without touching the
  request, whatever the decoder and the stream are by then.
\<close>

lemma json_cached:
  assumes "\<not> truthy (p_form req)"
    and "media_type req \<in> set [''application/json'', ''application/json-rpc'']"
    and "read_body req = (Inr chunks, req')" and "concat chunks \<noteq> []"
    and "loads (concat chunks) = Some v" and "truthy v"
  shows "json loads req = (Inr (Some v), req'\<lparr>p_form := v\<rparr>)
    \<and> json loads' (req'\<lparr>p_form := v\<rparr>) = (Inr (Some v), req'\<lparr>p_form := v\<rparr>)"
  using assms by (simp add: json_def parse_json_data_read parse_json_data_cached)

text \<open>
  C38. A value that is false is not cached: when the body is one chunk and
  the decoder accepts it with a value that is false (an empty object or
  list, zero, \<^verbatim>\<open>null\<close>), the first call of \<open>json\<close> returns the value and
  the second call, which reads the exhausted stream, returns \<^verbatim>\<open>None\<close>.
\<close>

theorem json_falsy_not_cached:
  assumes "has_body req" and "\<not> truthy (p_form req)"
    and "media_type req \<in> set [''application/json'', ''application/json-rpc'']"
    and "content_length req = Inr len" and "max_body_size req = Some limit"
    and "len \<le> limit" and "0 < limit"
    and "wsgi_input (env req) = Some inp" and "inp \<noteq> []" and "length inp \<le> CHUNK"
    and "loads inp = Some v" and "\<not> truthy v"
  shows "json loads req =
           (Inr (Some v), req\<lparr>env := (env req)\<lparr>wsgi_input := Some []\<rparr>, p_form := v\<rparr>)
    \<and> json loads (req\<lparr>env := (env req)\<lparr>wsgi_input := Some []\<rparr>, p_form := v\<rparr>) =
           (Inr None, req\<lparr>env := (env req)\<lparr>wsgi_input := Some []\<rparr>, p_form := v\<rparr>)"
proof -
  let ?req1 = "req\<lparr>env := (env req)\<lparr>wsgi_input := Some []\<rparr>, p_form := v\<rparr>"
  from assms have first: "read_body req = (Inr [inp], req\<lparr>env := (env req)\<lparr>wsgi_input := Some []\<rparr>\<rparr>)"
    by (simp add: read_body_ok read_chunks_short)
  from assms have "has_body ?req1" and "content_length ?req1 = Inr len"
    and "max_body_size ?req1 = Some limit" and "wsgi_input (env ?req1) = Some []"
    by (simp_all add: has_body_def content_length_def max_body_size_def request_method_def)
  with assms have second: "read_body ?req1 = (Inr [], ?req1)"
    by (simp add: read_body_ok)
  from assms first second show ?thesis
    by (simp add: json_def parse_json_data_read)
qed

theorem json_falsy_not_cached_witness:
  "json (\<lambda>s. if s = ''{}'' then Some (JDict []) else None)
     (body_request ''POST'' ''application/json'' ''2'' 10 ''{}'') =
    (Inr (Some (JDict [])), body_request ''POST'' ''application/json'' ''2'' 10 [])
   \<and> json (\<lambda>s. if s = ''{}'' then Some (JDict []) else None)
     (body_request ''POST'' ''application/json'' ''2'' 10 []) =
    (Inr None, body_request ''POST'' ''application/json'' ''2'' 10 [])"
  using json_falsy_not_cached [of "body_request ''POST'' ''application/json'' ''2'' 10 ''{}''"
      2 10 "''{}''" "\<lambda>s. if s = ''{}'' then Some (JDict []) else None" "JDict []"]
  by (simp add: int_eval CHUNK_def media_type_def string_eval)

text \<open>
  One cache for two accessors: when the cached value is true, \<open>json\<close>
  and \<open>form\<close> both return it and leave the request alone, whatever the
  content type is and whatever the body holds.
\<close>

lemma form_shares_cache:
  assumes "truthy (p_form req)"
  shows "json loads req = (Inr (Some (p_form req)), req)
    \<and> form decode parse_qsl parts_of req = (Inr (Some (p_form req)), req)"
  using assms
  by (simp add: json_def parse_json_data_cached form_def parse_multipart_form_def
      parse_url_encoded_form_def)

text \<open>
  The fields of a multipart form: on a dictionary the loop over the
  parts stores the payload of every part that is not a file under the
  part's name, in order, so a later part overrides an earlier one of the
  same name and parts with a file name are skipped.
\<close>

lemma multipart_fields:
  "store_fields ps (JDict d) =
     Inr (JDict (fold (\<lambda>p. AList.update (part_name p) (JStr (payload p)))
                  (filter (\<lambda>p. \<not> is_file p) ps) d))"
proof (induction ps arbitrary: d)
  case Nil
  show ?case by simp
next
  case (Cons p ps)
  show ?case
  proof (cases "is_file p")
    case True
    with Cons show ?thesis by simp
  next
    case False
    with Cons [of "AList.update (part_name p) (JStr (payload p)) d"] show ?thesis by simp
  qed
qed

text \<open>
  The character set of a content type: for a content type of the form
  \<^verbatim>\<open>type; charset=value\<close>, where neither the type nor the value holds a
  semicolon or an equals sign, \<open>charset\<close> is the value without the white
  space around it; a content type without an equals sign has none.
\<close>

lemma charset_parameter:
  assumes "CHR '';'' \<notin> set mt" and "CHR ''='' \<notin> set mt"
    and "CHR '';'' \<notin> set v" and "CHR ''='' \<notin> set v"
  shows "(content_type req = mt @ ''; charset='' @ v \<longrightarrow> charset req = Some (strip v))
    \<and> (content_type req = mt \<longrightarrow> charset req = None)"
proof -
  let ?p = "'' charset='' @ v"
  have no: "\<not> contains mt ''charset=''"
    using assms(2) contains_set [of mt "''charset=''"] by auto
  have yes: "contains ?p ''charset=''"
    using contains_append [of "'' ''" "''charset=''" v] by simp
  have parts: "split_on CHR '';'' (mt @ CHR '';'' # ?p) = [mt, ?p]"
    using assms(1,3) by (simp add: split_on_first split_on_none)
  have kv: "split_on CHR ''='' ('' charset'' @ CHR ''='' # v) = ['' charset'', v]"
    using assms(4) by (subst split_on_first) (simp_all add: split_on_none)
  have "charset req = Some (strip v)" if "content_type req = mt @ ''; charset='' @ v"
  proof -
    from that parts have "split_on CHR '';'' (content_type req) = [mt, ?p]" by simp
    moreover from kv have "split_on CHR ''='' ?p = ['' charset'', v]" by simp
    ultimately show ?thesis using no yes by (intro charset_of_parts)
  qed
  moreover have "charset req = None" if "content_type req = mt"
    using that no assms(1) by (simp add: charset_def split_on_none)
  ultimately show ?thesis by blast
qed

end
