(* ===== verification/Restipy_ReadLoop.thy ===== *)
theory Restipy_ReadLoop
  imports Restipy_Body "HOL-Library.While_Combinator"
begin

text \<open>
  The loop of \<^verbatim>\<open>Request._read_body\<close> (\<^verbatim>\<open>src/restipy/core/request.py\<close>) kept as a
  loop: a state with the variables of the loop, its condition and its body,
  run by \<open>while_option\<close>, whose result is \<open>None\<close> for a loop that does not
  stop. The theory proves that the loop stops on every stream, how many
  chunks it yields at most, and that its result is the one of
  \<open>read_chunks\<close>, the recursive definition the other theories use.
\<close>

section \<open>The loop\<close>

text \<open>
  \<open>readbytes\<close> is the counter of the code, \<open>input\<close> what is left of the
  stream, \<open>yielded\<close> the chunks the generator has yielded, and \<open>stopped\<close>
  whether \<^verbatim>\<open>break\<close> was executed.
\<close>

record read_state =
  readbytes :: int
  input :: string
  yielded :: "string list"
  stopped :: bool

text \<open>\<^verbatim>\<open>while readbytes < toread\<close>, left also through \<^verbatim>\<open>break\<close>.\<close>

definition loop_cond :: "int \<Rightarrow> read_state \<Rightarrow> bool" where
  "loop_cond toread s \<longleftrightarrow> \<not> stopped s \<and> readbytes s < toread"

text \<open>
  \<^verbatim>\<open>chunk = input.read(64 * 1024); if not chunk: break;\<close>
  \<^verbatim>\<open>readbytes += len(chunk); yield chunk\<close>
\<close>

definition loop_body :: "read_state \<Rightarrow> read_state" where
  "loop_body s =
     (let chunk = take CHUNK (input s);
          s' = s\<lparr>input := drop CHUNK (input s)\<rparr>
      in if chunk = [] then s'\<lparr>stopped := True\<rparr>
         else s'\<lparr>readbytes := readbytes s + int (length chunk), yielded := yielded s @ [chunk]\<rparr>)"

definition read_loop :: "int \<Rightarrow> string \<Rightarrow> (string list \<times> string) option" where
  "read_loop toread inp =
     map_option (\<lambda>s. (yielded s, input s))
       (while_option (loop_cond toread) loop_body
          \<lparr>readbytes = 0, input = inp, yielded = [], stopped = False\<rparr>)"

section \<open>The loop stops\<close>

text \<open>What gets smaller: the stream, and at its end the chance to break.\<close>

definition loop_measure :: "read_state \<Rightarrow> nat" where
  "loop_measure s = length (input s) + (if stopped s then 0 else 1)"

lemma loop_body_decreases: "loop_cond toread s \<Longrightarrow> loop_measure (loop_body s) < loop_measure s"
  by (cases "input s") (auto simp: loop_cond_def loop_body_def loop_measure_def Let_def CHUNK_def)

lemma while_read_Some: "\<exists>t. while_option (loop_cond toread) loop_body s = Some t"
  by (rule measure_while_option_Some [where P = "\<lambda>s. True" and f = loop_measure])
     (simp_all add: loop_body_decreases)

section \<open>The loop and the recursion\<close>

lemma while_read_chunks:
  "while_option (loop_cond toread) loop_body
       \<lparr>readbytes = rb, input = inp, yielded = ys, stopped = False\<rparr> = Some t \<Longrightarrow>
     yielded t = ys @ fst (read_chunks toread rb inp) \<and> input t = snd (read_chunks toread rb inp)"
proof (induction toread rb inp arbitrary: ys rule: read_chunks.induct)
  case (1 toread rb inp)
  let ?s = "\<lparr>readbytes = rb, input = inp, yielded = ys, stopped = False\<rparr>"
  show ?case
  proof (cases "rb < toread")
    case False
    with "1.prems" have "t = ?s"
      by (subst (asm) while_option_unfold) (simp add: loop_cond_def)
    with False show ?thesis by simp
  next
    case True
    show ?thesis
    proof (cases "inp = []")
      case empty: True
      with True "1.prems" have "t = ?s\<lparr>stopped := True\<rparr>"
        by (subst (asm) while_option_unfold, subst (asm) while_option_unfold)
           (simp add: loop_cond_def loop_body_def)
      with empty show ?thesis by simp
    next
      case False
      then have ne: "take CHUNK inp \<noteq> []" by (simp add: CHUNK_def)
      with True "1.prems"
      have "while_option (loop_cond toread) loop_body
          \<lparr>readbytes = rb + int (length (take CHUNK inp)), input = drop CHUNK inp,
           yielded = ys @ [take CHUNK inp], stopped = False\<rparr> = Some t"
        by (subst (asm) while_option_unfold) (simp add: loop_cond_def loop_body_def Let_def)
      with True ne have "yielded t = (ys @ [take CHUNK inp])
            @ fst (read_chunks toread (rb + int (length (take CHUNK inp))) (drop CHUNK inp))
          \<and> input t = snd (read_chunks toread (rb + int (length (take CHUNK inp))) (drop CHUNK inp))"
        by (intro "1.IH") simp_all
      with True False show ?thesis by (simp add: read_chunks_step)
    qed
  qed
qed

lemma CHUNK_pos: "0 < CHUNK"
  by (simp add: CHUNK_def)

lemma ceil_div_step:
  fixes c n :: nat
  assumes "0 < c" and "0 < n"
  shows "Suc ((n - c + c - 1) div c) \<le> (n + c - 1) div c"
proof (cases "c \<le> n")
  case True
  then have "n + c - 1 = (n - c + c - 1) + c" using assms by simp
  then have "(n + c - 1) div c = Suc ((n - c + c - 1) div c)"
    using assms(1) by (simp only: div_add_self2)
  then show ?thesis by simp
next
  case False
  then have "(n - c + c - 1) div c = 0" using assms(1) by simp
  moreover have "c div c \<le> (n + c - 1) div c"
    using assms(2) by (intro div_le_mono) simp
  ultimately show ?thesis using assms(1) by simp
qed

lemma read_chunks_count:
  "length (fst (read_chunks toread rb inp)) \<le> (length inp + CHUNK - 1) div CHUNK"
proof (induction toread rb inp rule: read_chunks.induct)
  case (1 toread rb inp)
  show ?case
  proof (cases "rb < toread \<and> inp \<noteq> []")
    case True
    then have ne: "take CHUNK inp \<noteq> []" by (simp add: CHUNK_def)
    have "length (fst (read_chunks toread (rb + int (length (take CHUNK inp))) (drop CHUNK inp)))
        \<le> (length (drop CHUNK inp) + CHUNK - 1) div CHUNK"
      using True ne by (intro 1) simp_all
    moreover have "Suc ((length (drop CHUNK inp) + CHUNK - 1) div CHUNK)
        \<le> (length inp + CHUNK - 1) div CHUNK"
      using True ceil_div_step [of CHUNK "length inp", OF CHUNK_pos] by simp
    ultimately show ?thesis using True by (simp add: read_chunks_step)
  next
    case False
    then show ?thesis by (cases "inp = []") (simp_all add: not_less)
  qed
qed

section \<open>Properties\<close>

text \<open>
  C35. The read loop stops: on every stream and for every number of bytes
  to read, the loop of \<^verbatim>\<open>_read_body\<close> ends, whether by its condition or by
  \<^verbatim>\<open>break\<close>; it has then yielded the chunks and left the rest of the stream
  that the recursive definition \<open>read_chunks\<close> gives, and the chunks
  number at most the length of the stream divided by 64 KiB, rounded up.
\<close>

theorem read_loop_terminates:
  "read_loop toread inp = Some (read_chunks toread 0 inp)
   \<and> length (fst (read_chunks toread 0 inp)) \<le> (length inp + CHUNK - 1) div CHUNK"
proof -
  let ?s = "\<lparr>readbytes = 0, input = inp, yielded = [], stopped = False\<rparr>"
  obtain t where t: "while_option (loop_cond toread) loop_body ?s = Some t"
    using while_read_Some [of toread ?s] ..
  then have "yielded t = fst (read_chunks toread 0 inp) \<and> input t = snd (read_chunks toread 0 inp)"
    using while_read_chunks [of toread 0 inp "[]" t] by simp
  with t have "read_loop toread inp = Some (read_chunks toread 0 inp)"
    by (simp add: read_loop_def)
  then show ?thesis using read_chunks_count [of toread 0 inp] by (rule conjI)
qed

text \<open>The loop of a request that declares two bytes and sends ten, under a limit of four.\<close>

lemma read_loop_example: "read_loop 4 ''0123456789'' = Some ([''0123456789''], [])"
  by (simp add: read_loop_def while_option_unfold loop_cond_def loop_body_def CHUNK_def)

end
