(* ===== verification/Restipy_Store.thy ===== *)
theory Restipy_Store
  imports Restipy_App
begin

text \<open>
  The parameter dictionaries of requests as objects in a store, for the one
  place of \<^verbatim>\<open>src/restipy/core/request.py\<close> where it matters which object a
  slot refers to. \<^verbatim>\<open>Request.__init__(self, environ, params={})\<close> has a
  dictionary as the default of an argument; Python creates it once, when
  the \<^verbatim>\<open>def\<close> statement runs, and every request constructed without
  \<^verbatim>\<open>params\<close>, as \<^verbatim>\<open>process_request\<close> constructs them, gets this one object in
  its slot \<^verbatim>\<open>_params\<close>. The setter \<^verbatim>\<open>set_params\<close> rebinds the slot; a hook
  that writes \<^verbatim>\<open>req.params[k] = v\<close> changes the object.

  The other theories give every request its own parameters. This theory
  keeps the dictionaries in a store, shows what the sharing does, and shows
  when the other theories' view of a request is the right one: as long as
  nothing was written into the default dictionary. \<open>Restipy_Server\<close>
  follows the content of that dictionary through a list of calls.
\<close>

section \<open>The store\<close>

type_synonym addr = nat

text \<open>\<open>cell\<close> holds the dictionaries, \<open>lim\<close> is the first address not in use.\<close>

record store =
  cell :: "addr \<Rightarrow> params"
  lim :: addr

text \<open>The dictionary created when the \<^verbatim>\<open>def\<close> statement of \<^verbatim>\<open>__init__\<close> runs.\<close>

definition DEFAULT_PARAMS :: addr where
  "DEFAULT_PARAMS = 0"

definition new_store :: store where
  "new_store = \<lparr>cell = (\<lambda>a. Map.empty), lim = Suc DEFAULT_PARAMS\<rparr>"

text \<open>A new dictionary object, as \<^verbatim>\<open>match.groupdict()\<close> returns one.\<close>

definition alloc :: "params \<Rightarrow> store \<Rightarrow> addr \<times> store" where
  "alloc d st = (lim st, st\<lparr>cell := (cell st)(lim st := d), lim := Suc (lim st)\<rparr>)"

section \<open>Requests that refer to their parameters\<close>

text \<open>The slot \<^verbatim>\<open>_params\<close> as an address, and the other slots as before.\<close>

record request_obj =
  params_ref :: addr
  slots :: request

text \<open>\<^verbatim>\<open>Request(environ)\<close> and \<^verbatim>\<open>Request(environ, params)\<close>.\<close>

definition Request_obj :: "environ \<Rightarrow> addr option \<Rightarrow> request_obj" where
  "Request_obj environ arg =
     \<lparr>params_ref = (case arg of None \<Rightarrow> DEFAULT_PARAMS | Some a \<Rightarrow> a),
      slots = Request environ Map.empty\<rparr>"

text \<open>The property \<^verbatim>\<open>params\<close>, read in a store.\<close>

definition params_of :: "store \<Rightarrow> request_obj \<Rightarrow> params" where
  "params_of st r = cell st (params_ref r)"

text \<open>The setter: \<^verbatim>\<open>self._params = params\<close>.\<close>

definition rebind_params :: "request_obj \<Rightarrow> addr \<Rightarrow> request_obj" where
  "rebind_params r a = r\<lparr>params_ref := a\<rparr>"

text \<open>What a hook does with \<^verbatim>\<open>req.params[k] = v\<close>.\<close>

definition params_setitem :: "request_obj \<Rightarrow> string \<Rightarrow> string option \<Rightarrow> store \<Rightarrow> store" where
  "params_setitem r k v st =
     st\<lparr>cell := (cell st)(params_ref r := (cell st (params_ref r))(k \<mapsto> v))\<rparr>"

text \<open>
  \<^verbatim>\<open>view, params = self.match(...); req.set_params = params\<close> of
  \<^verbatim>\<open>process_request\<close>: the groups are a new dictionary.
\<close>

definition assign_groups :: "request_obj \<Rightarrow> params \<Rightarrow> store \<Rightarrow> request_obj \<times> store" where
  "assign_groups r groups st = (case alloc groups st of (a, st') \<Rightarrow> (rebind_params r a, st'))"

section \<open>The request the other theories see\<close>

definition abs_request :: "store \<Rightarrow> request_obj \<Rightarrow> request" where
  "abs_request st r = (slots r)\<lparr>p_params := params_of st r\<rparr>"

text \<open>
  A store is well formed when the default dictionary is in use, and pristine
  when nothing was written into it.
\<close>

definition wf_store :: "store \<Rightarrow> bool" where
  "wf_store st \<longleftrightarrow> DEFAULT_PARAMS < lim st"

definition pristine :: "store \<Rightarrow> bool" where
  "pristine st \<longleftrightarrow> cell st DEFAULT_PARAMS = Map.empty"

lemmas store_defs [restipy_defs] =
  DEFAULT_PARAMS_def new_store_def alloc_def Request_obj_def params_of_def rebind_params_def
  params_setitem_def assign_groups_def abs_request_def wf_store_def pristine_def

section \<open>Facts\<close>

lemma new_store_ok [simp]: "wf_store new_store" "pristine new_store"
  by (simp_all add: wf_store_def pristine_def new_store_def)

lemma wf_store_alloc [restipy_inv]: "wf_store st \<Longrightarrow> wf_store (snd (alloc d st))"
  by (simp add: wf_store_def alloc_def)

lemma wf_store_setitem [restipy_inv, simp]: "wf_store (params_setitem r k v st) = wf_store st"
  by (simp add: wf_store_def params_setitem_def)

lemma alloc_fresh: "wf_store st \<Longrightarrow> fst (alloc d st) \<noteq> DEFAULT_PARAMS"
  by (simp add: wf_store_def alloc_def)

lemma pristine_alloc [restipy_inv]: "wf_store st \<Longrightarrow> pristine (snd (alloc d st)) = pristine st"
  by (auto simp: wf_store_def pristine_def alloc_def)

lemma cell_alloc [simp]: "cell (snd (alloc d st)) (fst (alloc d st)) = d"
  by (simp add: alloc_def)

lemma pristine_setitem_other [restipy_inv]:
  "params_ref r \<noteq> DEFAULT_PARAMS \<Longrightarrow> pristine (params_setitem r k v st) = pristine st"
  by (simp add: pristine_def params_setitem_def)

lemma pristine_setitem_default:
  "params_ref r = DEFAULT_PARAMS \<Longrightarrow> \<not> pristine (params_setitem r k v st)"
  by (auto simp: pristine_def params_setitem_def dest: fun_cong [where x = k])

lemma params_setitem_same [simp]:
  "params_of (params_setitem r k v st) r = (params_of st r)(k \<mapsto> v)"
  by (simp add: params_of_def params_setitem_def)

lemma params_setitem_alias:
  "params_ref r' = params_ref r \<Longrightarrow>
     params_of (params_setitem r k v st) r' = (params_of st r')(k \<mapsto> v)"
  by (simp add: params_of_def params_setitem_def)

lemma params_setitem_other:
  "params_ref r' \<noteq> params_ref r \<Longrightarrow> params_of (params_setitem r k v st) r' = params_of st r'"
  by (simp add: params_of_def params_setitem_def)

lemma Request_obj_default [simp]: "params_ref (Request_obj environ None) = DEFAULT_PARAMS"
  by (simp add: Request_obj_def)

lemma assign_groups_ref:
  "wf_store st \<Longrightarrow> params_ref (fst (assign_groups r groups st)) \<noteq> DEFAULT_PARAMS"
  by (simp add: assign_groups_def alloc_def rebind_params_def wf_store_def)

lemma assign_groups_store:
  "wf_store st \<Longrightarrow> pristine (snd (assign_groups r groups st)) = pristine st"
  "wf_store st \<Longrightarrow> wf_store (snd (assign_groups r groups st))"
  by (auto simp: assign_groups_def alloc_def wf_store_def pristine_def)

text \<open>
  A new request is the request of the other theories exactly in a pristine
  store, and after the groups are assigned it is that request with its
  parameters set.
\<close>

lemma abs_request_new:
  "abs_request st (Request_obj environ None) = Request environ Map.empty \<longleftrightarrow> pristine st"
proof
  assume "abs_request st (Request_obj environ None) = Request environ Map.empty"
  then have "p_params (abs_request st (Request_obj environ None)) = Map.empty"
    by (simp add: Request_def)
  then show "pristine st"
    by (simp add: abs_request_def params_of_def pristine_def)
next
  assume "pristine st"
  then show "abs_request st (Request_obj environ None) = Request environ Map.empty"
    by (simp add: abs_request_def params_of_def Request_obj_def pristine_def Request_def)
qed

lemma abs_request_assign:
  "abs_request (snd (assign_groups r groups st)) (fst (assign_groups r groups st)) =
     set_params (abs_request st r) groups"
  by (simp add: abs_request_def assign_groups_def alloc_def rebind_params_def params_of_def
      set_params_def)

section \<open>Properties\<close>

text \<open>
  The default parameters are one object. In a well-formed store, a
  request constructed without \<^verbatim>\<open>params\<close>, as \<open>process_request\<close> constructs
  it, is the request of the other theories, with no parameters, exactly
  when nothing was written into the default dictionary. A write into the
  parameters of such a request, which a before-route hook can do, shows in
  the parameters of every other such request over any environment and
  leaves a store in which no new request starts without parameters. Once
  the groups of a route are assigned, the request has a dictionary of its
  own: its writes change no other request and keep the store as it was in
  this respect.
\<close>

lemma default_params_shared:
  assumes "wf_store st"
  shows "(abs_request st (Request_obj environ None) = Request environ Map.empty \<longleftrightarrow> pristine st)
    \<and> params_of (params_setitem (Request_obj e1 None) k v st) (Request_obj e2 None) k = Some v
    \<and> \<not> pristine (params_setitem (Request_obj e1 None) k v st)
    \<and> (pristine st \<longrightarrow>
         pristine (params_setitem (fst (assign_groups (Request_obj e1 None) groups st)) k v
                     (snd (assign_groups (Request_obj e1 None) groups st))))"
proof -
  let ?r = "fst (assign_groups (Request_obj e1 None) groups st)"
  let ?st = "snd (assign_groups (Request_obj e1 None) groups st)"
  have "params_of (params_setitem (Request_obj e1 None) k v st) (Request_obj e2 None) k = Some v"
    by (simp add: params_setitem_alias)
  moreover have "\<not> pristine (params_setitem (Request_obj e1 None) k v st)"
    by (simp add: pristine_setitem_default)
  moreover from assms have "pristine (params_setitem ?r k v ?st) = pristine st"
    by (simp add: pristine_setitem_other assign_groups_ref assign_groups_store)
  ultimately show ?thesis by (simp add: abs_request_new)
qed

end
