(* ===== verification/Restipy_Server.thy ===== *)
theory Restipy_Server
  imports Restipy_Store Restipy_Dispatcher
begin

text \<open>
  One application serving one request after the other. Between two calls of
  \<^verbatim>\<open>process_request\<close> (\<^verbatim>\<open>src/restipy/core/application.py\<close>) the core keeps one
  piece of state: the dictionary that is the default of \<^verbatim>\<open>params\<close> in
  \<^verbatim>\<open>Request.__init__\<close> (\<^verbatim>\<open>src/restipy/core/request.py\<close>). Every call
  constructs its request with \<^verbatim>\<open>Request(env)\<close>, so the request starts with
  this dictionary, and the before-route hooks run on it; only after lookup
  does \<^verbatim>\<open>req.set_params = params\<close> give the request a dictionary of its own.
  A hook reaches the parameters through the property \<^verbatim>\<open>params\<close>, which
  returns the dictionary itself: what a before-route hook changes of the
  parameters, it changes in the shared dictionary.

  The theory threads the content of that dictionary through a list of
  calls. It shows when serving is what the other theories take it to be, a
  map of \<open>process_request\<close> over the environments, and what happens when it
  is not: what one request wrote, every later request starts with.
\<close>

section \<open>A call that starts from the shared dictionary\<close>

text \<open>\<^verbatim>\<open>env['restipy.app'] = self; req = Request(env)\<close>, the default dictionary holding \<open>shared\<close>.\<close>

definition first_request :: "restipy \<Rightarrow> params \<Rightarrow> environ \<Rightarrow> request" where
  "first_request self shared environ =
     Request (environ\<lparr>restipy_app := Some (config self)\<rparr>) shared"

text \<open>
  What \<^verbatim>\<open>process_request\<close> makes of a response the \<^verbatim>\<open>try\<close> block returned or
  of an exception that left it: the \<^verbatim>\<open>return\<close> and the two \<^verbatim>\<open>except\<close> clauses.
\<close>

definition conclude :: "(exn \<Rightarrow> string) \<Rightarrow> restipy \<Rightarrow> (exn + response) \<times> request \<Rightarrow> dispatch" where
  "conclude format_exc self x =
     (case x of
        (Inr out, req) \<Rightarrow> \<lparr>outcome = Inr out, final_request = req, stderr = []\<rparr>
      | (Inl (HTTPException h), req) \<Rightarrow>
          \<lparr>outcome = http_error_response h, final_request = req, stderr = []\<rparr>
      | (Inl e, req) \<Rightarrow> handle_exception format_exc self e req)"

text \<open>\<^verbatim>\<open>process_request\<close> from the request on: the \<^verbatim>\<open>try\<close> statement.\<close>

definition process_from :: "(exn \<Rightarrow> string) \<Rightarrow> restipy \<Rightarrow> request \<Rightarrow> dispatch" where
  "process_from format_exc self req0 = conclude format_exc self (try_body self req0)"

text \<open>
  The shared dictionary when the call is over: as the before-route hooks
  left it, whether they fell through, answered or raised. Every hook after
  them sees the dictionary of the groups.
\<close>

definition shared_after :: "restipy \<Rightarrow> request \<Rightarrow> params" where
  "shared_after self req0 = p_params (snd (run_before (before_route_m self) req0))"

section \<open>A gateway that calls again and again\<close>

text \<open>The request each call starts with, and the dictionary after the last call.\<close>

fun starts :: "restipy \<Rightarrow> params \<Rightarrow> environ list \<Rightarrow> request list" where
  "starts self shared [] = []"
| "starts self shared (environ # envs) =
     first_request self shared environ
       # starts self (shared_after self (first_request self shared environ)) envs"

fun shared_end :: "restipy \<Rightarrow> params \<Rightarrow> environ list \<Rightarrow> params" where
  "shared_end self shared [] = shared"
| "shared_end self shared (environ # envs) =
     shared_end self (shared_after self (first_request self shared environ)) envs"

definition serve :: "(exn \<Rightarrow> string) \<Rightarrow> restipy \<Rightarrow> params \<Rightarrow> environ list \<Rightarrow> dispatch list" where
  "serve format_exc self shared envs = map (process_from format_exc self) (starts self shared envs)"

text \<open>What is asked of a hook: to leave the parameters alone, or at least to remove none.\<close>

definition keeps_params :: "hook \<Rightarrow> bool" where
  "keeps_params h \<longleftrightarrow> (\<forall>req. p_params (snd (h req)) = p_params req)"

definition grows_params :: "hook \<Rightarrow> bool" where
  "grows_params h \<longleftrightarrow> (\<forall>req. dom (p_params req) \<subseteq> dom (p_params (snd (h req))))"

text \<open>
  A hook that remembers who is logged in, written the way the property
  \<^verbatim>\<open>params\<close> invites: \<^verbatim>\<open>req.params['user'] = env['HTTP_X_USER']\<close> when the
  header is there, and the answer 401 when \<^verbatim>\<open>'user' not in req.params\<close>. An
  application with this hook and one view, and two environments.
\<close>

definition login :: hook where
  "login req =
     (case vars (env req) ''HTTP_X_USER'' of
        Some u \<Rightarrow> (Inr NonResp, set_params req ((p_params req)(''user'' \<mapsto> Some u)))
      | None \<Rightarrow>
          (case p_params req ''user'' of
             Some u \<Rightarrow> (Inr NonResp, req)
           | None \<Rightarrow> (Inr (Resp ((text_response ''login first'')\<lparr>status := 401\<rparr>)), req)))"

definition session_app :: restipy where
  "session_app =
     add_middleware
       (add_view (RestiPy\<lparr>config := Some (demo_settings False)\<rparr>)
          (demo_view (prefix_pattern ''/'') [''GET''] ''hello''))
       \<lparr>before_route = login, m_before_handler = pass_hook, m_after_handler = pass_after\<rparr>"

definition anonymous :: environ where
  "anonymous = demo_environ ''GET'' ''/''"

definition alice :: environ where
  "alice = anonymous\<lparr>vars := (vars anonymous)(''HTTP_X_USER'' \<mapsto> ''alice'')\<rparr>"

lemmas server_defs [restipy_defs] =
  first_request_def conclude_def process_from_def shared_after_def serve_def

section \<open>The first call and the store\<close>

lemma first_request_empty: "first_request self Map.empty environ = initial_request self environ"
  by (simp add: first_request_def initial_request_def)

lemma process_from_initial [simp]:
  "process_from fmt self (initial_request self environ) = process_request fmt self environ"
  by (simp add: process_from_def conclude_def process_request_def)

text \<open>
  The request a call starts with is the request of \<open>Restipy_Store\<close> that
  refers to the default dictionary, and a write through it is a write into
  the shared content; the dictionary of the groups is another one.
\<close>

lemma first_request_store:
  "first_request self (cell st DEFAULT_PARAMS) environ =
     abs_request st (Request_obj (environ\<lparr>restipy_app := Some (config self)\<rparr>) None)"
  by (simp add: first_request_def abs_request_def Request_obj_def params_of_def Request_def)

lemma setitem_shared:
  "cell (params_setitem (Request_obj environ None) k v st) DEFAULT_PARAMS =
     (cell st DEFAULT_PARAMS)(k \<mapsto> v)"
  by (simp add: params_setitem_def Request_obj_def)

lemma write_then_first_request:
  "first_request self (cell (params_setitem (Request_obj e None) k v st) DEFAULT_PARAMS) environ =
     set_params (first_request self (cell st DEFAULT_PARAMS) environ)
       ((cell st DEFAULT_PARAMS)(k \<mapsto> v))"
  by (simp add: setitem_shared first_request_def Request_def set_params_def)

lemma assign_groups_shared:
  "wf_store st \<Longrightarrow> cell (snd (assign_groups r groups st)) DEFAULT_PARAMS = cell st DEFAULT_PARAMS"
  by (auto simp: assign_groups_def alloc_def wf_store_def)

section \<open>Loops over hooks that keep the parameters\<close>

lemma grows_paramsD: "grows_params h \<Longrightarrow> dom (p_params req) \<subseteq> dom (p_params (snd (h req)))"
  by (simp add: grows_params_def)

lemma keeps_grows: "keeps_params h \<Longrightarrow> grows_params h"
  by (simp add: keeps_params_def grows_params_def)


lemma run_before_grows:
  "\<forall>h \<in> set hs. grows_params h \<Longrightarrow>
     dom (p_params req) \<subseteq> dom (p_params (snd (run_before hs req)))"
proof (induction hs arbitrary: req)
  case Nil
  show ?case by simp
next
  case (Cons h hs)
  obtain res req1 where hr: "h req = (res, req1)" by (cases "h req")
  with Cons.prems have h: "dom (p_params req) \<subseteq> dom (p_params req1)"
    using grows_paramsD [of h req] by simp
  from Cons have ih: "dom (p_params req1) \<subseteq> dom (p_params (snd (run_before hs req1)))"
    by simp
  from hr have "snd (run_before (h # hs) req) = req1
      \<or> snd (run_before (h # hs) req) = snd (run_before hs req1)"
    by (auto split: sum.splits retval.splits)
  then show ?case
  proof
    assume "snd (run_before (h # hs) req) = req1"
    with h show ?thesis by simp
  next
    assume "snd (run_before (h # hs) req) = snd (run_before hs req1)"
    with order_trans [OF h ih] show ?thesis by simp
  qed
qed


lemma shared_after_grows:
  "\<forall>h \<in> set (before_route_m self). grows_params h \<Longrightarrow>
     dom (p_params req) \<subseteq> dom (shared_after self req)"
  by (simp add: shared_after_def run_before_grows)

lemma p_params_first [simp]: "p_params (first_request self shared environ) = shared"
  by (simp add: first_request_def Request_def)

section \<open>Serving\<close>

lemma length_starts [simp]: "length (starts self shared envs) = length envs"
  by (induction envs arbitrary: shared) simp_all



lemma starts_grows:
  "\<forall>h \<in> set (before_route_m self). grows_params h \<Longrightarrow> r \<in> set (starts self shared envs) \<Longrightarrow>
     dom shared \<subseteq> dom (p_params r)"
proof (induction envs arbitrary: shared)
  case Nil
  then show ?case by simp
next
  case (Cons environ envs)
  let ?next = "shared_after self (first_request self shared environ)"
  from Cons.prems(1) have grow: "dom shared \<subseteq> dom ?next"
    using shared_after_grows [of self "first_request self shared environ"] by simp
  from Cons.prems(2) have "r = first_request self shared environ \<or> r \<in> set (starts self ?next envs)"
    by simp
  then show ?case
  proof
    assume "r = first_request self shared environ"
    then show ?thesis by simp
  next
    assume "r \<in> set (starts self ?next envs)"
    with Cons.IH [of ?next] Cons.prems(1) have "dom ?next \<subseteq> dom (p_params r)" by simp
    with grow show ?thesis by (rule order_trans)
  qed
qed

lemma shared_end_grows:
  "\<forall>h \<in> set (before_route_m self). grows_params h \<Longrightarrow>
     dom shared \<subseteq> dom (shared_end self shared envs)"
proof (induction envs arbitrary: shared)
  case Nil
  show ?case by simp
next
  case (Cons environ envs)
  let ?next = "shared_after self (first_request self shared environ)"
  from Cons.prems have "dom shared \<subseteq> dom ?next"
    using shared_after_grows [of self "first_request self shared environ"] by simp
  moreover from Cons have "dom ?next \<subseteq> dom (shared_end self ?next envs)" by simp
  ultimately show ?case by (simp add: order_trans)
qed

lemma starts_append:
  "starts self shared (envs @ envs') =
     starts self shared envs @ starts self (shared_end self shared envs) envs'"
  by (induction envs arbitrary: shared) simp_all

lemma shared_end_append:
  "shared_end self shared (envs @ envs') = shared_end self (shared_end self shared envs) envs'"
  by (induction envs arbitrary: shared) simp_all

section \<open>A worked session\<close>

lemma login_grows: "grows_params login"
  by (auto simp: grows_params_def login_def set_params_def split: option.splits)

lemma session_app_fields [simp]:
  "before_route_m session_app = [login]" "before_m session_app = [pass_hook]"
  "after_m session_app = [pass_after]" "config session_app = Some (demo_settings False)"
  by (simp_all add: session_app_def)

lemma session_app_GET [simp]:
  "get_or (routes session_app) ''GET'' [] = [demo_view (prefix_pattern ''/'') [''GET''] ''hello'']"
  by (simp add: session_app_def add_view_lookup demo_view_def string_eval)

lemma session_request [simp]:
  "path (first_request self shared anonymous) = ''/''"
  "path (first_request self shared alice) = ''/''"
  "request_method (first_request self shared anonymous) = ''GET''"
  "request_method (first_request self shared alice) = ''GET''"
  "vars (env (first_request self shared anonymous)) ''HTTP_X_USER'' = None"
  "vars (env (first_request self shared alice)) ''HTTP_X_USER'' = Some ''alice''"
  by (simp_all add: first_request_def anonymous_def alice_def demo_environ_def Request_def
      path_def request_method_def get_or_def string_eval)

lemma session_shared_after:
  "shared_after session_app req =
     (case vars (env req) ''HTTP_X_USER'' of
        Some u \<Rightarrow> (p_params req)(''user'' \<mapsto> Some u) | None \<Rightarrow> p_params req)"
  by (simp add: shared_after_def login_def set_params_def split: option.splits)

lemma process_from_status:
  "fst (try_body self req) = Inr out \<Longrightarrow> outcome (process_from fmt self req) = Inr out"
  by (cases "try_body self req") (simp add: process_from_def conclude_def)

text \<open>The application answers 401 exactly when neither the header nor the parameter is there.\<close>

lemma session_try_body:
  assumes "path req = ''/''" and "request_method req = ''GET''"
  shows "fst (try_body session_app req) =
     Inr (if vars (env req) ''HTTP_X_USER'' = None \<and> p_params req ''user'' = None
          then (text_response ''login first'')\<lparr>status := 401\<rparr> else text_response ''hello'')"
  using assms
  by (simp add: try_body_def login_def view_lifecycle_def view_try_def Let_def demo_eval
      split: option.splits)

lemma session_status:
  assumes "path req = ''/''" and "request_method req = ''GET''"
  shows "map_sum (\<lambda>e. ()) status (outcome (process_from fmt session_app req)) =
     Inr (if vars (env req) ''HTTP_X_USER'' = None \<and> p_params req ''user'' = None
          then 401 else 200)"
  using process_from_status [OF session_try_body [OF assms], of fmt]
  by (simp add: text_response_def)

text \<open>
  Alone, a request without the header is answered with 401. After a
  request of Alice it is answered as hers.
\<close>

lemma session_alone:
  "map (\<lambda>d. map_sum (\<lambda>e. ()) status (outcome d))
     (map (process_request fmt session_app) [anonymous, alice, anonymous]) = [Inr 401, Inr 200, Inr 401]"
  by (simp add: process_from_initial [symmetric] first_request_empty [symmetric] session_status
      del: process_from_initial)

lemma session_served:
  "map (\<lambda>d. map_sum (\<lambda>e. ()) status (outcome d))
     (serve fmt session_app Map.empty [anonymous, alice, anonymous]) = [Inr 401, Inr 200, Inr 200]"
  by (simp add: serve_def session_shared_after session_status)

section \<open>Properties of a server\<close>



text \<open>
  C15. What a before-route hook writes into the parameters outlives the
  request: when no before-route hook removes a parameter, and the hooks of
  one call leave a parameter in the dictionary, every later call of the
  application starts with a request that has this parameter, and it is in
  the dictionary after the last call. The calls before, the call itself and the calls after are
  served as the lists say, each from the dictionary the one before left.
\<close>

theorem written_params_persist:
  assumes "\<forall>h \<in> set (before_route_m self). grows_params h"
    and "written = shared_after self (first_request self (shared_end self shared pre) environ)"
    and "k \<in> dom written"
  shows "serve fmt self shared (pre @ environ # post) =
      serve fmt self shared pre
        @ process_from fmt self (first_request self (shared_end self shared pre) environ)
        # serve fmt self written post
    \<and> (\<forall>r \<in> set (starts self written post). k \<in> dom (p_params r))
    \<and> k \<in> dom (shared_end self shared (pre @ environ # post))"
proof -
  have "k \<in> dom (p_params r)" if "r \<in> set (starts self written post)" for r
    using starts_grows [OF assms(1) that] assms(3) by auto
  moreover have "k \<in> dom (shared_end self written post)"
    using shared_end_grows [OF assms(1), of written post] assms(3) by auto
  ultimately show ?thesis
    using assms(2) by (simp add: serve_def starts_append shared_end_append)
qed

theorem written_params_persist_witness:
  "''user'' \<in> dom (shared_end session_app Map.empty [anonymous, alice, anonymous])
   \<and> map (\<lambda>d. map_sum (\<lambda>e. ()) status (outcome d))
       (serve (\<lambda>e. ''trace'') session_app Map.empty [anonymous, alice, anonymous])
     = [Inr 401, Inr 200, Inr 200]"
  using written_params_persist [of session_app "[''user'' \<mapsto> Some ''alice'']" Map.empty
      "[anonymous]" alice "''user''" "\<lambda>e. ''trace''" "[anonymous]"]
  by (simp add: login_grows serve_def session_shared_after session_status)

end
