(* ===== verification/Restipy_Workers.thy ===== *)
theory Restipy_Workers
  imports Restipy_Server
begin

text \<open>
  Calls of \<^verbatim>\<open>process_request\<close> (\<^verbatim>\<open>src/restipy/core/application.py\<close>) that run at
  the same time, as the worker threads of a gateway run them, over the one
  store of dictionaries of \<open>Restipy_Store\<close>.

  A hook reaches the parameters of a request in two ways
  (\<^verbatim>\<open>src/restipy/core/request.py\<close>): through the property \<^verbatim>\<open>params\<close>, which
  returns the dictionary, so that \<^verbatim>\<open>req.params[k] = v\<close> and
  \<^verbatim>\<open>req.params.pop(k, None)\<close> change the dictionary the request refers to,
  and through the setter \<^verbatim>\<open>set_params\<close>, which makes the request refer to
  another dictionary. Here a hook says which of the two it does: it returns,
  beside its result and the request with its other slots, the commands it
  ran on the parameters. Running the commands on the store gives what the
  hook does to shared dictionaries; applying them to a dictionary value
  gives the hook of the other theories.

  A worker is a call in progress: the before-route hooks it has still to
  call, then the rest of the call, which works on a dictionary of its own,
  as one step. The workers of a pool take steps in any order. The theory
  shows that a worker alone computes what \<open>process_from\<close> says, that the
  workers of a pool whose before-route hooks run no command on the
  parameters each compute what \<open>process_request\<close> says, whatever the order
  of the steps, and that every order of steps ends.
\<close>

section \<open>Commands on the parameters\<close>

datatype pcmd = SetItem string "string option" | Pop string | Rebind params

fun is_Rebind :: "pcmd \<Rightarrow> bool" where
  "is_Rebind (Rebind d) = True"
| "is_Rebind c = False"

text \<open>A command on a dictionary value.\<close>

fun apply_cmd :: "pcmd \<Rightarrow> params \<Rightarrow> params" where
  "apply_cmd (SetItem k v) d = d(k \<mapsto> v)"
| "apply_cmd (Pop k) d = d(k := None)"
| "apply_cmd (Rebind d') d = d'"

text \<open>\<^verbatim>\<open>req.params.pop(k, None)\<close> on the store.\<close>

definition params_pop :: "request_obj \<Rightarrow> string \<Rightarrow> store \<Rightarrow> store" where
  "params_pop r k st =
     st\<lparr>cell := (cell st)(params_ref r := (cell st (params_ref r))(k := None))\<rparr>"

text \<open>A command on the store; the setter is given a new dictionary.\<close>

fun exec_cmd :: "pcmd \<Rightarrow> request_obj \<times> store \<Rightarrow> request_obj \<times> store" where
  "exec_cmd (SetItem k v) (r, st) = (r, params_setitem r k v st)"
| "exec_cmd (Pop k) (r, st) = (r, params_pop r k st)"
| "exec_cmd (Rebind d) (r, st) = assign_groups r d st"

section \<open>Hooks that say what they do to the parameters\<close>

type_synonym ohook = "request \<Rightarrow> ((exn + retval) \<times> request) \<times> pcmd list"

text \<open>The hook of the other theories: the commands applied to the parameters it was given.\<close>

definition fun_of :: "ohook \<Rightarrow> hook" where
  "fun_of h req =
     (case h req of
        ((res, req'), cmds) \<Rightarrow> (res, set_params req' (fold apply_cmd cmds (p_params req))))"

text \<open>\<^verbatim>\<open>out = middleware(req)\<close> on the store.\<close>

definition run_ohook :: "ohook \<Rightarrow> request_obj \<Rightarrow> store \<Rightarrow> (exn + retval) \<times> request_obj \<times> store" where
  "run_ohook h r st =
     (case h (abs_request st r) of
        ((res, req'), cmds) \<Rightarrow>
          (case fold exec_cmd cmds (r\<lparr>slots := req'\<rparr>, st) of (r', st') \<Rightarrow> (res, r', st')))"

text \<open>The loop over the before-route hooks on the store.\<close>

fun run_before_o ::
  "ohook list \<Rightarrow> request_obj \<Rightarrow> store \<Rightarrow> ((exn, response, unit) flow \<times> request_obj) \<times> store" where
  "run_before_o [] r st = ((Next (), r), st)"
| "run_before_o (h # hs) r st =
     (case run_ohook h r st of
        (Inl e, r', st') \<Rightarrow> ((Raise e, r'), st')
      | (Inr (Resp out), r', st') \<Rightarrow> ((Return out, r'), st')
      | (Inr NonResp, r', st') \<Rightarrow> run_before_o hs r' st')"

section \<open>Workers\<close>

text \<open>
  A call in progress, with the before-route hooks it has still to call and
  its request, or a call that has returned or raised.
\<close>

datatype worker = Routing "ohook list" request_obj | Answered dispatch

fun is_Answered :: "worker \<Rightarrow> bool" where
  "is_Answered (Answered d) = True"
| "is_Answered (Routing hs r) = False"

text \<open>\<^verbatim>\<open>env['restipy.app'] = self; req = Request(env)\<close>: a call begins.\<close>

definition spawn :: "restipy \<Rightarrow> ohook list \<Rightarrow> environ \<Rightarrow> worker" where
  "spawn self ohs environ =
     Routing ohs (Request_obj (environ\<lparr>restipy_app := Some (config self)\<rparr>) None)"

text \<open>The call from lookup on: the \<^verbatim>\<open>try\<close> block of an application without before-route hooks.\<close>

definition after_routing :: "restipy \<Rightarrow> request \<Rightarrow> (exn + response) \<times> request" where
  "after_routing self req1 = try_body (self\<lparr>before_route_m := []\<rparr>) req1"

text \<open>
  \<^verbatim>\<open>view, params = self.match(req.path, req.method); req.set_params = params\<close>
  on the store: the groups of the route are a new dictionary.
\<close>

definition lookup_store :: "restipy \<Rightarrow> request_obj \<Rightarrow> store \<Rightarrow> store" where
  "lookup_store self r st =
     (case match self (path (abs_request st r)) (request_method (abs_request st r)) of
        Inr (v, ps) \<Rightarrow> snd (assign_groups r ps st)
      | Inl e \<Rightarrow> st)"

text \<open>
  One step of a worker: the next before-route hook, or, when none is left,
  lookup and all that follows it.
\<close>

fun wstep :: "(exn \<Rightarrow> string) \<Rightarrow> restipy \<Rightarrow> worker \<Rightarrow> store \<Rightarrow> (worker \<times> store) option" where
  "wstep fmt self (Answered d) st = None"
| "wstep fmt self (Routing [] r) st =
     Some (Answered (conclude fmt self (after_routing self (abs_request st r))),
           lookup_store self r st)"
| "wstep fmt self (Routing (h # hs) r) st =
     Some (case run_ohook h r st of
             (Inl e, r', st') \<Rightarrow> (Answered (conclude fmt self (Inl e, abs_request st' r')), st')
           | (Inr (Resp out), r', st') \<Rightarrow>
               (Answered (conclude fmt self (Inr out, abs_request st' r')), st')
           | (Inr NonResp, r', st') \<Rightarrow> (Routing hs r', st'))"

text \<open>The steps a worker has still to take.\<close>

fun weight :: "worker \<Rightarrow> nat" where
  "weight (Answered d) = 0"
| "weight (Routing hs r) = Suc (length hs)"

text \<open>A worker alone, to the end.\<close>

function finish :: "(exn \<Rightarrow> string) \<Rightarrow> restipy \<Rightarrow> worker \<Rightarrow> store \<Rightarrow> worker \<times> store" where
  "finish fmt self w st =
     (case wstep fmt self w st of None \<Rightarrow> (w, st) | Some (w', st') \<Rightarrow> finish fmt self w' st')"
  by pat_completeness auto

text \<open>A gateway with one thread: each call runs to its end before the next begins.\<close>

fun serve_o ::
  "(exn \<Rightarrow> string) \<Rightarrow> restipy \<Rightarrow> ohook list \<Rightarrow> store \<Rightarrow> environ list \<Rightarrow> worker list \<times> store" where
  "serve_o fmt self ohs st [] = ([], st)"
| "serve_o fmt self ohs st (environ # envs) =
     (case finish fmt self (spawn self ohs environ) st of
        (w, st') \<Rightarrow> (case serve_o fmt self ohs st' envs of (ws, st'') \<Rightarrow> (w # ws, st'')))"

text \<open>A pool of workers over one store: any worker that has not answered takes the next step.\<close>

inductive pstep ::
  "(exn \<Rightarrow> string) \<Rightarrow> restipy \<Rightarrow> store \<times> worker list \<Rightarrow> store \<times> worker list \<Rightarrow> bool"
  for fmt self where
  turn: "i < length ws \<Longrightarrow> wstep fmt self (ws ! i) st = Some (w', st') \<Longrightarrow>
           pstep fmt self (st, ws) (st', ws[i := w'])"

definition pool_weight :: "store \<times> worker list \<Rightarrow> nat" where
  "pool_weight c = sum_list (map weight (snd c))"

text \<open>A hook that runs no command on the parameters.\<close>

definition silent :: "ohook \<Rightarrow> bool" where
  "silent h \<longleftrightarrow> (\<forall>req. snd (h req) = [])"

text \<open>A hook that does not use the setter.\<close>

definition no_rebind :: "ohook \<Rightarrow> bool" where
  "no_rebind h \<longleftrightarrow> (\<forall>req. \<forall>c \<in> set (snd (h req)). \<not> is_Rebind c)"

text \<open>What a worker has answered.\<close>

fun answer :: "worker \<Rightarrow> dispatch option" where
  "answer (Answered d) = Some d"
| "answer (Routing hs r) = None"


text \<open>
  A worker for an environment is on its way to the answer of
  \<open>process_request\<close>: it has that answer, or its request refers to the
  default dictionary, its hooks run no command, and the call from where it
  stands, with nothing in the default dictionary, gives that answer.
\<close>

definition worker_ok :: "(exn \<Rightarrow> string) \<Rightarrow> restipy \<Rightarrow> worker \<Rightarrow> environ \<Rightarrow> bool" where
  "worker_ok fmt self w environ =
     (case w of
        Answered d \<Rightarrow> d = process_request fmt self environ
      | Routing hs r \<Rightarrow>
          params_ref r = DEFAULT_PARAMS \<and> (\<forall>h \<in> set hs. silent h) \<and>
          process_from fmt (self\<lparr>before_route_m := map fun_of hs\<rparr>)
              ((slots r)\<lparr>p_params := Map.empty\<rparr>)
            = process_request fmt self environ)"

definition pool_ok ::
  "(exn \<Rightarrow> string) \<Rightarrow> restipy \<Rightarrow> environ list \<Rightarrow> store \<times> worker list \<Rightarrow> bool" where
  "pool_ok fmt self envs c \<longleftrightarrow>
     wf_store (fst c) \<and> pristine (fst c) \<and> list_all2 (worker_ok fmt self) (snd c) envs"

text \<open>The hooks \<open>pass_hook\<close> and \<open>login\<close> of the other theories, with their commands.\<close>

definition pass_o :: ohook where
  "pass_o req = ((Inr NonResp, req), [])"

definition login_o :: ohook where
  "login_o req =
     (case vars (env req) ''HTTP_X_USER'' of
        Some u \<Rightarrow> ((Inr NonResp, req), [SetItem ''user'' (Some u)])
      | None \<Rightarrow>
          (case p_params req ''user'' of
             Some u \<Rightarrow> ((Inr NonResp, req), [])
           | None \<Rightarrow> ((Inr (Resp ((text_response ''login first'')\<lparr>status := 401\<rparr>)), req), [])))"

lemmas worker_defs [restipy_defs] =
  params_pop_def fun_of_def run_ohook_def spawn_def after_routing_def lookup_store_def
  pool_weight_def

section \<open>A worker ends\<close>

lemma wstep_weight: "wstep fmt self w st = Some (w', st') \<Longrightarrow> weight w' < weight w"
  by (induction fmt self w st rule: wstep.induct)
     (auto split: prod.splits sum.splits retval.splits)

termination finish
  by (relation "measure (\<lambda>(fmt, self, w, st). weight w)") (auto intro: wstep_weight)

declare finish.simps [simp del]

lemma finish_Answered [simp]: "finish fmt self (Answered d) st = (Answered d, st)"
  by (simp add: finish.simps)

section \<open>The store and the dictionary value\<close>

lemma fold_exec_abs:
  "fold exec_cmd cmds (r, st) = (r', st') \<Longrightarrow>
     params_of st' r' = fold apply_cmd cmds (params_of st r) \<and> slots r' = slots r"
proof (induction cmds arbitrary: r st)
  case Nil
  then show ?case by simp
next
  case (Cons c cmds)
  obtain r1 st1 where c: "exec_cmd c (r, st) = (r1, st1)" by (cases "exec_cmd c (r, st)")
  then have "params_of st1 r1 = apply_cmd c (params_of st r) \<and> slots r1 = slots r"
    by (cases c)
       (auto simp: params_of_def params_setitem_def params_pop_def assign_groups_def alloc_def
          rebind_params_def)
  with Cons.IH [of r1 st1] Cons.prems c show ?case by simp
qed

lemma run_ohook_abs:
  "run_ohook h r st = (res, r', st') \<Longrightarrow> fun_of h (abs_request st r) = (res, abs_request st' r')"
  by (auto simp: run_ohook_def fun_of_def abs_request_def set_params_def params_of_def
      split: prod.splits dest!: fold_exec_abs)

lemma fold_exec_ref:
  "\<forall>c \<in> set cmds. \<not> is_Rebind c \<Longrightarrow> fold exec_cmd cmds (r, st) = (r', st') \<Longrightarrow>
     params_ref r' = params_ref r \<and> lim st' = lim st"
proof (induction cmds arbitrary: r st)
  case Nil
  then show ?case by simp
next
  case (Cons c cmds)
  from Cons.prems(1) have "exec_cmd c (r, st) = (r, snd (exec_cmd c (r, st)))
      \<and> lim (snd (exec_cmd c (r, st))) = lim st"
    by (cases c) (simp_all add: params_setitem_def params_pop_def)
  with Cons.IH [of r "snd (exec_cmd c (r, st))"] Cons.prems show ?case by simp
qed

lemma fold_exec_wf: "wf_store st \<Longrightarrow> fold exec_cmd cmds (r, st) = (r', st') \<Longrightarrow> wf_store st'"
proof (induction cmds arbitrary: r st)
  case Nil
  then show ?case by simp
next
  case (Cons c cmds)
  from Cons.prems(1) have "wf_store (snd (exec_cmd c (r, st)))"
    by (cases c)
       (simp_all add: params_pop_def params_setitem_def assign_groups_def alloc_def wf_store_def)
  with Cons.IH [of "snd (exec_cmd c (r, st))" "fst (exec_cmd c (r, st))"] Cons.prems
  show ?case by simp
qed

lemma run_ohook_slots:
  "run_ohook h r st = (res, r', st') \<Longrightarrow> (res, slots r') = fst (h (abs_request st r))"
  by (auto simp: run_ohook_def split: prod.splits dest!: fold_exec_abs)

lemma run_ohook_wf: "wf_store st \<Longrightarrow> run_ohook h r st = (res, r', st') \<Longrightarrow> wf_store st'"
  by (auto simp: run_ohook_def split: prod.splits dest: fold_exec_wf)

lemma run_ohook_ref:
  "no_rebind h \<Longrightarrow> run_ohook h r st = (res, r', st') \<Longrightarrow>
     params_ref r' = params_ref r \<and> lim st' = lim st"
  by (auto simp: run_ohook_def no_rebind_def split: prod.splits
      dest!: fold_exec_ref [rotated] spec [where x = "abs_request st r"])

lemma run_ohook_silent:
  "silent h \<Longrightarrow> run_ohook h r st = (fst (fst (h (abs_request st r))),
     r\<lparr>slots := snd (fst (h (abs_request st r)))\<rparr>, st)"
  by (simp add: run_ohook_def silent_def case_prod_unfold)

lemma run_before_o_abs:
  "run_before_o hs r st = ((res, r'), st') \<Longrightarrow>
     run_before (map fun_of hs) (abs_request st r) = (res, abs_request st' r')"
proof (induction hs arbitrary: r st)
  case Nil
  then show ?case by simp
next
  case (Cons h hs)
  obtain x r1 st1 where h: "run_ohook h r st = (x, r1, st1)" by (cases "run_ohook h r st")
  from run_ohook_abs [OF h] Cons h show ?case
    by (auto split: sum.splits retval.splits)
qed

lemma run_before_o_ref:
  "\<forall>h \<in> set hs. no_rebind h \<Longrightarrow> run_before_o hs r st = ((res, r'), st') \<Longrightarrow>
     params_ref r' = params_ref r \<and> lim st' = lim st"
proof (induction hs arbitrary: r st)
  case Nil
  then show ?case by simp
next
  case (Cons h hs)
  obtain x r1 st1 where h: "run_ohook h r st = (x, r1, st1)" by (cases "run_ohook h r st")
  from Cons.prems(1) have "params_ref r1 = params_ref r \<and> lim st1 = lim st"
    by (intro run_ohook_ref [OF _ h]) simp
  with Cons h show ?case
    by (auto split: sum.splits retval.splits)
qed

section \<open>A worker alone\<close>

text \<open>The call is its before-route hooks and then the rest.\<close>

lemma try_body_split:
  "try_body self req =
     (case run_before (before_route_m self) req of
        (Return out, req1) \<Rightarrow> (Inr out, req1)
      | (Raise e, req1) \<Rightarrow> (Inl e, req1)
      | (Next u, req1) \<Rightarrow> after_routing self req1)"
  by (simp add: try_body_def after_routing_def match_def split: prod.splits flow.splits)

text \<open>A worker alone runs its hooks in a row and then the rest.\<close>

lemma finish_Routing:
  "finish fmt self (Routing hs r) st =
     (case run_before_o hs r st of
        ((Next u, r'), st') \<Rightarrow>
          (Answered (conclude fmt self (after_routing self (abs_request st' r'))),
           lookup_store self r' st')
      | ((Return out, r'), st') \<Rightarrow> (Answered (conclude fmt self (Inr out, abs_request st' r')), st')
      | ((Raise e, r'), st') \<Rightarrow> (Answered (conclude fmt self (Inl e, abs_request st' r')), st'))"
proof (induction hs arbitrary: r st)
  case Nil
  show ?case by (simp add: finish.simps [of _ _ "Routing [] r"])
next
  case (Cons h hs)
  then show ?case
    by (simp add: finish.simps [of _ _ "Routing (h # hs) r"]
        split: prod.splits sum.splits retval.splits)
qed

lemma finish_answer:
  assumes "before_route_m self = map fun_of hs"
  shows "fst (finish fmt self (Routing hs r) st) = Answered (process_from fmt self (abs_request st r))"
proof -
  obtain res r' st' where o: "run_before_o hs r st = ((res, r'), st')"
    by (cases "run_before_o hs r st") auto
  from run_before_o_abs [OF o] assms o show ?thesis
    by (cases res) (simp_all add: finish_Routing process_from_def try_body_split)
qed

lemma lookup_store_shared:
  "wf_store st \<Longrightarrow> wf_store (lookup_store self r st)
     \<and> cell (lookup_store self r st) DEFAULT_PARAMS = cell st DEFAULT_PARAMS"
  by (simp add: lookup_store_def assign_groups_shared assign_groups_store split: sum.splits)

lemma finish_shared:
  assumes "before_route_m self = map fun_of hs" and "\<forall>h \<in> set hs. no_rebind h"
    and "wf_store st" and "params_ref r = DEFAULT_PARAMS"
  shows "wf_store (snd (finish fmt self (Routing hs r) st))
     \<and> cell (snd (finish fmt self (Routing hs r) st)) DEFAULT_PARAMS
         = shared_after self (abs_request st r)"
proof -
  obtain res r' st' where o: "run_before_o hs r st = ((res, r'), st')"
    by (cases "run_before_o hs r st") auto
  from run_before_o_ref [OF assms(2) o] assms(3,4)
  have "wf_store st'" and "cell st' DEFAULT_PARAMS = p_params (abs_request st' r')"
    by (simp_all add: wf_store_def abs_request_def params_of_def)
  with run_before_o_abs [OF o] assms(1) o show ?thesis
    by (cases res) (simp_all add: finish_Routing shared_after_def lookup_store_shared)
qed

lemma finish_spawn:
  assumes "before_route_m self = map fun_of ohs"
  shows "fst (finish fmt self (spawn self ohs environ) st) =
     Answered (process_from fmt self (first_request self (cell st DEFAULT_PARAMS) environ))"
  by (simp add: spawn_def finish_answer [OF assms] first_request_store)

lemma finish_spawn_shared:
  assumes "before_route_m self = map fun_of ohs" and "\<forall>h \<in> set ohs. no_rebind h"
    and "wf_store st"
  shows "wf_store (snd (finish fmt self (spawn self ohs environ) st))"
    and "cell (snd (finish fmt self (spawn self ohs environ) st)) DEFAULT_PARAMS =
      shared_after self (first_request self (cell st DEFAULT_PARAMS) environ)"
  using finish_shared [OF assms, of "Request_obj (environ\<lparr>restipy_app := Some (config self)\<rparr>) None"]
  by (simp_all add: spawn_def first_request_store)

lemma new_store_cell [simp]: "cell new_store a = Map.empty"
  by (simp add: new_store_def)

lemma fun_of_fixtures [simp]: "fun_of pass_o = pass_hook" "fun_of login_o = login"
  by (auto simp: fun_eq_iff fun_of_def pass_o_def pass_hook_def login_o_def login_def
      set_params_def split: option.splits)

lemma fixtures_no_rebind [simp]: "no_rebind pass_o" "no_rebind login_o" "silent pass_o"
  by (auto simp: no_rebind_def silent_def pass_o_def login_o_def split: option.splits)

section \<open>A gateway with one thread\<close>

text \<open>
  C19. The calls of a gateway with one thread, run on the store, are the
  calls of \<open>serve\<close>: when the before-route hooks are the hooks of the
  application and none of them uses the setter, the workers answer what
  \<open>serve\<close> says, from the dictionary the store has at the default address,
  and that dictionary is afterwards the one \<open>shared_end\<close> says. So what a
  hook writes with \<^verbatim>\<open>req.params[k] = v\<close> or removes with \<^verbatim>\<open>pop\<close> is what
  the next call starts with.
\<close>

theorem serve_o_refines_serve:
  assumes "before_route_m self = map fun_of ohs" and "\<forall>h \<in> set ohs. no_rebind h"
    and "wf_store st"
  shows "fst (serve_o fmt self ohs st envs) = map Answered (serve fmt self (cell st DEFAULT_PARAMS) envs)
    \<and> cell (snd (serve_o fmt self ohs st envs)) DEFAULT_PARAMS
        = shared_end self (cell st DEFAULT_PARAMS) envs"
  using assms(3)
proof (induction envs arbitrary: st)
  case Nil
  show ?case by (simp add: serve_def)
next
  case (Cons environ envs)
  note step = finish_spawn_shared [OF assms(1,2) Cons.prems, of fmt environ]
  from Cons.IH [OF step(1)] step(2) show ?case
    by (simp add: serve_def case_prod_unfold finish_spawn [OF assms(1)])
qed

theorem serve_o_refines_serve_witness:
  "map (map_option (\<lambda>d. map_sum (\<lambda>e. ()) status (outcome d)) \<circ> answer)
       (fst (serve_o (\<lambda>e. ''trace'') session_app [login_o] new_store [anonymous, alice, anonymous]))
     = [Some (Inr 401), Some (Inr 200), Some (Inr 200)]
   \<and> cell (snd (serve_o (\<lambda>e. ''trace'') session_app [login_o] new_store
         [anonymous, alice, anonymous])) DEFAULT_PARAMS = [''user'' \<mapsto> Some ''alice'']"
  using serve_o_refines_serve [of session_app "[login_o]" new_store "\<lambda>e. ''trace''"
      "[anonymous, alice, anonymous]"]
  by (simp add: serve_def session_shared_after session_status del: serve_o.simps)

section \<open>The call from where a worker stands\<close>

lemma conclude_hooks [simp]: "conclude fmt (self\<lparr>before_route_m := hs\<rparr>) = conclude fmt self"
  by (auto simp: fun_eq_iff conclude_def handle_exception_def Let_def
      split: sum.splits exn.splits option.splits)

lemma after_routing_hooks [simp]:
  "after_routing (self\<lparr>before_route_m := hs\<rparr>) req = after_routing self req"
  by (simp add: after_routing_def)

lemma process_from_hooks_Nil:
  "process_from fmt (self\<lparr>before_route_m := []\<rparr>) req = conclude fmt self (after_routing self req)"
  by (simp add: process_from_def try_body_split)

lemma process_from_hooks_Cons:
  "process_from fmt (self\<lparr>before_route_m := h # hs\<rparr>) req =
     (case h req of
        (Inl e, req') \<Rightarrow> conclude fmt self (Inl e, req')
      | (Inr (Resp out), req') \<Rightarrow> conclude fmt self (Inr out, req')
      | (Inr NonResp, req') \<Rightarrow> process_from fmt (self\<lparr>before_route_m := hs\<rparr>) req')"
  by (simp add: process_from_def try_body_split
      split: prod.splits sum.splits retval.splits flow.splits)

lemma abs_request_pristine:
  "pristine st \<Longrightarrow> params_ref r = DEFAULT_PARAMS \<Longrightarrow>
     abs_request st r = (slots r)\<lparr>p_params := Map.empty\<rparr>"
  by (simp add: abs_request_def params_of_def pristine_def)

lemma fun_of_silent:
  "silent h \<Longrightarrow> fun_of h req =
     (fst (fst (h req)), (snd (fst (h req)))\<lparr>p_params := p_params req\<rparr>)"
  by (simp add: fun_of_def silent_def set_params_def case_prod_unfold)

section \<open>Workers whose hooks leave the parameters alone\<close>

lemma spawn_ok:
  assumes "before_route_m self = map fun_of ohs" and "\<forall>h \<in> set ohs. silent h"
  shows "worker_ok fmt self (spawn self ohs environ) environ"
proof -
  have "self\<lparr>before_route_m := map fun_of ohs\<rparr> = self"
    using assms(1) [symmetric] by simp
  with assms(2) show ?thesis
    by (simp add: worker_ok_def spawn_def Request_obj_def Request_def initial_request_def
        process_from_initial [symmetric] del: process_from_initial)
qed

lemma wstep_ok:
  assumes "worker_ok fmt self w environ" and "wf_store st" and "pristine st"
    and "wstep fmt self w st = Some (w', st')"
  shows "worker_ok fmt self w' environ \<and> wf_store st' \<and> pristine st'"
proof (cases w)
  case (Answered d)
  with assms(4) show ?thesis by simp
next
  case (Routing hs r)
  show ?thesis
  proof (cases hs)
    case Nil
    with Routing assms show ?thesis
      by (auto simp: worker_ok_def process_from_hooks_Nil lookup_store_def assign_groups_store
          abs_request_pristine split: sum.splits)
  next
    case (Cons h hs')
    with Routing assms show ?thesis
      by (auto simp: worker_ok_def process_from_hooks_Cons run_ohook_silent fun_of_silent
          abs_request_pristine split: sum.splits retval.splits)
  qed
qed

lemma pstep_ok:
  assumes "pool_ok fmt self envs c" and "pstep fmt self c c'"
  shows "pool_ok fmt self envs c'"
  using assms(2)
proof cases
  case (turn i ws st w' st')
  with assms(1) have "worker_ok fmt self (ws ! i) (envs ! i)"
    by (simp add: pool_ok_def list_all2_nthD)
  from wstep_ok [OF this _ _ turn(4)] assms(1) turn(1,2)
    list_all2_update_cong [of "worker_ok fmt self" ws envs w' "envs ! i" i]
  show ?thesis
    by (simp add: pool_ok_def)
qed

lemma run_ok:
  "(pstep fmt self)\<^sup>*\<^sup>* c c' \<Longrightarrow> pool_ok fmt self envs c \<Longrightarrow> pool_ok fmt self envs c'"
  by (induction rule: rtranclp_induct) (auto intro: pstep_ok)

lemma pool_ok_start:
  assumes "before_route_m self = map fun_of ohs" and "\<forall>h \<in> set ohs. silent h"
    and "wf_store st" and "pristine st"
  shows "pool_ok fmt self envs (st, map (spawn self ohs) envs)"
  using assms(3,4)
  by (simp add: pool_ok_def list_all2_conv_all_nth spawn_ok [OF assms(1,2)])

section \<open>Every order of steps ends\<close>

lemma wstep_None [simp]: "wstep fmt self w st = None \<longleftrightarrow> is_Answered w"
  by (induction fmt self w st rule: wstep.induct) simp_all





section \<open>One worker after the other is one of the orders\<close>

lemma finish_run:
  "i < length ws \<Longrightarrow> ws ! i = w \<Longrightarrow>
     (pstep fmt self)\<^sup>*\<^sup>* (st, ws)
       (snd (finish fmt self w st), ws[i := fst (finish fmt self w st)])"
proof (induction fmt self w st arbitrary: ws rule: finish.induct)
  case (1 fmt self w st)
  show ?case
  proof (cases "wstep fmt self w st")
    case None
    with "1.prems" list_update_id [of ws i] show ?thesis
      by (cases w) (simp_all del: list_update_id)
  next
    case (Some x)
    obtain w' st' where x: "x = (w', st')" by (cases x)
    from "1.prems" Some x have "pstep fmt self (st, ws) (st', ws[i := w'])"
      by (auto intro: turn)
    moreover from "1.IH" [OF Some x [symmetric], of "ws[i := w']"] "1.prems"
    have "(pstep fmt self)\<^sup>*\<^sup>* (st', ws[i := w'])
       (snd (finish fmt self w' st'), ws[i := fst (finish fmt self w' st')])"
      by simp
    ultimately show ?thesis
      by (simp add: finish.simps [of fmt self w st] Some x)
  qed
qed

lemma serve_o_run:
  "(pstep fmt self)\<^sup>*\<^sup>* (st, pre @ map (spawn self ohs) envs)
     (snd (serve_o fmt self ohs st envs), pre @ fst (serve_o fmt self ohs st envs))"
proof (induction envs arbitrary: st pre)
  case Nil
  show ?case by simp
next
  case (Cons environ envs)
  let ?f = "finish fmt self (spawn self ohs environ) st"
  from finish_run [of "length pre" "pre @ map (spawn self ohs) (environ # envs)" _ fmt self st]
  have "(pstep fmt self)\<^sup>*\<^sup>* (st, pre @ map (spawn self ohs) (environ # envs))
     (snd ?f, (pre @ [fst ?f]) @ map (spawn self ohs) envs)"
    by simp
  with Cons.IH [of "snd ?f" "pre @ [fst ?f]"] show ?case
    by (simp add: case_prod_unfold)
qed

lemma serve_o_done: "list_all is_Answered (fst (serve_o fmt self ohs st envs))"
proof (induction envs arbitrary: st)
  case Nil
  show ?case by simp
next
  case (Cons environ envs)
  have "is_Answered (fst (finish fmt self (spawn self ohs environ) st))"
    by (simp add: spawn_def finish_Routing split: prod.splits flow.splits)
  with Cons show ?case by (simp add: case_prod_unfold)
qed

section \<open>Properties of a pool\<close>

lemma worker_ok_answer:
  "worker_ok fmt self w environ \<Longrightarrow> answer w \<in> {None, Some (process_request fmt self environ)}"
  "worker_ok fmt self w environ \<Longrightarrow> is_Answered w \<Longrightarrow>
     w = Answered (process_request fmt self environ)"
  by (cases w; simp add: worker_ok_def)+

lemma pool_ok_done:
  assumes "list_all2 (worker_ok fmt self) ws envs" and "list_all is_Answered ws"
  shows "ws = map (\<lambda>e. Answered (process_request fmt self e)) envs"
  using assms by (induction rule: list_all2_induct) (simp_all add: worker_ok_answer)

text \<open>
  C18. Calls that run at the same time do not disturb each other when the
  before-route hooks run no command on the parameters: from a well-formed
  store with an empty default dictionary, in whatever order the workers of
  a pool take their steps, the default dictionary stays empty, a worker
  that has answered has the answer of \<open>process_request\<close> for its
  environment, and when all have answered the pool is the list of these
  answers. The views and the other hooks may do what they like: they work
  on the dictionary of the groups.
\<close>

theorem pool_isolated:
  assumes "before_route_m self = map fun_of ohs" and "\<forall>h \<in> set ohs. silent h"
    and "wf_store st" and "pristine st"
    and "(pstep fmt self)\<^sup>*\<^sup>* (st, map (spawn self ohs) envs) (st', ws)"
  shows "pristine st' \<and> length ws = length envs
    \<and> (\<forall>i < length envs. answer (ws ! i) \<in> {None, Some (process_request fmt self (envs ! i))})
    \<and> (list_all is_Answered ws \<longrightarrow> ws = map (\<lambda>e. Answered (process_request fmt self e)) envs)"
proof -
  from run_ok [OF assms(5) pool_ok_start [OF assms(1-4)]]
  have ok: "list_all2 (worker_ok fmt self) ws envs" and "pristine st'"
    by (simp_all add: pool_ok_def)
  moreover have "answer (ws ! i) \<in> {None, Some (process_request fmt self (envs ! i))}"
    if "i < length envs" for i
    using list_all2_nthD2 [OF ok that] by (rule worker_ok_answer)
  ultimately show ?thesis
    by (auto dest: list_all2_lengthD pool_ok_done)
qed

theorem pool_isolated_witness:
  "pristine (snd (serve_o (\<lambda>e. ''trace'') (demo_app False) [pass_o] new_store
       [demo_environ ''get'' ''/users/42'', demo_environ ''GET'' ''/guard'']))
   \<and> fst (serve_o (\<lambda>e. ''trace'') (demo_app False) [pass_o] new_store
       [demo_environ ''get'' ''/users/42'', demo_environ ''GET'' ''/guard'']) =
     [Answered (process_request (\<lambda>e. ''trace'') (demo_app False) (demo_environ ''get'' ''/users/42'')),
      Answered (process_request (\<lambda>e. ''trace'') (demo_app False) (demo_environ ''GET'' ''/guard''))]"
  using pool_isolated [OF _ _ _ _ serve_o_run [of "\<lambda>e. ''trace''" "demo_app False" new_store "[]"
        "[pass_o]" "[demo_environ ''get'' ''/users/42'', demo_environ ''GET'' ''/guard'']",
        unfolded append_Nil]]
    serve_o_done [of "\<lambda>e. ''trace''" "demo_app False" "[pass_o]" new_store
        "[demo_environ ''get'' ''/users/42'', demo_environ ''GET'' ''/guard'']"]
  by (simp del: serve_o.simps)






end
