(* ===== verification/Restipy_Serial.thy ===== *)
theory Restipy_Serial
  imports Restipy_Workers
begin

text \<open>
  Calls that run at the same time in an application with one before-route
  hook, which may write into the parameters with \<^verbatim>\<open>req.params[k] = v\<close> and
  \<^verbatim>\<open>pop\<close>. A call reads and writes the shared dictionary only while its
  hook runs, so the calls of a pool answer as if they had been served one
  after the other, in the order in which their hooks ran. The theory
  defines what it means for a pool to agree with such an order
  (\<open>serial\<close>), shows that every step keeps it, and with it that the
  answers of every run are the answers of \<open>serve\<close> of \<open>Restipy_Server\<close>
  for one order of the requests.
\<close>

section \<open>A pool that agrees with an order of its calls\<close>

text \<open>
  A worker agrees with a call that starts from a request: it has answered
  with the outcome of that call, or it has only lookup and what follows
  before it and will answer with that outcome, whatever is in the store
  then.
\<close>

definition on_way :: "(exn \<Rightarrow> string) \<Rightarrow> restipy \<Rightarrow> worker \<Rightarrow> request \<Rightarrow> bool" where
  "on_way fmt self w req =
     (case w of
        Answered d \<Rightarrow> outcome d = outcome (process_from fmt self req)
      | Routing hs r \<Rightarrow>
          hs = [] \<and>
          (\<forall>st. outcome (conclude fmt self (after_routing self (abs_request st r)))
                = outcome (process_from fmt self req)))"

text \<open>
  A pool agrees with an order of some of its calls, from the dictionary
  \<open>s0\<close>: the calls of the order have run their hook, one after the other
  in this order, and the others have not begun.
\<close>

definition serial ::
  "(exn \<Rightarrow> string) \<Rightarrow> restipy \<Rightarrow> ohook \<Rightarrow> params \<Rightarrow> environ list \<Rightarrow> nat list
     \<Rightarrow> store \<times> worker list \<Rightarrow> bool" where
  "serial fmt self h s0 envs order c \<longleftrightarrow>
     wf_store (fst c) \<and> length (snd c) = length envs \<and>
     distinct order \<and> set order \<subseteq> {..<length envs} \<and>
     cell (fst c) DEFAULT_PARAMS = shared_end self s0 (map ((!) envs) order) \<and>
     (\<forall>j < length envs. j \<notin> set order \<longrightarrow> snd c ! j = spawn self [h] (envs ! j)) \<and>
     (\<forall>k < length order.
         on_way fmt self (snd c ! (order ! k)) (starts self s0 (map ((!) envs) order) ! k))"

section \<open>The parameters do not matter after the hooks\<close>

lemma conclude_outcome_params:
  "outcome (conclude fmt self (x, req\<lparr>p_params := ps\<rparr>)) = outcome (conclude fmt self (x, req))"
  by (auto simp: conclude_def handle_exception_def Let_def
      split: sum.splits exn.splits option.splits)

lemma match_hooks [simp]: "match (self\<lparr>before_route_m := hs\<rparr>) = match self"
  by (simp add: fun_eq_iff match_def)

lemma path_params [simp]:
  "path (req\<lparr>p_params := ps\<rparr>) = path req"
  "request_method (req\<lparr>p_params := ps\<rparr>) = request_method req"
  by (simp_all add: path_def request_method_def)

lemma after_routing_found:
  "match self (path req) (request_method req) = Inr found \<Longrightarrow>
     after_routing self (req\<lparr>p_params := ps\<rparr>) = after_routing self req"
  by (cases found) (simp add: after_routing_def try_body_def set_params_def)

lemma after_routing_not_found:
  "match self (path req) (request_method req) = Inl e \<Longrightarrow> after_routing self req = (Inl e, req)"
  by (simp add: after_routing_def try_body_def)

lemma outcome_after_routing:
  "outcome (conclude fmt self (after_routing self (req\<lparr>p_params := ps\<rparr>))) =
     outcome (conclude fmt self (after_routing self req))"
  by (cases "match self (path req) (request_method req)")
     (simp_all add: after_routing_found after_routing_not_found conclude_outcome_params)

lemma outcome_abs_request [simp]:
  "outcome (conclude fmt self (after_routing self (abs_request st r))) =
     outcome (conclude fmt self (after_routing self (slots r)))"
  using outcome_after_routing [where req = "slots r" and fmt = fmt and self = self]
  by (simp add: abs_request_def)

section \<open>The two kinds of step\<close>

text \<open>The step of the hook: the call reads the shared dictionary and leaves it as \<open>shared_after\<close> says.\<close>

lemma hook_step:
  assumes "before_route_m self = [fun_of h]" and "no_rebind h" and "wf_store st"
    and "wstep fmt self (spawn self [h] environ) st = Some (w', st')"
  shows "wf_store st'"
    and "cell st' DEFAULT_PARAMS = shared_after self (first_request self (cell st DEFAULT_PARAMS) environ)"
    and "on_way fmt self w' (first_request self (cell st DEFAULT_PARAMS) environ)"
proof -
  let ?r = "Request_obj (environ\<lparr>restipy_app := Some (config self)\<rparr>) None"
  obtain res r1 st1 where o: "run_ohook h ?r st = (res, r1, st1)"
    by (cases "run_ohook h ?r st")
  from run_ohook_ref [OF assms(2) o] assms(3)
  have ref: "wf_store st1" "cell st1 DEFAULT_PARAMS = p_params (abs_request st1 r1)"
    by (simp_all add: wf_store_def abs_request_def params_of_def)
  from run_ohook_abs [OF o]
  have run: "fun_of h (first_request self (cell st DEFAULT_PARAMS) environ) = (res, abs_request st1 r1)"
    by (simp add: first_request_store)
  from assms(4) o have st': "st' = st1"
    by (auto simp: spawn_def split: sum.splits retval.splits)
  with ref show "wf_store st'" by simp
  from run ref(2) st' assms(1)
  show "cell st' DEFAULT_PARAMS = shared_after self (first_request self (cell st DEFAULT_PARAMS) environ)"
    by (auto simp: shared_after_def split: sum.splits retval.splits)
  from run assms(1,4) o
  show "on_way fmt self w' (first_request self (cell st DEFAULT_PARAMS) environ)"
    by (auto simp: on_way_def spawn_def process_from_def try_body_split
        split: sum.splits retval.splits)
qed

text \<open>The step after the hook: the call answers what it was going to, and leaves the shared dictionary alone.\<close>

lemma later_step:
  assumes "on_way fmt self w req" and "wf_store st" and "wstep fmt self w st = Some (w', st')"
  shows "on_way fmt self w' req \<and> wf_store st' \<and> cell st' DEFAULT_PARAMS = cell st DEFAULT_PARAMS"
proof (cases w)
  case (Answered d)
  with assms(3) show ?thesis by simp
next
  case (Routing hs r)
  with assms show ?thesis
    by (auto simp: on_way_def lookup_store_shared)
qed

section \<open>Every step keeps the agreement\<close>

lemma starts_nth_prefix:
  "k < length es \<Longrightarrow> starts self s0 (es @ es') ! k = starts self s0 es ! k"
  by (simp add: starts_append nth_append)

lemma starts_last:
  "starts self s0 (es @ [e]) ! length es = first_request self (shared_end self s0 es) e"
  by (simp add: starts_append nth_append)

lemma serial_start:
  "wf_store st \<Longrightarrow> serial fmt self h (cell st DEFAULT_PARAMS) envs [] (st, map (spawn self [h]) envs)"
  by (simp add: serial_def)

lemma serial_again:
  assumes s: "serial fmt self h s0 envs order (st, ws)" and k: "k < length order"
    and w: "on_way fmt self w' (starts self s0 (map ((!) envs) order) ! k)"
    and st: "wf_store st'" "cell st' DEFAULT_PARAMS = cell st DEFAULT_PARAMS"
  shows "serial fmt self h s0 envs order (st', ws[order ! k := w'])"
proof -
  from s k have i: "order ! k < length ws" "order ! k \<in> set order"
    by (auto simp: serial_def dest: nth_mem)
  have "on_way fmt self (ws[order ! k := w'] ! (order ! k')) (starts self s0 (map ((!) envs) order) ! k')"
    if "k' < length order" for k'
    using s k that w i(1) by (cases "k' = k") (auto simp: serial_def nth_eq_iff_index_eq)
  moreover have "ws[order ! k := w'] ! j = spawn self [h] (envs ! j)"
    if "j < length envs" "j \<notin> set order" for j
  proof -
    from that(2) i(2) have "j \<noteq> order ! k" by auto
    with s that show ?thesis by (simp add: serial_def)
  qed
  ultimately show ?thesis
    using s st by (simp add: serial_def)
qed

lemma serial_first:
  assumes s: "serial fmt self h s0 envs order (st, ws)" and i: "i < length envs" "i \<notin> set order"
    and st: "wf_store st'"
      "cell st' DEFAULT_PARAMS = shared_after self (first_request self (cell st DEFAULT_PARAMS) (envs ! i))"
    and w: "on_way fmt self w' (first_request self (cell st DEFAULT_PARAMS) (envs ! i))"
  shows "serial fmt self h s0 envs (order @ [i]) (st', ws[i := w'])"
proof -
  let ?es = "map ((!) envs) order"
  from s have c: "cell st DEFAULT_PARAMS = shared_end self s0 ?es" and l: "length ws = length envs"
    by (simp_all add: serial_def)
  have "on_way fmt self (ws[i := w'] ! ((order @ [i]) ! k)) (starts self s0 (?es @ [envs ! i]) ! k)"
    if "k < Suc (length order)" for k
  proof (cases "k < length order")
    case True
    with i(2) have "order ! k \<noteq> i" by (auto dest: nth_mem)
    with s True show ?thesis
      by (simp add: serial_def nth_append starts_nth_prefix)
  next
    case False
    with that have "k = length order" by simp
    with w c i(1) l starts_last [of self s0 ?es "envs ! i"] show ?thesis
      by simp
  qed
  moreover have "ws[i := w'] ! j = spawn self [h] (envs ! j)"
    if "j < length envs" "j \<notin> set order" "j \<noteq> i" for j
    using s that by (simp add: serial_def)
  ultimately show ?thesis
    using s i st c by (simp add: serial_def shared_end_append)
qed

lemma serial_step:
  assumes "before_route_m self = [fun_of h]" and "no_rebind h"
    and "serial fmt self h s0 envs order c" and "pstep fmt self c c'"
  shows "\<exists>order'. serial fmt self h s0 envs order' c'"
  using assms(4)
proof cases
  case (turn i ws st w' st')
  from assms(3) turn(1,3) have wf: "wf_store st" and i: "i < length envs"
    by (simp_all add: serial_def)
  show ?thesis
  proof (cases "i \<in> set order")
    case True
    then obtain k where k: "k < length order" "order ! k = i"
      by (auto simp: in_set_conv_nth)
    with assms(3) turn(1) have "on_way fmt self (ws ! i) (starts self s0 (map ((!) envs) order) ! k)"
      by (auto simp: serial_def)
    from later_step [OF this wf turn(4)] serial_again [OF assms(3) [unfolded turn(1)] k(1)] k(2) turn(2)
    show ?thesis by auto
  next
    case False
    with assms(3) turn(1) i have "ws ! i = spawn self [h] (envs ! i)"
      by (simp add: serial_def)
    with turn(4) have "wstep fmt self (spawn self [h] (envs ! i)) st = Some (w', st')"
      by simp
    from hook_step [OF assms(1,2) wf this] serial_first [OF assms(3) [unfolded turn(1)] i False]
      turn(2)
    show ?thesis by auto
  qed
qed

lemma serial_run:
  assumes "before_route_m self = [fun_of h]" and "no_rebind h"
  shows "(pstep fmt self)\<^sup>*\<^sup>* c c' \<Longrightarrow> serial fmt self h s0 envs order c \<Longrightarrow>
     \<exists>order'. serial fmt self h s0 envs order' c'"
  by (induction arbitrary: order rule: rtranclp_induct)
     (auto dest: serial_step [OF assms])

lemma on_way_answer:
  "on_way fmt self w req \<Longrightarrow>
     map_option outcome (answer w) \<in> {None, Some (outcome (process_from fmt self req))}"
  by (cases w) (simp_all add: on_way_def)

lemma serial_answered:
  "serial fmt self h s0 envs order (st, ws) \<Longrightarrow> j < length envs \<Longrightarrow> is_Answered (ws ! j) \<Longrightarrow>
     j \<in> set order"
  by (auto simp: serial_def spawn_def)

text \<open>A run of the session in which the client without the header is served first.\<close>

lemma session_run_reverse:
  "(pstep fmt session_app)\<^sup>*\<^sup>*
     (new_store, map (spawn session_app [login_o]) [alice, anonymous])
     (snd (finish fmt session_app (spawn session_app [login_o] alice)
            (snd (finish fmt session_app (spawn session_app [login_o] anonymous) new_store))),
      [fst (finish fmt session_app (spawn session_app [login_o] alice)
            (snd (finish fmt session_app (spawn session_app [login_o] anonymous) new_store))),
       fst (finish fmt session_app (spawn session_app [login_o] anonymous) new_store)])"
  using finish_run [of 1 "map (spawn session_app [login_o]) [alice, anonymous]" _ fmt session_app
      new_store]
    finish_run [of 0 "[spawn session_app [login_o] alice,
        fst (finish fmt session_app (spawn session_app [login_o] anonymous) new_store)]" _ fmt
      session_app "snd (finish fmt session_app (spawn session_app [login_o] anonymous) new_store)"]
  by simp

section \<open>Every run is a serial one\<close>

text \<open>
  C40. A pool of calls with one before-route hook that does not use the
  setter is serialisable: after any steps in any order there is an order of
  the calls that have begun, to which every call that has answered
  belongs, such that each of them, when it has answered, has the outcome
  that \<open>serve\<close> gives when the requests are served one after the other in
  this order, and the shared dictionary is what \<open>shared_end\<close> says for
  this order.
\<close>

theorem pool_serialisable:
  assumes "before_route_m self = [fun_of h]" and "no_rebind h" and "wf_store st"
    and "(pstep fmt self)\<^sup>*\<^sup>* (st, map (spawn self [h]) envs) (st', ws)"
  shows "\<exists>order. distinct order \<and> set order \<subseteq> {..<length envs}
      \<and> {j. j < length envs \<and> is_Answered (ws ! j)} \<subseteq> set order
      \<and> cell st' DEFAULT_PARAMS = shared_end self (cell st DEFAULT_PARAMS) (map ((!) envs) order)
      \<and> (\<forall>k < length order. map_option outcome (answer (ws ! (order ! k)))
            \<in> {None, Some (outcome (serve fmt self (cell st DEFAULT_PARAMS)
                                   (map ((!) envs) order) ! k))})"
proof -
  from serial_run [OF assms(1,2,4) serial_start [OF assms(3)]]
  obtain order where s: "serial fmt self h (cell st DEFAULT_PARAMS) envs order (st', ws)"
    by blast
  then have "map_option outcome (answer (ws ! (order ! k)))
      \<in> {None, Some (outcome (serve fmt self (cell st DEFAULT_PARAMS) (map ((!) envs) order) ! k))}"
    if "k < length order" for k
    using that on_way_answer [of fmt self "ws ! (order ! k)"] by (simp add: serial_def serve_def)
  with s serial_answered [OF s] show ?thesis
    by (intro exI [of _ order]) (auto simp: serial_def)
qed

theorem pool_serialisable_witness:
  "\<exists>order. distinct order \<and> set order \<subseteq> {..<length [alice, anonymous]}
     \<and> cell (snd (finish (\<lambda>e. ''trace'') session_app (spawn session_app [login_o] alice)
            (snd (finish (\<lambda>e. ''trace'') session_app (spawn session_app [login_o] anonymous)
                   new_store)))) DEFAULT_PARAMS
         = shared_end session_app Map.empty (map ((!) [alice, anonymous]) order)"
  using pool_serialisable [OF _ _ _ session_run_reverse [of "\<lambda>e. ''trace''"]]
  by auto

end
