(* ===== verification/Restipy_Trace.thy ===== *)
theory Restipy_Trace
  imports Restipy_Dispatcher "HOL-Library.Product_Lexorder"
begin

text \<open>
  Which hooks \<^verbatim>\<open>process_request\<close> of \<^verbatim>\<open>src/restipy/core/application.py\<close>
  calls, and in which order. The loops and the \<^verbatim>\<open>try\<close> block of the
  dispatcher are given once more, each returning the list of the calls it
  made beside its result: a before-route hook by its position in the list,
  the lookup, a before-handler hook by its position, a hook of the view, an
  after-handler hook by its position. Forgetting the list gives the
  definitions of the other theories back, so the calls recorded are the
  calls of the pipeline that the other theorems are about.

  The theorems show that the calls of every request come in the order of
  the stages and, within a stage, in the order of registration, each hook
  at most once; that an after-handler hook is called only when the three
  hooks of the view have run and \<^verbatim>\<open>on_exception\<close> has not; and that a request
  no hook interferes with calls every hook.
\<close>

section \<open>Events\<close>

datatype vhook = VBefore | VHandler | VAfter | VOnException

datatype event =
    BeforeRoute nat
  | Lookup
  | BeforeHandler nat
  | ViewHook vhook
  | AfterHandler nat

text \<open>The place of a hook of the view in the view stage, and of an event in the pipeline.\<close>

fun vhook_index :: "vhook \<Rightarrow> nat" where
  "vhook_index VBefore = 0"
| "vhook_index VHandler = 1"
| "vhook_index VAfter = 2"
| "vhook_index VOnException = 3"

fun stage :: "event \<Rightarrow> nat \<times> nat" where
  "stage (BeforeRoute i) = (0, i)"
| "stage Lookup = (1, 0)"
| "stage (BeforeHandler i) = (2, i)"
| "stage (ViewHook h) = (3, vhook_index h)"
| "stage (AfterHandler i) = (4, i)"

text \<open>
  The events in the order of their places, so that the library's facts about
  sorted lists are facts about lists of calls.
\<close>

instantiation event :: linorder
begin

definition less_eq_event :: "event \<Rightarrow> event \<Rightarrow> bool" where
  "less_eq_event e e' \<longleftrightarrow> stage e \<le> stage e'"

definition less_event :: "event \<Rightarrow> event \<Rightarrow> bool" where
  "less_event e e' \<longleftrightarrow> stage e < stage e'"

instance
proof
  fix x y z :: event
  show "x < y \<longleftrightarrow> x \<le> y \<and> \<not> y \<le> x"
    by (auto simp: less_event_def less_eq_event_def)
  show "x \<le> x" by (simp add: less_eq_event_def)
  show "x \<le> y \<Longrightarrow> y \<le> z \<Longrightarrow> x \<le> z" by (auto simp: less_eq_event_def)
  show "x \<le> y \<or> y \<le> x" by (auto simp: less_eq_event_def)
  have "vhook_index h = vhook_index h' \<Longrightarrow> h = h'" for h h'
    by (cases h; cases h') simp_all
  then have inj: "stage x = stage y \<Longrightarrow> x = y"
    by (cases x; cases y) auto
  show "x = y" if "x \<le> y" and "y \<le> x"
  proof (rule inj)
    from that show "stage x = stage y" by (simp add: less_eq_event_def)
  qed
qed

end

section \<open>The loops with their calls\<close>

text \<open>The loop over before-hooks; \<open>mk\<close> names the event of a position, \<open>i\<close> counts.\<close>

fun run_before_tr ::
  "(nat \<Rightarrow> event) \<Rightarrow> nat \<Rightarrow> hook list \<Rightarrow> request
     \<Rightarrow> ((exn, response, unit) flow \<times> request) \<times> event list" where
  "run_before_tr mk i [] req = ((Next (), req), [])"
| "run_before_tr mk i (mw # mws) req =
     (case mw req of
        (Inl e, req') \<Rightarrow> ((Raise e, req'), [mk i])
      | (Inr (Resp r), req') \<Rightarrow> ((Return r, req'), [mk i])
      | (Inr NonResp, req') \<Rightarrow>
          (case run_before_tr mk (Suc i) mws req' of (res, tr) \<Rightarrow> (res, mk i # tr)))"

fun run_after_tr ::
  "nat \<Rightarrow> after_hook list \<Rightarrow> request \<Rightarrow> response \<Rightarrow> ((exn + response) \<times> request) \<times> event list" where
  "run_after_tr i [] req out = ((Inr out, req), [])"
| "run_after_tr i (mw # mws) req out =
     (case mw req out of
        (Some e, req', out') \<Rightarrow> ((Inl e, req'), [AfterHandler i])
      | (None, req', out') \<Rightarrow>
          (case run_after_tr (Suc i) mws req' out' of (res, tr) \<Rightarrow> (res, AfterHandler i # tr)))"

section \<open>The calls of the view stage\<close>

text \<open>The hooks the state machine of the view calls from a state on.\<close>

function vcalls :: "view \<Rightarrow> vstate \<Rightarrow> vhook list" where
  "vcalls v (BEFORE req) = VBefore # vcalls v (vnext v (BEFORE req))"
| "vcalls v (HANDLER req) = VHandler # vcalls v (vnext v (HANDLER req))"
| "vcalls v (AFTER req out) = VAfter # vcalls v (vnext v (AFTER req out))"
| "vcalls v (ON_EXCEPTION req e) = VOnException # vcalls v (vnext v (ON_EXCEPTION req e))"
| "vcalls v (DONE f req) = []"
  by pat_completeness auto
termination
proof (relation "measure (\<lambda>(v, s). rank s)")
  show "wf (measure (\<lambda>(v, s). rank s))" by simp
qed (simp_all add: vnext_rank del: vnext.simps rank.simps)

declare vcalls.simps [simp del]

section \<open>The pipeline with its calls\<close>

definition try_body_tr :: "restipy \<Rightarrow> request \<Rightarrow> ((exn + response) \<times> request) \<times> event list" where
  "try_body_tr self req =
     (case run_before_tr BeforeRoute 0 (before_route_m self) req of
        ((Return out, req1), t1) \<Rightarrow> ((Inr out, req1), t1)
      | ((Raise e, req1), t1) \<Rightarrow> ((Inl e, req1), t1)
      | ((Next u, req1), t1) \<Rightarrow>
          (case match self (path req1) (request_method req1) of
             Inl e \<Rightarrow> ((Inl e, req1), t1 @ [Lookup])
           | Inr (v, ps) \<Rightarrow>
               (case run_before_tr BeforeHandler 0 (before_m self) (set_params req1 ps) of
                  ((Return out, req2), t2) \<Rightarrow> ((Inr out, req2), t1 @ Lookup # t2)
                | ((Raise e, req2), t2) \<Rightarrow> ((Inl e, req2), t1 @ Lookup # t2)
                | ((Next u, req2), t2) \<Rightarrow>
                    (let t3 = map ViewHook (vcalls v (BEFORE req2))
                     in case view_lifecycle v req2 of
                          (Return out, req3) \<Rightarrow> ((Inr out, req3), t1 @ Lookup # t2 @ t3)
                        | (Raise e, req3) \<Rightarrow> ((Inl e, req3), t1 @ Lookup # t2 @ t3)
                        | (Next out, req3) \<Rightarrow>
                            (case run_after_tr 0 (after_m self) req3 out of
                               (res, t4) \<Rightarrow> (res, t1 @ Lookup # t2 @ t3 @ t4))))))"

text \<open>The calls \<^verbatim>\<open>process_request\<close> makes for an environment.\<close>

definition calls :: "restipy \<Rightarrow> environ \<Rightarrow> event list" where
  "calls self environ = snd (try_body_tr self (initial_request self environ))"

text \<open>Calls in the order of the pipeline: every call at a later place than the one before.\<close>

definition ordered :: "event list \<Rightarrow> bool" where
  "ordered tr = sorted_wrt (<) (map stage tr)"

section \<open>Forgetting the calls\<close>

lemma run_before_tr_result [simp]: "fst (run_before_tr mk i hs req) = run_before hs req"
  by (induction hs arbitrary: i req)
     (simp_all add: case_prod_unfold split: sum.splits retval.splits)

lemma run_after_tr_result [simp]: "fst (run_after_tr i hs req out) = run_after hs req out"
  by (induction hs arbitrary: i req out) (simp_all add: case_prod_unfold split: option.splits)

lemma try_body_tr_result: "fst (try_body_tr self req) = try_body self req"
  by (simp add: try_body_tr_def try_body_def case_prod_unfold Let_def
      split: flow.splits sum.splits)

section \<open>The calls of a loop\<close>

lemma upt_shift: "f i # map f [Suc i..<Suc (i + n)] = map f [i..<Suc (i + n)]"
  by (simp add: upt_conv_Cons del: upt_Suc)

text \<open>A loop calls a prefix of its list, in the order of the list.\<close>

lemma run_before_tr_calls:
  "\<exists>n. n \<le> length hs \<and> snd (run_before_tr mk i hs req) = map mk [i..<i + n]"
proof (induction hs arbitrary: i req)
  case Nil
  have "0 \<le> length ([] :: hook list) \<and> snd (run_before_tr mk i [] req) = map mk [i..<i + 0]"
    by simp
  then show ?case ..
next
  case (Cons h hs)
  obtain res req1 where h: "h req = (res, req1)" by (cases "h req")
  show ?case
  proof (cases "res = Inr NonResp")
    case True
    from Cons [of "Suc i" req1] obtain n
      where "n \<le> length hs" "snd (run_before_tr mk (Suc i) hs req1) = map mk [Suc i..<Suc i + n]"
      by blast
    with h True have "Suc n \<le> length (h # hs)
        \<and> snd (run_before_tr mk i (h # hs) req) = map mk [i..<i + Suc n]"
      by (simp add: case_prod_unfold upt_shift del: upt_Suc)
    then show ?thesis ..
  next
    case False
    with h have "1 \<le> length (h # hs) \<and> snd (run_before_tr mk i (h # hs) req) = map mk [i..<i + 1]"
      by (auto split: sum.splits retval.splits)
    then show ?thesis ..
  qed
qed

lemma run_before_tr_all:
  "fst (run_before hs req) = Next u \<Longrightarrow> length (snd (run_before_tr mk i hs req)) = length hs"
  by (induction hs arbitrary: i req)
     (auto simp: case_prod_unfold split: sum.splits retval.splits)

lemma run_after_tr_calls:
  "\<exists>n. n \<le> length hs \<and> snd (run_after_tr i hs req out) = map AfterHandler [i..<i + n]"
proof (induction hs arbitrary: i req out)
  case Nil
  have "0 \<le> length ([] :: after_hook list)
      \<and> snd (run_after_tr i [] req out) = map AfterHandler [i..<i + 0]"
    by simp
  then show ?case ..
next
  case (Cons h hs)
  obtain e req1 out1 where h: "h req out = (e, req1, out1)" by (cases "h req out")
  show ?case
  proof (cases e)
    case None
    from Cons [of "Suc i" req1 out1] obtain n
      where "n \<le> length hs"
        "snd (run_after_tr (Suc i) hs req1 out1) = map AfterHandler [Suc i..<Suc i + n]"
      by blast
    with h None have "Suc n \<le> length (h # hs)
        \<and> snd (run_after_tr i (h # hs) req out) = map AfterHandler [i..<i + Suc n]"
      by (simp add: case_prod_unfold upt_shift del: upt_Suc)
    then show ?thesis ..
  next
    case (Some e')
    with h have "1 \<le> length (h # hs)
        \<and> snd (run_after_tr i (h # hs) req out) = map AfterHandler [i..<i + 1]"
      by simp
    then show ?thesis ..
  qed
qed

lemma run_after_tr_all:
  "fst (run_after hs req out) = Inr out' \<Longrightarrow>
     length (snd (run_after_tr i hs req out)) = length hs"
  by (induction hs arbitrary: i req out)
     (auto simp: case_prod_unfold split: option.splits)

lemma run_before_tr_every:
  assumes "fst (run_before hs req) = Next u"
  shows "snd (run_before_tr mk 0 hs req) = map mk [0..<length hs]"
proof -
  obtain n where "snd (run_before_tr mk 0 hs req) = map mk [0..<0 + n]"
    using run_before_tr_calls by blast
  with run_before_tr_all [OF assms, of mk 0] show ?thesis by simp
qed

lemma run_after_tr_every:
  assumes "fst (run_after hs req out) = Inr out'"
  shows "snd (run_after_tr 0 hs req out) = map AfterHandler [0..<length hs]"
proof -
  obtain n where "snd (run_after_tr 0 hs req out) = map AfterHandler [0..<0 + n]"
    using run_after_tr_calls by blast
  with run_after_tr_all [OF assms, of 0] show ?thesis by simp
qed

lemma run_before_tr_range: "set (snd (run_before_tr mk i hs req)) \<subseteq> mk ` {i..<i + length hs}"
  using run_before_tr_calls [of hs mk i req] by auto

lemma run_after_tr_range:
  "set (snd (run_after_tr i hs req out)) \<subseteq> AfterHandler ` {i..<i + length hs}"
  using run_after_tr_calls [of hs i req out] by auto

section \<open>The calls of the view stage\<close>

lemma vcalls_DONE: "is_DONE s \<Longrightarrow> vcalls v s = []"
  by (cases s) (simp_all add: vcalls.simps)

lemma vcalls_ascending:
  "sorted_wrt (\<lambda>a b. vhook_index a < vhook_index b) (vcalls v s)
   \<and> (\<forall>h \<in> set (vcalls v s). 4 - rank s \<le> vhook_index h)"
proof (induction v s rule: vcalls.induct)
  case (1 v req)
  have "rank (vnext v (BEFORE req)) < rank (BEFORE req)" by (rule vnext_rank) simp
  with 1 show ?case by (auto simp: vcalls.simps simp del: vnext.simps)
next
  case (2 v req)
  have "rank (vnext v (HANDLER req)) < rank (HANDLER req)" by (rule vnext_rank) simp
  with 2 show ?case by (auto simp: vcalls.simps simp del: vnext.simps)
next
  case (3 v req out)
  have "rank (vnext v (AFTER req out)) < rank (AFTER req out)" by (rule vnext_rank) simp
  with 3 show ?case by (auto simp: vcalls.simps simp del: vnext.simps)
next
  case (4 v req e)
  have "rank (vnext v (ON_EXCEPTION req e)) < rank (ON_EXCEPTION req e)" by (rule vnext_rank) simp
  then have "vcalls v (vnext v (ON_EXCEPTION req e)) = []" by (simp add: vcalls_DONE)
  then show ?case by (simp add: vcalls.simps)
next
  case (5 v f req)
  show ?case by (simp add: vcalls.simps)
qed

lemma vcalls_fall_through:
  "view_lifecycle v req = (Next out, req') \<Longrightarrow> vcalls v (BEFORE req) = [VBefore, VHandler, VAfter]"
  by (auto simp: view_lifecycle_def view_try_def view_catch_def view_except_def vcalls.simps
      split: prod.splits sum.splits retval.splits option.splits if_splits)

section \<open>Calls in order\<close>

lemma ordered_Nil [simp]: "ordered []"
  by (simp add: ordered_def)

text \<open>In order means strictly sorted, so no call is there twice.\<close>

lemma ordered_strict_sorted: "ordered tr \<longleftrightarrow> sorted_wrt (<) tr"
  by (simp add: ordered_def sorted_wrt_map less_event_def [symmetric])

lemma ordered_distinct: "ordered tr \<Longrightarrow> distinct tr"
  by (simp add: ordered_strict_sorted strict_sorted_iff)

lemma ordered_map_upt:
  "(\<And>a b. a < b \<Longrightarrow> stage (mk a) < stage (mk b)) \<Longrightarrow> ordered (map mk [i..<j])"
  by (simp add: ordered_def sorted_wrt_map sorted_wrt_mono_rel [OF _ sorted_wrt_upt])

lemma run_before_tr_ordered:
  "ordered (snd (run_before_tr BeforeRoute i hs req))"
  "ordered (snd (run_before_tr BeforeHandler i hs req))"
  using run_before_tr_calls [of hs BeforeRoute i req] run_before_tr_calls [of hs BeforeHandler i req]
  by (auto simp: ordered_map_upt)

lemma run_after_tr_ordered: "ordered (snd (run_after_tr i hs req out))"
  using run_after_tr_calls [of hs i req out] by (auto simp: ordered_map_upt)

lemma vcalls_ordered: "ordered (map ViewHook (vcalls v s))"
  using vcalls_ascending [of v s] by (simp add: ordered_def sorted_wrt_map)

text \<open>Lists of calls of the four kinds, each in order, are in order one after the other.\<close>

lemma ordered_pipeline:
  assumes "ordered t1" and "ordered t2" and "ordered t3" and "ordered t4"
    and "\<forall>e \<in> set t1. fst (stage e) = 0" and "\<forall>e \<in> set t2. fst (stage e) = 2"
    and "\<forall>e \<in> set t3. fst (stage e) = 3" and "\<forall>e \<in> set t4. fst (stage e) = 4"
  shows "ordered (t1 @ Lookup # t2 @ t3 @ t4)"
  using assms by (auto simp: ordered_def sorted_wrt_append less_prod_def)

lemmas ordered_prefixes =
  ordered_pipeline [where ?t2.0 = "[]" and ?t3.0 = "[]" and ?t4.0 = "[]", simplified]
  ordered_pipeline [where ?t3.0 = "[]" and ?t4.0 = "[]", simplified]
  ordered_pipeline [where ?t4.0 = "[]", simplified]
  ordered_pipeline

lemma loop_ranges:
  "set (snd (run_before_tr BeforeRoute i hs req)) \<subseteq> range BeforeRoute"
  "set (snd (run_before_tr BeforeHandler i hs req)) \<subseteq> range BeforeHandler"
  "set (snd (run_after_tr i ahs req out)) \<subseteq> range AfterHandler"
  "set (map ViewHook vs) \<subseteq> range ViewHook"
  using run_before_tr_range [of BeforeRoute i hs req] run_before_tr_range [of BeforeHandler i hs req]
    run_after_tr_range [of i ahs req out]
  by auto

lemma loop_phases:
  "\<forall>e \<in> set (snd (run_before_tr BeforeRoute i hs req)). fst (stage e) = 0"
  "\<forall>e \<in> set (snd (run_before_tr BeforeHandler i hs req)). fst (stage e) = 2"
  "\<forall>e \<in> set (snd (run_after_tr i ahs req out)). fst (stage e) = 4"
  "\<forall>e \<in> set (map ViewHook vs). fst (stage e) = 3"
  using loop_ranges(1) [of i hs req] loop_ranges(2) [of i hs req] loop_ranges(3) [of i ahs req out]
  by auto

lemmas trace_facts =
  run_before_tr_ordered run_after_tr_ordered vcalls_ordered loop_phases

lemma try_body_tr_ordered: "ordered (snd (try_body_tr self req))"
  by (simp add: try_body_tr_def case_prod_unfold Let_def ordered_prefixes trace_facts
      split: flow.splits sum.splits)

section \<open>The calls of a run that reaches the after-handler hooks\<close>

lemma try_body_tr_full:
  assumes "run_before (before_route_m self) req = (Next (), req1)"
    and "match self (path req1) (request_method req1) = Inr (v, ps)"
    and "run_before (before_m self) (set_params req1 ps) = (Next (), req2)"
    and "view_lifecycle v req2 = (Next out, req3)"
  shows "snd (try_body_tr self req) =
     map BeforeRoute [0..<length (before_route_m self)] @ Lookup
       # map BeforeHandler [0..<length (before_m self)] @ map ViewHook [VBefore, VHandler, VAfter]
       @ snd (run_after_tr 0 (after_m self) req3 out)"
proof -
  from assms(4) have "vcalls v (BEFORE req2) = [VBefore, VHandler, VAfter]"
    by (rule vcalls_fall_through)
  with assms show ?thesis
    by (simp add: try_body_tr_def case_prod_unfold Let_def run_before_tr_every)
qed

lemma after_call_full:
  assumes "AfterHandler i \<in> set (snd (try_body_tr self req))"
  shows "\<exists>req1 v ps req2 out req3.
     run_before (before_route_m self) req = (Next (), req1)
     \<and> match self (path req1) (request_method req1) = Inr (v, ps)
     \<and> run_before (before_m self) (set_params req1 ps) = (Next (), req2)
     \<and> view_lifecycle v req2 = (Next out, req3)"
  using assms loop_ranges(1) [of 0 "before_route_m self" req]
  by (auto simp: try_body_tr_def case_prod_unfold Let_def prod_eq_iff
      split: flow.splits sum.splits dest!: subsetD [OF loop_ranges(2)])

lemma try_body_tr_within:
  "set (snd (try_body_tr self req)) \<subseteq>
     BeforeRoute ` {..<length (before_route_m self)} \<union> {Lookup}
     \<union> BeforeHandler ` {..<length (before_m self)} \<union> range ViewHook
     \<union> AfterHandler ` {..<length (after_m self)}"
  using run_before_tr_range [of BeforeRoute 0 "before_route_m self" req]
  by (auto simp: try_body_tr_def case_prod_unfold Let_def
      split: flow.splits sum.splits
      dest!: subsetD [OF run_before_tr_range] subsetD [OF run_after_tr_range])

section \<open>A worked run\<close>

lemma demo_calls:
  "calls (demo_app False) (demo_environ ''get'' ''/users/42'') =
     [BeforeRoute 0, Lookup, BeforeHandler 0, ViewHook VBefore, ViewHook VHandler, ViewHook VAfter,
      AfterHandler 0]"
  by (simp add: calls_def try_body_tr_def vcalls.simps view_lifecycle_def view_try_def Let_def
      demo_eval http_defs)

lemma demo_calls_guard:
  "calls (demo_app False) (demo_environ ''GET'' ''/guard'') =
     [BeforeRoute 0, Lookup, BeforeHandler 0, ViewHook VBefore]"
  by (simp add: calls_def try_body_tr_def vcalls.simps view_lifecycle_def view_try_def Let_def
      demo_eval http_defs)

section \<open>Properties of the order of calls\<close>

text \<open>
  C12. The hooks run in the order of the pipeline, each at most once: in the
  calls \<^verbatim>\<open>process_request\<close> makes for any application and any environment,
  every call stands at a later place than the call before it, where the
  places are: the before-route hooks by their index in the registry, lookup,
  the before-handler hooks by their index, the hooks of the view
  (\<^verbatim>\<open>before_handler\<close>, \<^verbatim>\<open>handler\<close>, \<^verbatim>\<open>after_handler\<close>, \<^verbatim>\<open>on_exception\<close>), the
  after-handler hooks by their index. No call is of a hook outside the
  three registries and the four hooks of a view.
\<close>

theorem hook_order:
  "ordered (calls self environ) \<and> distinct (calls self environ)
   \<and> set (calls self environ) \<subseteq>
       BeforeRoute ` {..<length (before_route_m self)} \<union> {Lookup}
       \<union> BeforeHandler ` {..<length (before_m self)} \<union> range ViewHook
       \<union> AfterHandler ` {..<length (after_m self)}"
  using try_body_tr_within [of self "initial_request self environ"]
  by (simp add: calls_def try_body_tr_ordered ordered_distinct)

theorem hook_order_witness:
  "ordered [BeforeRoute 0, Lookup, BeforeHandler 0, ViewHook VBefore]"
  using hook_order [of "demo_app False" "demo_environ ''GET'' ''/guard''"]
  by (simp add: demo_calls_guard)

text \<open>
  C13. After-handler hooks see only responses of handlers: when any
  after-handler hook is called, the calls of the request are exactly every
  before-route hook, lookup, every before-handler hook, the three hooks of
  the view that end without an exception, and the after-handler hooks from
  the first one on up to the one that raised or to the last. A response of
  a hook that stopped the pipeline, and a response made for an exception,
  reach no after-handler hook.
\<close>

theorem after_hooks_need_handler:
  assumes "AfterHandler i \<in> set (calls self environ)"
  shows "\<exists>n. i < n \<and> n \<le> length (after_m self)
    \<and> calls self environ =
        map BeforeRoute [0..<length (before_route_m self)] @ Lookup
          # map BeforeHandler [0..<length (before_m self)]
          @ map ViewHook [VBefore, VHandler, VAfter] @ map AfterHandler [0..<n]"
proof -
  let ?req = "initial_request self environ"
  from assms obtain req1 v ps req2 out req3
    where "run_before (before_route_m self) ?req = (Next (), req1)"
      and "match self (path req1) (request_method req1) = Inr (v, ps)"
      and "run_before (before_m self) (set_params req1 ps) = (Next (), req2)"
      and "view_lifecycle v req2 = (Next out, req3)"
    unfolding calls_def by (blast dest: after_call_full)
  then have full: "calls self environ =
      map BeforeRoute [0..<length (before_route_m self)] @ Lookup
        # map BeforeHandler [0..<length (before_m self)] @ map ViewHook [VBefore, VHandler, VAfter]
        @ snd (run_after_tr 0 (after_m self) req3 out)"
    unfolding calls_def by (rule try_body_tr_full)
  obtain n where n: "n \<le> length (after_m self)"
      "snd (run_after_tr 0 (after_m self) req3 out) = map AfterHandler [0..<0 + n]"
    using run_after_tr_calls by blast
  with assms full have "i < n" by auto
  with n full show ?thesis by auto
qed

theorem after_hooks_need_handler_witness:
  "\<exists>n. 0 < n \<and> n \<le> length (after_m (demo_app False))
     \<and> [BeforeRoute 0, Lookup, BeforeHandler 0, ViewHook VBefore, ViewHook VHandler,
         ViewHook VAfter, AfterHandler 0] =
        map BeforeRoute [0..<length (before_route_m (demo_app False))] @ Lookup
          # map BeforeHandler [0..<length (before_m (demo_app False))]
          @ map ViewHook [VBefore, VHandler, VAfter] @ map AfterHandler [0..<n]"
  using after_hooks_need_handler [of 0 "demo_app False" "demo_environ ''get'' ''/users/42''"]
  by (simp add: demo_calls)

text \<open>
  C26. The normal path: when both middleware loops fall through, lookup
  finds a view, and the view stage falls through with the handler's
  response, the captured groups are the request's parameters while the view
  runs, the after-handler hooks run in order on that response, and what
  they leave is returned. The calls are every before-route hook, lookup,
  every before-handler hook, \<^verbatim>\<open>before_handler\<close>, \<^verbatim>\<open>handler\<close> and
  \<^verbatim>\<open>after_handler\<close> of the view, and every after-handler hook, in this
  order.
\<close>

theorem normal_path:
  assumes "run_before (before_route_m self) (initial_request self environ) = (Next (), req1)"
    and "match self (path req1) (request_method req1) = Inr (v, ps)"
    and "run_before (before_m self) (set_params req1 ps) = (Next (), req2)"
    and "view_lifecycle v req2 = (Next out, req3)"
    and "run_after (after_m self) req3 out = (Inr out', req4)"
  shows "process_request fmt self environ =
           \<lparr>outcome = Inr out', final_request = req4, stderr = []\<rparr>
    \<and> calls self environ =
        map BeforeRoute [0..<length (before_route_m self)] @ Lookup
          # map BeforeHandler [0..<length (before_m self)]
          @ map ViewHook [VBefore, VHandler, VAfter]
          @ map AfterHandler [0..<length (after_m self)]"
proof -
  from assms(5) have "snd (run_after_tr 0 (after_m self) req3 out)
      = map AfterHandler [0..<length (after_m self)]"
    by (simp add: run_after_tr_every)
  with assms show ?thesis
    by (simp add: handler_response_returned calls_def try_body_tr_full)
qed

theorem normal_path_witness:
  "outcome (process_request (\<lambda>e. ''trace'') (demo_app False) (demo_environ ''get'' ''/users/42''))
   = Inr \<lparr>body = JStr ''42'', status = 200,
          headers = [(''content-type'', ''application/json; charset=utf-8''), (''x-after'', ''1'')]\<rparr>
   \<and> params (final_request (process_request (\<lambda>e. ''trace'') (demo_app False)
         (demo_environ ''get'' ''/users/42''))) = [''id'' \<mapsto> Some ''42'']
   \<and> calls (demo_app False) (demo_environ ''get'' ''/users/42'') =
       [BeforeRoute 0, Lookup, BeforeHandler 0, ViewHook VBefore, ViewHook VHandler,
        ViewHook VAfter, AfterHandler 0]"
  using normal_path [of "demo_app False" "demo_environ ''get'' ''/users/42''"
      "initial_request (demo_app False) (demo_environ ''get'' ''/users/42'')"
      users_view "[''id'' \<mapsto> Some ''42'']"
      "set_params (initial_request (demo_app False) (demo_environ ''get'' ''/users/42''))
         [''id'' \<mapsto> Some ''42'']"
      "text_response ''42''"
      "set_params (initial_request (demo_app False) (demo_environ ''get'' ''/users/42''))
         [''id'' \<mapsto> Some ''42'']"
      "(text_response ''42'')\<lparr>headers := headers (text_response ''42'') @ [(''x-after'', ''1'')]\<rparr>"
      "set_params (initial_request (demo_app False) (demo_environ ''get'' ''/users/42''))
         [''id'' \<mapsto> Some ''42'']"
      "\<lambda>e. ''trace''"]
  by (simp add: view_lifecycle_def view_try_def demo_eval http_defs)

end
