(* ===== verification/Restipy_Generator.thy ===== *)
theory Restipy_Generator
  imports Restipy_Wsgi
begin

text \<open>
  \<^verbatim>\<open>RestiPy.wsgi\<close> of \<^verbatim>\<open>src/restipy/core/application.py\<close> as the generator it
  is. The function contains \<^verbatim>\<open>yield\<close>, so a call of \<^verbatim>\<open>wsgi\<close> or of \<^verbatim>\<open>__call__\<close>
  runs nothing and returns a generator object; the body runs when the
  gateway asks the object for its next element. The theory gives the object
  as a state (not started, suspended at \<^verbatim>\<open>yield\<close>, finished) with the step
  \<open>gen_next\<close>, the loop of a gateway over it, and what a gateway can see:
  the calls of \<^verbatim>\<open>start_response\<close>, the chunks, and the exception that ends
  the iteration.

  The lemmas show that the loop of a gateway sees exactly what \<open>wsgi\<close> of
  \<open>Restipy_Wsgi\<close> says, and that the object keeps the order a gateway
  relies on whatever the gateway does with it: nothing happens before the
  first step, the first step does everything, and every later step finds
  the object finished.
\<close>

section \<open>The generator object\<close>

text \<open>
  The frame of the generator: the arguments before the first step, nothing
  that is used again once it is suspended at \<^verbatim>\<open>yield data\<close>.
\<close>

datatype gen = Created environ | Suspended | Finished

text \<open>What \<^verbatim>\<open>next\<close> gives: an element, the end of the iteration, or an exception.\<close>

datatype signal = Yield string | StopIteration | Throw exn

text \<open>\<^verbatim>\<open>__call__\<close> and \<^verbatim>\<open>wsgi\<close>, called: a generator that has not started.\<close>

definition call_gen :: "environ \<Rightarrow> gen" where
  "call_gen environ = Created environ"

text \<open>
  One step: the signal, the calls of \<^verbatim>\<open>start_response\<close> made during the step,
  and the frame after it. \<^verbatim>\<open>return []\<close> in a generator ends the iteration;
  a generator that has raised or ended stays finished.
\<close>

definition gen_next ::
  "(exn \<Rightarrow> string) \<Rightarrow> (jvalue \<Rightarrow> string) \<Rightarrow> restipy \<Rightarrow> gen
     \<Rightarrow> signal \<times> (string \<times> header_dict) list \<times> gen" where
  "gen_next format_exc dumps self g =
     (case g of
        Created environ \<Rightarrow>
          (let m = upper (get_or (vars environ) ''REQUEST_METHOD'' ''GET'')
           in case outcome (process_request format_exc self environ) of
                Inl e \<Rightarrow> (Throw e, [], Finished)
              | Inr out \<Rightarrow>
                  (case get_response dumps out of
                     (data, line, hs) \<Rightarrow>
                       if m = ''HEAD'' then (StopIteration, [(line, hs)], Finished)
                       else (Yield data, [(line, hs)], Suspended)))
      | Suspended \<Rightarrow> (StopIteration, [], Finished)
      | Finished \<Rightarrow> (StopIteration, [], Finished))"

section \<open>The gateway\<close>

text \<open>What a gateway sees of an application.\<close>

datatype wsgi_event = StartResponse string header_dict | Write string | Failed exn

definition started_events :: "(string \<times> header_dict) list \<Rightarrow> wsgi_event list" where
  "started_events cs = map (\<lambda>(line, hs). StartResponse line hs) cs"

text \<open>How far a frame is from the end.\<close>

fun gen_rank :: "gen \<Rightarrow> nat" where
  "gen_rank (Created environ) = 2"
| "gen_rank Suspended = 1"
| "gen_rank Finished = 0"

text \<open>
  The loop of a gateway, \<^verbatim>\<open>for data in result: write(data)\<close>: it asks for the
  next element until the iteration ends or raises.
\<close>

function drain ::
  "(exn \<Rightarrow> string) \<Rightarrow> (jvalue \<Rightarrow> string) \<Rightarrow> restipy \<Rightarrow> gen \<Rightarrow> wsgi_event list" where
  "drain fmt dumps self g =
     (case gen_next fmt dumps self g of
        (Yield d, cs, g') \<Rightarrow> started_events cs @ Write d # drain fmt dumps self g'
      | (StopIteration, cs, g') \<Rightarrow> started_events cs
      | (Throw e, cs, g') \<Rightarrow> started_events cs @ [Failed e])"
  by pat_completeness auto

text \<open>What the events say in the terms of \<open>wsgi_result\<close>.\<close>

fun observe :: "wsgi_event list \<Rightarrow> wsgi_result" where
  "observe [] = \<lparr>raised = None, started = None, yielded = []\<rparr>"
| "observe (StartResponse line hs # evs) = (observe evs)\<lparr>started := Some (line, hs)\<rparr>"
| "observe (Write d # evs) = (observe evs)\<lparr>yielded := d # yielded (observe evs)\<rparr>"
| "observe (Failed e # evs) = (observe evs)\<lparr>raised := Some e\<rparr>"

text \<open>
  Any use of the object by a gateway: some number of steps, each adding what
  it showed, with the frame they leave.
\<close>

inductive steps ::
  "(exn \<Rightarrow> string) \<Rightarrow> (jvalue \<Rightarrow> string) \<Rightarrow> restipy \<Rightarrow> gen \<Rightarrow> wsgi_event list \<Rightarrow> gen \<Rightarrow> bool"
  for fmt dumps self where
  no_step: "steps fmt dumps self g [] g"
| one_more:
    "steps fmt dumps self g evs g' \<Longrightarrow> gen_next fmt dumps self g' = (s, cs, g'') \<Longrightarrow>
       steps fmt dumps self g
         (evs @ started_events cs @ (case s of Yield d \<Rightarrow> [Write d] | StopIteration \<Rightarrow> []
                                      | Throw e \<Rightarrow> [Failed e])) g''"

lemmas generator_defs [restipy_defs] = call_gen_def gen_next_def started_events_def

section \<open>The loop of the gateway ends\<close>

lemma gen_next_Yield:
  "gen_next fmt dumps self g = (Yield d, cs, g') \<Longrightarrow> (\<exists>environ. g = Created environ) \<and> g' = Suspended"
  by (auto simp: gen_next_def Let_def split: gen.splits sum.splits prod.splits if_splits)

lemma gen_next_rank: "gen_next fmt dumps self g = (Yield d, cs, g') \<Longrightarrow> gen_rank g' < gen_rank g"
  by (auto dest: gen_next_Yield)

termination drain
  by (relation "measure (\<lambda>(fmt, dumps, self, g). gen_rank g)")
     (auto intro: gen_next_rank [OF sym])

declare drain.simps [simp del]

section \<open>One equation per frame\<close>

lemma gen_next_Finished [simp]: "gen_next fmt dumps self Finished = (StopIteration, [], Finished)"
  by (simp add: gen_next_def)

lemma gen_next_Suspended [simp]: "gen_next fmt dumps self Suspended = (StopIteration, [], Finished)"
  by (simp add: gen_next_def)

lemma drain_Finished [simp]: "drain fmt dumps self Finished = []"
  by (simp add: drain.simps started_events_def)

lemma drain_Suspended [simp]: "drain fmt dumps self Suspended = []"
  by (simp add: drain.simps started_events_def)

lemma drain_raise [restipy_branch]:
  "outcome (process_request fmt self environ) = Inl e \<Longrightarrow>
     drain fmt dumps self (Created environ) = [Failed e]"
  by (simp add: drain.simps gen_next_def started_events_def)

lemma drain_HEAD [restipy_branch]:
  "outcome (process_request fmt self environ) = Inr out \<Longrightarrow>
   upper (get_or (vars environ) ''REQUEST_METHOD'' ''GET'') = ''HEAD'' \<Longrightarrow>
     drain fmt dumps self (Created environ) = [StartResponse (status_line out) (headers out)]"
  by (simp add: drain.simps gen_next_def started_events_def get_response_def)

lemma drain_body [restipy_branch]:
  "outcome (process_request fmt self environ) = Inr out \<Longrightarrow>
   upper (get_or (vars environ) ''REQUEST_METHOD'' ''GET'') \<noteq> ''HEAD'' \<Longrightarrow>
     drain fmt dumps self (Created environ) =
       [StartResponse (status_line out) (headers out), Write (dumps (body out))]"
  by (simp add: drain.simps gen_next_def started_events_def get_response_def)

lemma drain_cases:
  "(\<exists>e. drain fmt dumps self (Created environ) = [Failed e])
   \<or> (\<exists>line hs. drain fmt dumps self (Created environ) = [StartResponse line hs])
   \<or> (\<exists>line hs d. drain fmt dumps self (Created environ) = [StartResponse line hs, Write d])"
  by (cases "outcome (process_request fmt self environ)";
      cases "upper (get_or (vars environ) ''REQUEST_METHOD'' ''GET'') = ''HEAD''")
     (simp_all add: drain_raise drain_HEAD drain_body)

section \<open>Whatever a gateway does\<close>

lemma gen_next_Created:
  assumes "gen_next fmt dumps self (Created environ) = (s, cs, g)"
  shows "started_events cs @ (case s of Yield d \<Rightarrow> [Write d] | StopIteration \<Rightarrow> []
                              | Throw e \<Rightarrow> [Failed e])
           = drain fmt dumps self (Created environ) \<and> (g = Suspended \<or> g = Finished)"
proof (cases s)
  case (Yield d)
  with assms have "g = Suspended" by (auto dest: gen_next_Yield)
  with assms Yield show ?thesis by (simp add: drain.simps [of _ _ _ "Created environ"])
next
  case StopIteration
  with assms show ?thesis
    by (auto simp: drain.simps [of _ _ _ "Created environ"] gen_next_def Let_def
        split: sum.splits prod.splits if_splits)
next
  case (Throw e)
  with assms show ?thesis
    by (auto simp: drain.simps [of _ _ _ "Created environ"] gen_next_def Let_def
        split: sum.splits prod.splits if_splits)
qed

text \<open>After any number of steps a gateway has seen nothing, or all there is to see.\<close>

lemma steps_all_or_nothing:
  "steps fmt dumps self g0 evs g \<Longrightarrow>
     (evs = [] \<and> g = g0) \<or> (evs = drain fmt dumps self g0 \<and> (g = Suspended \<or> g = Finished))"
proof (induction rule: steps.induct)
  case (no_step g)
  show ?case by simp
next
  case (one_more g evs g' s cs g'')
  from one_more.IH show ?case
  proof
    assume "evs = [] \<and> g' = g"
    with one_more.hyps(2) show ?thesis
      by (cases g) (auto dest: gen_next_Created simp: started_events_def)
  next
    assume "evs = drain fmt dumps self g \<and> (g' = Suspended \<or> g' = Finished)"
    with one_more.hyps(2) show ?thesis by (auto simp: started_events_def)
  qed
qed

section \<open>A worked iteration\<close>

lemma demo_method:
  "upper (get_or (vars (demo_environ ''get'' p)) ''REQUEST_METHOD'' ''GET'') = ''GET''"
  by (simp add: demo_environ_def get_or_def string_eval)

lemma demo_outcome:
  "outcome (process_request (\<lambda>e. ''trace'') (demo_app False) (demo_environ ''get'' ''/users/42''))
   = Inr \<lparr>body = JStr ''42'', status = 200,
          headers = [(''content-type'', ''application/json; charset=utf-8''), (''x-after'', ''1'')]\<rparr>"
  by (simp add: process_request_def try_body_def view_lifecycle_def view_try_def Let_def
      demo_eval http_defs)

lemma demo_steps:
  "steps (\<lambda>e. ''trace'') (\<lambda>b. ''body'') (demo_app False)
     (call_gen (demo_environ ''get'' ''/users/42''))
     [StartResponse ''200 OK'' [(''content-type'', ''application/json; charset=utf-8''),
                                 (''x-after'', ''1'')],
      Write ''body'']
     Suspended"
proof -
  let ?g = "call_gen (demo_environ ''get'' ''/users/42'')"
  have "gen_next (\<lambda>e. ''trace'') (\<lambda>b. ''body'') (demo_app False) ?g =
      (Yield ''body'',
       [(''200 OK'', [(''content-type'', ''application/json; charset=utf-8''), (''x-after'', ''1'')])],
       Suspended)"
    by (simp add: generator_defs get_response_def demo_outcome demo_method)
  from steps.one_more [OF steps.no_step this] show ?thesis
    by (simp add: started_events_def)
qed

section \<open>Properties of the generator\<close>

text \<open>
  C16. The loop of a gateway over the generator sees what \<open>wsgi\<close> says:
  for every application and environment, the events of a complete
  iteration over the object \<^verbatim>\<open>__call__\<close> returns, read as the call of
  \<^verbatim>\<open>start_response\<close>, the chunks and the exception, are the result of
  \<open>call\<close>. The generator needs at most two steps for it.
\<close>

theorem drain_refines_call:
  "observe (drain fmt dumps self (call_gen environ)) = call fmt dumps self environ"
  by (cases "outcome (process_request fmt self environ)";
      cases "upper (get_or (vars environ) ''REQUEST_METHOD'' ''GET'') = ''HEAD''")
     (simp_all add: call_gen_def drain_raise drain_HEAD drain_body call_def wsgi_def
        get_response_def)

text \<open>
  C17. The generator keeps the protocol whatever the gateway does. After
  any number of steps, also none and also steps after the end, the gateway
  has seen nothing and the object has not started, or it has seen exactly
  the events of a complete iteration: the exception of \<^verbatim>\<open>process_request\<close>
  and no call of \<^verbatim>\<open>start_response\<close>, or one call of \<^verbatim>\<open>start_response\<close>
  followed by at most one chunk. No step repeats a call or a chunk.
\<close>

theorem generator_protocol:
  assumes "steps fmt dumps self (call_gen environ) evs g"
  shows "((evs = [] \<and> g = call_gen environ)
          \<or> (evs = drain fmt dumps self (call_gen environ) \<and> (g = Suspended \<or> g = Finished)))
    \<and> ((\<exists>e. drain fmt dumps self (call_gen environ) = [Failed e])
         \<or> (\<exists>line hs. drain fmt dumps self (call_gen environ) = [StartResponse line hs])
         \<or> (\<exists>line hs d. drain fmt dumps self (call_gen environ)
                           = [StartResponse line hs, Write d]))"
  using steps_all_or_nothing [OF assms] drain_cases [of fmt dumps self environ]
  by (simp add: call_gen_def)

theorem generator_protocol_witness:
  "drain (\<lambda>e. ''trace'') (\<lambda>b. ''body'') (demo_app False)
     (call_gen (demo_environ ''get'' ''/users/42'')) =
   [StartResponse ''200 OK'' [(''content-type'', ''application/json; charset=utf-8''),
                               (''x-after'', ''1'')],
    Write ''body'']"
  using generator_protocol [OF demo_steps] by simp

end
