(* ===== verification/Spec2Isabelle.thy ===== *)
theory Spec2Isabelle
  imports Restipy_Wellformed Restipy_ReadLoop Restipy_Serial Restipy_Trace Restipy_Generator
begin

text \<open>
  \<^bold>\<open>A verification development for RestiPy's request-dispatch core.\<close>

  RestiPy is a small synchronous web framework. Its core, the file
  \<^verbatim>\<open>src/restipy/core/application.py\<close>, is an application object that holds a
  route table and three lists of middleware hooks, and one operation,
  \<^verbatim>\<open>process_request\<close>, that takes a gateway environment, builds a request
  (\<^verbatim>\<open>src/restipy/core/request.py\<close>), runs the hooks and the matched view in a
  fixed order, and turns every exception it can into a response.

  \<^bold>\<open>The parts of the program and the theories that model them.\<close>

  \<^item> \<open>Restipy_Prelude\<close>: what the components share. The three-way outcome of
    a stage (\<open>flow\<close>: fall through, return a response, raise), dictionary
    lookup with a default (\<open>get_or\<close>, Python's \<^verbatim>\<open>dict.get\<close>), \<^verbatim>\<open>str.upper\<close>,
    \<^verbatim>\<open>str.lower\<close> and \<^verbatim>\<open>str.startswith\<close> on ASCII text, \<^verbatim>\<open>str.splitlines\<close> for the
    line feed, and the facts about \<open>find\<close> that first-match lookup needs.
    The collections \<open>restipy_defs\<close>, \<open>restipy_branch\<close> and \<open>restipy_inv\<close> gather
    the unfolding rules, the one-lemma-per-branch facts and the preservation
    facts of every component.

  \<^item> \<open>Restipy_Http\<close>: the values that cross the core's boundary and whose
    code is outside \<^verbatim>\<open>src/\<close>: JSON values (\<open>jvalue\<close>), the exception
    taxonomy (\<open>exn\<close>: \<^verbatim>\<open>HTTPException\<close>, \<^verbatim>\<open>RestiPyException\<close>, any other
    exception), the response with its validated status (\<open>Response\<close>,
    \<open>set_status\<close>, \<open>HTTP_STATUS_LINES\<close>), and what a hook returns
    (\<open>retval\<close>: a response or anything else). These are modelled from the
    specification and from how the core and \<^verbatim>\<open>tests/test_response.py\<close> use
    them. The lemmas characterise the valid status codes and show that a
    constructed response always has one.

  \<^item> \<open>Restipy_Request\<close>: class \<^verbatim>\<open>Request\<close>. The environment is the record
    \<open>environ\<close> (string variables, input stream, diagnostic stream, the
    application's back-reference), the slots are the record \<open>request\<close>, and
    \<^verbatim>\<open>__init__\<close>, \<^verbatim>\<open>app\<close>, \<^verbatim>\<open>params\<close>, \<^verbatim>\<open>set_params\<close>, \<^verbatim>\<open>method\<close> (here
    \<open>request_method\<close>), \<^verbatim>\<open>path\<close>, \<^verbatim>\<open>host\<close>, \<^verbatim>\<open>protocol\<close>, \<^verbatim>\<open>secure\<close>, \<^verbatim>\<open>accept\<close>,
    \<^verbatim>\<open>content_type\<close>, \<^verbatim>\<open>origin\<close>, \<^verbatim>\<open>url\<close>, \<^verbatim>\<open>href\<close>, \<^verbatim>\<open>header\<close> and \<^verbatim>\<open>__repr__\<close> are
    one definition each. The lemmas give the frame of \<open>set_params\<close>, the
    normal forms of the accessors, and that the headers are computed once.

  \<^item> \<open>Restipy_App\<close>: the data of the application. A hook is a function from
    the request to an outcome and the request as the hook left it; \<open>view\<close>
    and \<open>middleware\<close> are records of hooks, \<open>restipy\<close> is the record of
    what \<^verbatim>\<open>RestiPy.__init__\<close> creates, with \<open>config = None\<close> until
    \<^verbatim>\<open>bootstrap\<close> assigns it. A compiled route is the function
    \<^verbatim>\<open>pattern.match\<close> computes: from a path to \<open>None\<close> or the dictionary of
    named groups. The theory also holds the hooks and views the worked
    examples use.

  \<^item> \<open>Restipy_Routing\<close>: \<^verbatim>\<open>RestiPy._add_view\<close> (\<open>compile_route\<close>,
    \<open>append_route\<close>, \<open>add_view\<close>) and \<^verbatim>\<open>RestiPy.match\<close> (\<open>scan_views\<close>,
    \<open>scan_methods\<close>, \<open>match\<close>). The abstract specification \<open>match_spec\<close>
    says that lookup is \<open>find\<close> over the candidate views of the method
    (for \<^verbatim>\<open>HEAD\<close>: its own views, then those of \<^verbatim>\<open>GET\<close>); C5 is the refinement,
    C4 first-match-wins, C10 the \<^verbatim>\<open>HEAD\<close> fallback, C23 the 404 case,
    \<open>add_view_appends\<close> and C29 what registration changes and what it
    leaves alone, C30 what a
    string route does. The invariants of the route table are \<open>wf_routes\<close>
    (upper-case keys, no empty list) and \<open>listed\<close> (a view stands only
    under methods it declares); registration preserves both.

  \<^item> \<open>Restipy_Middleware\<close>: \<^verbatim>\<open>RestiPy.add_middleware\<close> and the two kinds of
    loop over hook lists in \<^verbatim>\<open>process_request\<close> (\<open>run_before\<close>,
    \<open>run_after\<close>). \<open>add_middleware_registry\<close> keeps the three lists the
    images of one list of middleware; the lemmas say where a loop stops and what it threads
    through the hooks (\<open>thread_after\<close>, \<open>quiet\<close>).

  \<^item> \<open>Restipy_View\<close>: the inner \<^verbatim>\<open>try\<close> of \<^verbatim>\<open>process_request\<close>, which runs
    \<^verbatim>\<open>before_handler\<close>, \<^verbatim>\<open>handler\<close> and \<^verbatim>\<open>after_handler\<close> of the matched view
    and hands a \<^verbatim>\<open>RestiPyException\<close> to \<^verbatim>\<open>on_exception\<close> (\<open>view_try\<close>,
    \<open>view_except\<close>, \<open>view_catch\<close>, \<open>view_lifecycle\<close>). The same stage
    is given as a state machine (\<open>vstate\<close>, the step relation \<open>vstep\<close>,
    the step function \<open>vnext\<close>); the machine is deterministic, C24 shows
    that no run is infinite and that every run ends in the one final state
    the step function reaches within four steps (\<open>rank\<close>), and C25 that
    its runs are exactly the results of \<open>view_lifecycle\<close>. C8 and C9 are
    the error paths.

  \<^item> \<open>Restipy_Dispatcher\<close>: \<^verbatim>\<open>RestiPy.process_request\<close> as a whole:
    \<open>initial_request\<close> (binding the environment), \<open>try_body\<close> (the outer
    \<^verbatim>\<open>try\<close>: before-route hooks, lookup, \<open>set_params\<close>, before-handler hooks,
    the view, after-handler hooks), \<open>http_error_response\<close> (the clause for
    \<^verbatim>\<open>HTTPException\<close>), \<open>handle_exception\<close> (the clause for every other
    exception) and \<open>process_request\<close>. The result is the record
    \<open>dispatch\<close>: a response or the exception that leaves the function, the
    request as the hooks left it, and what was written to the diagnostic
    stream. C1 says exactly when a call ends in a response, C2 and C27 what
    the response to an internal fault holds, C3 and C7 how transport errors
    become responses, C6 where a hook that answers stops the pipeline and
    which hooks are skipped then; the lemmas cover the same for a
    before-handler hook and what happens before \<^verbatim>\<open>bootstrap\<close>.

  \<^item> \<open>Restipy_Trace\<close>: the order of the calls. The loops and \<open>try_body\<close>
    once more, each returning the list of the calls it made
    (\<open>run_before_tr\<close>, \<open>run_after_tr\<close>, \<open>vcalls\<close>, \<open>try_body_tr\<close>,
    \<open>calls\<close>); forgetting the list gives \<open>try_body\<close> back. The
    events are a linear order by their place in the pipeline. C12 shows
    that the calls of every request are in the order of the pipeline and of
    registration, each hook at most once, C13 that an after-handler hook is
    called only after every earlier hook fell through and the view ended
    without an exception, C26 what the normal path calls and returns.

  \<^item> \<open>Restipy_Wsgi\<close>: the gateway adapter \<^verbatim>\<open>RestiPy.wsgi\<close> and \<^verbatim>\<open>__call__\<close>:
    the call of \<^verbatim>\<open>start_response\<close> and what the iterable yields
    (\<open>wsgi_result\<close>). \<open>head_served_without_body\<close> shows that a \<^verbatim>\<open>HEAD\<close>
    request is served by the view of \<^verbatim>\<open>GET\<close> and gets status and headers
    but no body.

  \<^item> \<open>Restipy_Generator\<close>: \<^verbatim>\<open>RestiPy.wsgi\<close> as the generator it is: the
    object as a state (\<open>gen\<close>: not started, suspended at \<^verbatim>\<open>yield\<close>,
    finished), one step of it (\<open>gen_next\<close>), the loop of a gateway
    (\<open>drain\<close>), and any other use of the object as an inductive relation
    (\<open>steps\<close>). C16 shows that the loop sees what \<open>wsgi\<close> of
    \<open>Restipy_Wsgi\<close> says (\<open>observe\<close> reads the events as a
    \<open>wsgi_result\<close>), C17 that after any number of steps a gateway has seen
    nothing or exactly the events of the loop: no call of
    \<^verbatim>\<open>start_response\<close> and no chunk is repeated.

  \<^item> \<open>Restipy_Bootstrap\<close>: start-up, \<^verbatim>\<open>RestiPy.bootstrap\<close> with
    \<^verbatim>\<open>_import_module\<close>, \<^verbatim>\<open>_get_module_members\<close>, \<^verbatim>\<open>_import_view\<close> and
    \<^verbatim>\<open>_import_middleware\<close>. The import system is a parameter (\<open>importer\<close>), a
    module is its name and its classes (\<open>pymodule\<close>, \<open>pyclass\<close>, \<open>member\<close>).
    C31 shows that the views of a module are registered in the order of
    their class names; \<open>bootstrap_ready\<close> shows that start-up keeps the
    state dispatch relies on (\<open>ready\<close>), also when an import raises.

  \<^item> \<open>Restipy_Setup\<close>: the life of the application object before it
    serves: the mutating methods as a datatype of operations (\<open>setup_op\<close>)
    with one step function (\<open>apply_op\<close>), the application a list of calls
    builds (\<open>build\<close>) and the applications that can be built as an
    inductive predicate (\<open>built\<close>), which agree. C28 shows that \<open>ready\<close>
    holds after every list of calls, C22 that lookup in an application that
    was built returns only a view that declares the method of the request.

  \<^item> \<open>Restipy_Wellformed\<close>: what a well-formed response is
    (\<open>wf_response\<close>: a status of the table and a content type) and what
    it means for hooks, views, middleware, modules and applications to
    return only such responses (\<open>hook_ok\<close>, \<open>view_ok\<close>, \<open>app_ok\<close>,
    \<open>op_ok\<close>). Every stage of dispatch and every operation of start-up
    preserves it; C11 is the result: whatever an application built from
    well-formed parts answers is well formed, the responses the dispatcher
    makes for exceptions included.

  \<^item> \<open>Restipy_Body\<close>: the body of a request, in \<^verbatim>\<open>request.py\<close>:
    \<^verbatim>\<open>content_length\<close> with the conversion \<^verbatim>\<open>int(text)\<close> (\<open>int_of_str\<close>), the
    generator \<^verbatim>\<open>_read_body\<close> (\<open>read_chunks\<close> for its loop, \<open>read_body\<close>),
    \<^verbatim>\<open>_parse_json_data\<close> and \<^verbatim>\<open>json\<close>, \<^verbatim>\<open>_parse_url_encoded_form\<close>,
    \<^verbatim>\<open>_get_multipart_message\<close> with \<^verbatim>\<open>_parse_multipart_form\<close> (\<open>store_fields\<close> for
    its loop) and \<^verbatim>\<open>form\<close>, \<^verbatim>\<open>_parse_multipart_files\<close> (\<open>store_files\<close>) and
    \<^verbatim>\<open>files\<close>, \<^verbatim>\<open>query\<close> and \<^verbatim>\<open>charset\<close>. C32 is the 413 guard,
    C33 and C34 say what the read loop reads (more than the limit allows,
    at most one chunk more than asked), C36 is about the
    declared length, C37 and C38 about the JSON parser and its cache; the
    lemmas cover that no byte is lost, the empty length, the cache the form
    parsers share, the fields of a multipart form and the character set.

  \<^item> \<open>Restipy_ReadLoop\<close>: the loop of \<^verbatim>\<open>_read_body\<close> as the \<^verbatim>\<open>while\<close> loop
    the code has, over the state of its local variables (\<open>read_state\<close>,
    \<open>loop_cond\<close>, \<open>loop_body\<close>, \<open>read_loop\<close> by \<open>while_option\<close>). C35
    shows that the loop ends for every input, that it computes what
    \<open>read_chunks\<close> computes, and how many chunks it yields at most.

  \<^item> \<open>Restipy_Store\<close>: the parameter dictionaries as objects in a store
    (\<open>store\<close>, \<open>alloc\<close>, \<open>request_obj\<close>, \<open>params_setitem\<close>,
    \<open>assign_groups\<close>), for the default argument \<^verbatim>\<open>params={}\<close> of
    \<^verbatim>\<open>Request.__init__\<close>, which every request constructed without
    parameters shares. \<open>abs_request\<close> is the request of the other
    theories; \<open>default_params_shared\<close> shows that it is the right one
    exactly as long as nothing was written into the shared dictionary, and
    what a write does.

  \<^item> \<open>Restipy_Server\<close>: one application serving a list of requests. The
    state between two calls is the content of the shared dictionary;
    \<open>first_request\<close> is the request a call starts with, \<open>process_from\<close>
    the \<^verbatim>\<open>try\<close> statement of \<^verbatim>\<open>process_request\<close> from there,
    \<open>shared_after\<close> the dictionary as the before-route hooks leave it,
    \<open>starts\<close> and \<open>serve\<close> the requests and the results of a list of
    calls. C14 shows that serving is \<open>process_request\<close> for each
    environment when the before-route hooks leave the parameters alone, C15
    that otherwise what one request wrote is there for every later one.

  \<^item> \<open>Restipy_Workers\<close>: calls of \<^verbatim>\<open>process_request\<close> that run at the same
    time, as the threads of a gateway run them. A hook says what it does to
    the parameters (\<open>pcmd\<close>: item assignment and \<^verbatim>\<open>pop\<close> through the
    property \<^verbatim>\<open>params\<close>, a new dictionary through the setter), \<open>exec_cmd\<close>
    runs that on the store and \<open>fun_of\<close> gives the hook of the other
    theories. A worker (\<open>worker\<close>, \<open>spawn\<close>, \<open>wstep\<close>) is a call in
    progress; \<open>finish\<close> runs one worker to its end, \<open>serve_o\<close> one
    after the other, and the workers of a pool take their steps in any
    order (\<open>pstep\<close>). C19 shows that one worker after the other is
    \<open>serve\<close> of \<open>Restipy_Server\<close>, for hooks that do not use the setter;
    C18 that with before-route hooks that run no command on the parameters
    every order of steps gives each environment the answer of
    \<open>process_request\<close>; C20 that with the hook \<open>login\<close> the answer to a
    client depends on the order; C21 that every order of steps ends with
    all workers answered.

  \<^item> \<open>Restipy_Serial\<close>: the pools of an application with one before-route
    hook that writes into the parameters. \<open>serial\<close> says that a pool
    agrees with an order of its calls: the calls of the order have run
    their hook one after the other, each from the dictionary the one before
    left, and will answer or have answered accordingly (\<open>on_way\<close>); the
    others have not begun. Every step keeps this (\<open>hook_step\<close>,
    \<open>later_step\<close>, \<open>serial_step\<close>), and C40 is the result: the outcomes
    of every run are the outcomes of \<open>serve\<close> for one order of the
    requests, which is the order in which the hooks ran.

  \<^item> \<open>Spec2Isabelle\<close> (this theory): dispatch and body parsing together,
    for a handler that answers with the JSON body of the request. C39 shows
    that an oversized body ends in the response 413; \<open>json_body_echoed\<close>
    that a well-formed body reaches the response. Dispatch, the generator
    and well-formedness together give \<open>gateway_sees_well_formed\<close>: the
    gateway of an application of well-formed parts sees only status lines
    of the table.

  \<^bold>\<open>How the model corresponds to the code.\<close> Objects the code mutates are
  passed and returned: a hook takes the request and returns it, an
  after-hook also takes and returns the response. Exceptions are values:
  a computation that may raise returns \<open>exn + 'a\<close> with the exception on
  the left. The application is a value that registration returns updated;
  dispatch reads it and does not change it. The formatter of tracebacks
  (\<^verbatim>\<open>traceback.format_exc\<close>) is a parameter of \<open>process_request\<close>, so every
  theorem holds for every formatter. Route patterns are functions, so every
  theorem holds for every regular-expression engine; a pattern string that
  was not compiled is the constructor \<open>RouteStr\<close>, which \<open>match\<close> cannot
  use (C30). The decoders the parsers call (\<^verbatim>\<open>json.loads\<close>, \<^verbatim>\<open>bytes.decode\<close>,
  \<^verbatim>\<open>parse_qsl\<close>, the multipart parser) are parameters too. The input stream
  is the text that is still to be read, and \<^verbatim>\<open>read(n)\<close> takes up to \<open>n\<close>
  bytes from its front, as a stream over a buffer does.

  \<^bold>\<open>Bounds.\<close> No definition takes fuel. The loops of the code range over
  finite lists and are structural recursions, except these: \<open>splitlines\<close>
  is a \<^theory_text>\<open>function\<close> whose termination is proved by the length of the
  text; \<open>read_chunks\<close>, the loop of \<^verbatim>\<open>_read_body\<close>, is one whose
  termination is proved by the length of the stream: every turn of the loop
  either stops or takes at least one byte; \<open>read_loop\<close> is the same loop
  by \<open>while_option\<close>, where not ending would be the value \<open>None\<close>, and
  C35 proves from the same measure that it is never \<open>None\<close>; \<open>vcalls\<close>
  follows the state machine of the view, which needs at most four steps
  (\<open>rank\<close>, \<open>funpow_reaches_DONE\<close>); \<open>drain\<close> follows the generator,
  which yields at most once (\<open>gen_rank\<close>); \<open>finish\<close> follows a worker,
  which takes one step for each before-route hook and one more
  (\<open>weight\<close>), and C21 shows with the sum of these numbers that a pool of
  workers ends. Integers are unbounded, as Python's
  are; the chunk size is the constant of the code, and the lemmas use only
  that it is positive.

  \<^bold>\<open>What is not modelled.\<close> The interpreter's import system
  (\<^verbatim>\<open>importlib.import_module\<close>) and the constructors of views and middleware
  are parameters of start-up; constructors are taken not to raise. The
  serialisation of a response (\<^verbatim>\<open>Response.get_response\<close>) is a parameter of
  the adapter. Of the request, the content of the file system is not
  modelled: \<open>files\<close> lists the temporary files it writes, named by a
  parameter. The helper \<^verbatim>\<open>env_to_h\<close>, which is outside \<^verbatim>\<open>src/\<close>, and
  \<^verbatim>\<open>urljoin\<close> are parameters of \<open>header\<close> and \<open>url\<close>, and \<open>header\<close> takes
  the entries of the environment in the order of iteration as a parameter,
  because the model keeps the environment as a map. Outside
  \<open>Restipy_Store\<close> and \<open>Restipy_Server\<close> every request has its own
  parameters, which is the behaviour of the code as long as no hook writes
  into the dictionary of a request before lookup (C14, C18). In
  \<open>Restipy_Server\<close> a before-route hook changes the parameters by writing
  into the dictionary; \<open>Restipy_Workers\<close> tells the setter from it and
  shows when the two agree (C19). A step of a worker is one call of a
  before-route hook, or lookup with all that follows it: a thread is not
  interrupted inside a hook, and after lookup a call works on a dictionary
  no other call can reach through its request. What a hook keeps outside
  the request (a closure, a global) is not modelled. The gateway itself is its loop over the generator; that it
  sends the status line and the headers before the first chunk is its own
  business. The code that creates the application and
  calls its methods is outside \<^verbatim>\<open>src/\<close>; \<open>build\<close> takes the calls as a
  list. Text is ASCII: the case
  conversions, \<^verbatim>\<open>strip\<close> and \<^verbatim>\<open>int\<close> treat the bytes above 127 as ordinary
  characters.
\<close>

section \<open>Dispatch and body parsing together\<close>

text \<open>
  A handler that answers with the JSON body of the request, or with
  \<^verbatim>\<open>null\<close> when there is none, and lets the exceptions of the parser pass;
  an application with this handler under \<^verbatim>\<open>POST /echo\<close>, and an environment
  that posts a body to it.
\<close>

definition json_handler :: "(string \<Rightarrow> jvalue option) \<Rightarrow> hook" where
  "json_handler loads req =
     (case json loads req of
        (Inl e, req') \<Rightarrow> (Inl e, req')
      | (Inr v, req') \<Rightarrow>
          (Inr (Resp \<lparr>body = (case v of None \<Rightarrow> JNull | Some b \<Rightarrow> b), status = 200,
                      headers = default_headers\<rparr>), req'))"

definition echo_view :: "(string \<Rightarrow> jvalue option) \<Rightarrow> view" where
  "echo_view loads =
     (demo_view (prefix_pattern ''/echo'') [''POST''] ''echo'')\<lparr>handler := json_handler loads\<rparr>"

definition echo_app :: "(string \<Rightarrow> jvalue option) \<Rightarrow> int \<Rightarrow> restipy" where
  "echo_app loads limit =
     add_view (RestiPy\<lparr>config := Some (body_settings limit)\<rparr>) (echo_view loads)"

definition one_list :: "string \<Rightarrow> jvalue option" where
  "one_list s = (if s = ''[1]'' then Some (JList [JInt 1]) else None)"

definition echo_environ :: "string \<Rightarrow> string \<Rightarrow> environ" where
  "echo_environ len inp =
     \<lparr>vars = [''REQUEST_METHOD'' \<mapsto> ''POST'', ''PATH_INFO'' \<mapsto> ''/echo'',
              ''CONTENT_TYPE'' \<mapsto> ''application/json'', ''CONTENT_LENGTH'' \<mapsto> len],
      wsgi_input = Some inp, wsgi_errors = Some [], restipy_app = None\<rparr>"

lemma json_handler_raise:
  "json loads req = (Inl e, req') \<Longrightarrow> json_handler loads req = (Inl e, req')"
  by (simp add: json_handler_def)

lemma json_handler_value:
  "json loads req = (Inr (Some v), req') \<Longrightarrow>
     json_handler loads req =
       (Inr (Resp \<lparr>body = v, status = 200, headers = default_headers\<rparr>), req')"
  by (simp add: json_handler_def)

lemmas echo_eval =
  echo_view_def echo_app_def echo_environ_def one_list_def initial_request_def try_body_def view_lifecycle_def
  view_try_def view_catch_def match_scan candidates_def add_view_lookup fixture_defs hook_defs
  string_eval json_handler_def json_def parse_json_data_def media_type_def read_body_def
  has_body_def request_defs content_length_def max_body_size_def body_settings_def int_eval

text \<open>
  C39. An oversized body ends in 413: when dispatch reaches a view whose
  handler reads the JSON body, and the declared length exceeds
  \<^verbatim>\<open>MAX_BODY_SIZE\<close>, the transport error of the parser passes the view's
  \<^verbatim>\<open>on_exception\<close> hook by, whatever that hook is, and \<open>process_request\<close>
  answers with status 413 and code \<^verbatim>\<open>REQUEST_BODY_TOO_LARGE\<close>; the input
  stream has not been read and nothing is logged.
\<close>

theorem oversized_body_rejected:
  assumes "run_before (before_route_m self) (initial_request self environ) = (Next (), req1)"
    and "match self (path req1) (request_method req1) = Inr (v, ps)"
    and "run_before (before_m self) (set_params req1 ps) = (Next (), req2)"
    and "before_handler v req2 = (Inr NonResp, req3)"
    and "handler v = json_handler loads"
    and "\<not> truthy (p_form req3)"
    and "media_type req3 \<in> set [''application/json'', ''application/json-rpc'']"
    and "has_body req3" and "content_length req3 = Inr len"
    and "max_body_size req3 = Some limit" and "limit < len"
  shows "process_request fmt self environ =
    \<lparr>outcome = Inr \<lparr>body = JDict [(''code'', JStr ''REQUEST_BODY_TOO_LARGE''),
                                  (''error'', JStr ''Request body too large.'')],
                    status = 413, headers = default_headers\<rparr>,
     final_request = req3, stderr = []\<rparr>"
proof -
  from assms(8-11) have "read_body req3 = (Inl body_too_large, req3)"
    by (rule read_body_over)
  with assms(6,7) have "json loads req3 = (Inl body_too_large, req3)"
    by (simp add: json_def parse_json_data_raise)
  with assms(5) have "handler v req3 = (Inl body_too_large, req3)"
    by (simp add: json_handler_raise)
  with assms(4) have "view_lifecycle v req2 = (Raise body_too_large, req3)"
    by (simp add: lifecycle_handler_raise body_too_large_def)
  with assms(1-3) have "try_body self (initial_request self environ) = (Inl body_too_large, req3)"
    by (simp add: try_body_view)
  then show ?thesis
    by (simp add: body_too_large_def process_request_http http_error_response_valid
        exc_get_response_def)
qed

theorem oversized_body_rejected_witness:
  "outcome (process_request (\<lambda>e. ''trace'') (echo_app one_list 10)
      (echo_environ ''11'' ''hello world'')) =
     Inr \<lparr>body = JDict [(''code'', JStr ''REQUEST_BODY_TOO_LARGE''),
                        (''error'', JStr ''Request body too large.'')],
          status = 413, headers = default_headers\<rparr>"
  using oversized_body_rejected [of "echo_app one_list 10" "echo_environ ''11'' ''hello world''"
      "initial_request (echo_app one_list 10) (echo_environ ''11'' ''hello world'')"
      "echo_view one_list" Map.empty
      "set_params (initial_request (echo_app one_list 10) (echo_environ ''11'' ''hello world''))
         Map.empty"
      "set_params (initial_request (echo_app one_list 10) (echo_environ ''11'' ''hello world''))
         Map.empty"
      one_list 11 10 "\<lambda>e. ''trace''"]
  by (simp add: echo_eval)

text \<open>
  A JSON body reaches the response: when dispatch reaches a view whose
  handler answers with the JSON body, the body is read and the decoder
  accepts it, the response carries the decoded value with status 200, the
  view's \<^verbatim>\<open>after_handler\<close> and the after-handler middleware run on it, and
  the request that comes back has the value cached and the stream advanced.
\<close>

lemma json_body_echoed:
  assumes "run_before (before_route_m self) (initial_request self environ) = (Next (), req1)"
    and "match self (path req1) (request_method req1) = Inr (v, ps)"
    and "run_before (before_m self) (set_params req1 ps) = (Next (), req2)"
    and "before_handler v req2 = (Inr NonResp, req3)"
    and "handler v = json_handler loads"
    and "\<not> truthy (p_form req3)"
    and "media_type req3 \<in> set [''application/json'', ''application/json-rpc'']"
    and "read_body req3 = (Inr chunks, req4)" and "concat chunks \<noteq> []"
    and "loads (concat chunks) = Some b"
    and "after_handler v (req4\<lparr>p_form := b\<rparr>)
           \<lparr>body = b, status = 200, headers = default_headers\<rparr> = (None, req5, out)"
    and "run_after (after_m self) req5 out = (Inr out', req6)"
  shows "process_request fmt self environ =
    \<lparr>outcome = Inr out', final_request = req6, stderr = []\<rparr>"
proof -
  from assms(6-10) have "json loads req3 = (Inr (Some b), req4\<lparr>p_form := b\<rparr>)"
    by (simp add: json_def parse_json_data_read)
  with assms(5) have "handler v req3 =
      (Inr (Resp \<lparr>body = b, status = 200, headers = default_headers\<rparr>), req4\<lparr>p_form := b\<rparr>)"
    by (simp add: json_handler_value)
  with assms(4,11) have "view_lifecycle v req2 = (Next out, req5)"
    by (simp add: lifecycle_after_ok)
  with assms(1-3,12) show ?thesis
    by (simp add: try_body_view process_request_ok)
qed

section \<open>What a gateway sees of an application of well-formed parts\<close>

text \<open>
  Dispatch, the generator and well-formedness together: when the hooks of
  an application return well-formed responses only, every call of
  \<^verbatim>\<open>start_response\<close> that a gateway sees while it iterates has a status line
  of the table and a content type among the headers.
\<close>

lemma gateway_sees_well_formed:
  assumes "app_ok self"
    and "StartResponse line hs \<in> set (drain fmt dumps self (call_gen environ))"
  shows "line \<in> snd ` set HTTP_STATUS_LINES \<and> map_of hs ''content-type'' \<noteq> None"
proof (cases "outcome (process_request fmt self environ)")
  case (Inl e)
  with assms(2) show ?thesis by (simp add: call_gen_def drain_raise)
next
  case (Inr out)
  with assms(1) have "wf_response out" by (rule process_request_wf)
  moreover from Inr assms(2) have "line = status_line out \<and> hs = headers out"
    by (cases "upper (get_or (vars environ) ''REQUEST_METHOD'' ''GET'') = ''HEAD''")
       (simp_all add: call_gen_def drain_HEAD drain_body)
  ultimately show ?thesis by (simp add: wf_status_line wf_response_def)
qed

lemma gateway_sees_well_formed_built:
  assumes "list_all op_ok ops"
    and "StartResponse line hs \<in> set (drain fmt dumps (build ops) (call_gen environ))"
  shows "line \<in> snd ` set HTTP_STATUS_LINES \<and> map_of hs ''content-type'' \<noteq> None"
  using app_ok_build [OF assms(1)] assms(2) by (rule gateway_sees_well_formed)

section \<open>What the workers of a pool answer for an application of well-formed parts\<close>

text \<open>
  Concurrent dispatch and well-formedness together: when the hooks of an
  application return well-formed responses only and its before-route hooks
  run no command on the parameters, every response a worker of a pool
  answers with, in any order of steps, is well formed.
\<close>

lemma pool_answers_well_formed:
  assumes "app_ok self" and "before_route_m self = map fun_of ohs" and "\<forall>h \<in> set ohs. silent h"
    and "wf_store st" and "pristine st"
    and "(pstep fmt self)\<^sup>*\<^sup>* (st, map (spawn self ohs) envs) (st', ws)"
    and "i < length envs" and "ws ! i = Answered d" and "outcome d = Inr out"
  shows "wf_response out"
proof -
  from run_ok [OF assms(6) pool_ok_start [OF assms(2-5)]]
  have "list_all2 (worker_ok fmt self) ws envs"
    by (simp add: pool_ok_def)
  from list_all2_nthD2 [OF this assms(7)] assms(8)
  have "d = process_request fmt self (envs ! i)"
    by (simp add: worker_ok_def)
  with assms(1,9) show ?thesis
    by (auto intro: process_request_wf)
qed

end
